theory Spec2Isabelle
  imports Main "HOL-Library.Word" "HOL-Library.AList"
begin

section \<open>The kprobes event processor of the file-integrity module\<close>

text \<open>
  The theory embeds \<^verbatim>\<open>eProcessor.process\<close> of
  \<^verbatim>\<open>auditbeat/module/file_integrity/kprobes/events_process.go\<close>.
  The directory-entry cache, the directory entries, the probe-event pool and the two
  collaborators (path traverser, emitter) are declared in other files of the package;
  the cache and the entries are modelled from the specification, the collaborators are
  parameters of the processor.
\<close>

subsection \<open>Data\<close>

type_synonym u32 = "32 word"
type_synonym u64 = "64 word"
type_synonym addr = nat

text \<open>A Go \<^verbatim>\<open>error\<close>: the processor's own one, or whatever the emitter returned.\<close>

datatype error = UnknownEventType | EmitFailure string

text \<open>
  Modelled from the spec: the declaration of \<^verbatim>\<open>ProbeEvent\<close> is missing; the fields
  are those \<^verbatim>\<open>process\<close> reads (\<^verbatim>\<open>pe.Meta.TID\<close> is \<open>Meta_TID\<close>). The
  TID is passed to \<^verbatim>\<open>Emit\<close> as its \<^verbatim>\<open>uint32\<close>; inode numbers are taken as
  64-bit and device numbers and masks as 32-bit values.
\<close>

record ProbeEvent =
  Meta_TID :: u32
  MaskMonitor :: u32
  MaskCreate :: u32
  MaskModify :: u32
  MaskAttrib :: u32
  MaskMoveFrom :: u32
  MaskMoveTo :: u32
  MaskDelete :: u32
  FileName :: string
  FileIno :: u64
  FileDevMajor :: u32
  FileDevMinor :: u32
  ParentIno :: u64
  ParentDevMajor :: u32
  ParentDevMinor :: u32

text \<open>The key of the cache index, \<^verbatim>\<open>dKey{Ino, DevMajor, DevMinor}\<close>.\<close>

datatype dKey = DKey u64 u32 u32

text \<open>
  Modelled from the spec: the declaration of \<^verbatim>\<open>dEntry\<close> is missing. The fields
  are those of the struct literals in \<^verbatim>\<open>process\<close> and the parent back-reference
  of the spec. A \<^verbatim>\<open>*dEntry\<close> is an address of the heap of entries; \<open>Children\<close> maps a
  basename to the child's address (the empty list is Go's nil map); the depth is taken as
  a 32-bit value, as the depth handed to \<^verbatim>\<open>WalkAsync\<close>.
\<close>

record dEntry =
  Name :: string
  Ino :: u64
  DevMajor :: u32
  DevMinor :: u32
  Depth :: u32
  Parent :: "addr option"
  Children :: "(string \<times> addr) list"

text \<open>What \<^verbatim>\<open>GetMonitorPath\<close> returns beside the match flag.\<close>

record MonitorPath =
  fullPath :: string
  depth :: u32
  isFromMove :: bool
  tid :: u32

text \<open>One call of \<^verbatim>\<open>Emit(ePath, pid, op)\<close>.\<close>

type_synonym emission = "string \<times> u32 \<times> u32"

text \<open>
  The processor's fixed fields. The traverser and the emitter are interfaces: the answer
  of \<^verbatim>\<open>GetMonitorPath\<close> is a function of its arguments, the answer of
  \<^verbatim>\<open>Emit\<close> a function of the emissions made so far and of the new one.
  \<open>pathJoin\<close> stands for the standard library's \<^verbatim>\<open>filepath.Join\<close>.
\<close>

record eProcessor =
  GetMonitorPath :: "u64 \<Rightarrow> u32 \<Rightarrow> u32 \<Rightarrow> string \<Rightarrow> MonitorPath \<times> bool"
  Emitter :: "emission list \<Rightarrow> emission \<Rightarrow> error option"
  isRecursive :: bool
  pathJoin :: "string list \<Rightarrow> string"

text \<open>
  Everything \<^verbatim>\<open>process\<close> can change: the heap of entries with its allocation
  pointer, the cache (\<open>index\<close> and the per-TID rename staging \<open>moveCache\<close>), the entries
  marked unreferenced by \<^verbatim>\<open>Release\<close>, and the logs of the calls made to the
  emitter (\<open>emitted\<close>), to \<^verbatim>\<open>WalkAsync\<close> (\<open>walks\<close>) and to
  \<^verbatim>\<open>releaseProbeEvent\<close> (\<open>pool\<close>).
\<close>

record pstate =
  heap :: "addr \<Rightarrow> dEntry"
  nextAddr :: addr
  index :: "dKey \<rightharpoonup> addr"
  moveCache :: "u64 \<rightharpoonup> addr"
  released :: "addr set"
  emitted :: "emission list"
  walks :: "(string \<times> u32 \<times> u32) list"
  pool :: "ProbeEvent list"

text \<open>The inotify operation codes of \<^verbatim>\<open>golang.org/x/sys/unix\<close>.\<close>

definition IN_MODIFY :: u32 where "IN_MODIFY = 0x2"
definition IN_ATTRIB :: u32 where "IN_ATTRIB = 0x4"
definition IN_MOVED_FROM :: u32 where "IN_MOVED_FROM = 0x40"
definition IN_MOVED_TO :: u32 where "IN_MOVED_TO = 0x80"
definition IN_CREATE :: u32 where "IN_CREATE = 0x100"
definition IN_DELETE :: u32 where "IN_DELETE = 0x200"

definition entryKey :: "dEntry \<Rightarrow> dKey" where
  "entryKey e = DKey (Ino e) (DevMajor e) (DevMinor e)"

definition fileKey :: "ProbeEvent \<Rightarrow> dKey" where
  "fileKey pe = DKey (FileIno pe) (FileDevMajor pe) (FileDevMinor pe)"

definition parentKey :: "ProbeEvent \<Rightarrow> dKey" where
  "parentKey pe = DKey (ParentIno pe) (ParentDevMajor pe) (ParentDevMinor pe)"

text \<open>\<^verbatim>\<open>&dEntry{...}\<close>: a new entry at the next free address.\<close>

definition newEntry :: "pstate \<Rightarrow> dEntry \<Rightarrow> addr \<times> pstate" where
  "newEntry s e =
     (nextAddr s, s\<lparr>heap := (heap s)(nextAddr s := e), nextAddr := Suc (nextAddr s)\<rparr>)"

subsection \<open>Directory entries\<close>

text \<open>
  Modelled from the spec: \<^verbatim>\<open>dEntry.GetChild\<close> is missing; "lookup by basename".
\<close>

definition GetChild :: "(addr \<Rightarrow> dEntry) \<Rightarrow> addr \<Rightarrow> string \<Rightarrow> addr option" where
  "GetChild st a name = map_of (Children (st a)) name"

text \<open>
  The entries that a walk up the parent pointers visits, from the root down to the entry
  it starts at. The fuel bounds the number of hops; \<open>None\<close> is a walk that did not
  reach a root within the fuel, as on a parent chain that is a cycle.
\<close>

primrec chain :: "nat \<Rightarrow> (addr \<Rightarrow> dEntry) \<Rightarrow> addr \<Rightarrow> addr list option" where
  "chain 0 st a = (case Parent (st a) of None \<Rightarrow> Some [a] | Some p \<Rightarrow> None)"
| "chain (Suc n) st a =
     (case Parent (st a) of
        None \<Rightarrow> Some [a]
      | Some p \<Rightarrow> map_option (\<lambda>as. as @ [a]) (chain n st p))"

text \<open>
  Modelled from the spec: \<^verbatim>\<open>dEntry.Path\<close> is missing; it "walks parent pointers,
  concatenating names. For a root whose Name already holds the full path, returns it
  directly". The names are joined as \<^verbatim>\<open>process\<close> joins a parent's path and a
  name; the fuel is that of the walk.
\<close>

primrec Path :: "eProcessor \<Rightarrow> nat \<Rightarrow> (addr \<Rightarrow> dEntry) \<Rightarrow> addr \<Rightarrow> string option" where
  "Path ep 0 st a = (case Parent (st a) of None \<Rightarrow> Some (Name (st a)) | Some p \<Rightarrow> None)"
| "Path ep (Suc n) st a =
     (case Parent (st a) of
        None \<Rightarrow> Some (Name (st a))
      | Some p \<Rightarrow> map_option (\<lambda>pp. pathJoin ep [pp, Name (st a)]) (Path ep n st p))"

text \<open>
  The recursion over an entry and its descendants, each with its depth when the entry
  itself is at depth \<open>d\<close>. The fuel bounds the nesting; \<open>None\<close> is a recursion
  that did not end within the fuel, as on children that form a cycle.
\<close>

primrec descend :: "nat \<Rightarrow> (addr \<Rightarrow> dEntry) \<Rightarrow> u32 \<Rightarrow> addr \<Rightarrow> (addr \<times> u32) list option" where
  "descend 0 st d a = (if Children (st a) = [] then Some [(a, d)] else None)"
| "descend (Suc n) st d a =
     map_option (\<lambda>rs. (a, d) # concat rs)
       (those (map (descend n st (d + 1)) (map snd (Children (st a)))))"

text \<open>
  Modelled from the spec: \<^verbatim>\<open>dEntry.Release\<close> is missing; it "marks the entry and
  its descendants unreferenced; recursive".
\<close>

definition Release :: "nat \<Rightarrow> pstate \<Rightarrow> addr \<Rightarrow> pstate option" where
  "Release fuel s a =
     (case descend fuel (heap s) 0 a of
        None \<Rightarrow> None
      | Some ds \<Rightarrow> Some (s\<lparr>released := released s \<union> set (map fst ds)\<rparr>))"

subsection \<open>The directory-entry cache\<close>

text \<open>
  Modelled from the spec: \<^verbatim>\<open>dEntryCache.Get\<close> is missing; it "returns the current
  entry or nothing".
\<close>

definition Get :: "pstate \<Rightarrow> dKey \<Rightarrow> addr option" where
  "Get s k = index s k"

text \<open>
  Modelled from the spec: \<^verbatim>\<open>AddChild\<close> is missing; with a parent given, Add sets
  "\<^verbatim>\<open>entry.Parent := parent\<close>, \<^verbatim>\<open>entry.Depth := parent.Depth + 1\<close>, and entry is
  inserted into \<^verbatim>\<open>parent.Children\<close> under \<^verbatim>\<open>entry.Name\<close>".
\<close>

definition attach :: "(addr \<Rightarrow> dEntry) \<Rightarrow> addr \<Rightarrow> addr \<Rightarrow> (addr \<Rightarrow> dEntry)" where
  "attach st a p =
     (let st1 = st(a := (st a)\<lparr>Parent := Some p\<rparr>);
          st2 = st1(a := (st1 a)\<lparr>Depth := Depth (st1 p) + 1\<rparr>)
      in st2(p := (st2 p)\<lparr>Children := AList.update (Name (st2 a)) a (Children (st2 p))\<rparr>))"

text \<open>
  Modelled from the spec: \<^verbatim>\<open>dEntryCache.Add\<close> is missing. "If an entry with the
  same DKey already exists, the call is a no-op"; "if parent is nil, entry is installed as
  a root", its name and depth as supplied; otherwise it is attached under the parent.
\<close>

definition Add :: "pstate \<Rightarrow> addr \<Rightarrow> addr option \<Rightarrow> pstate" where
  "Add s a parent =
     (let k = entryKey (heap s a)
      in if index s k \<noteq> None then s
         else (case parent of
                 None \<Rightarrow> s\<lparr>index := (index s)(k \<mapsto> a)\<rparr>
               | Some p \<Rightarrow> s\<lparr>heap := attach (heap s) a p, index := (index s)(k \<mapsto> a)\<rparr>))"

text \<open>
  Modelled from the spec: \<^verbatim>\<open>RemoveChild\<close> is missing; an entry is detached from its
  parent by dropping its name from the parent's name map and clearing its back-reference.
\<close>

definition detach :: "(addr \<Rightarrow> dEntry) \<Rightarrow> addr \<Rightarrow> (addr \<Rightarrow> dEntry)" where
  "detach st a =
     (case Parent (st a) of
        None \<Rightarrow> st
      | Some p \<Rightarrow>
          (let st1 = st(p := (st p)\<lparr>Children := AList.delete (Name (st a)) (Children (st p))\<rparr>)
           in st1(a := (st1 a)\<lparr>Parent := None\<rparr>)))"

text \<open>Modelled from the spec: the eviction of the listed entries "from the DKey index".\<close>

definition evict :: "(addr \<Rightarrow> dEntry) \<Rightarrow> addr list \<Rightarrow> (dKey \<rightharpoonup> addr) \<Rightarrow> (dKey \<rightharpoonup> addr)" where
  "evict st bs m = fold (\<lambda>b m'. m'(entryKey (st b) := None)) bs m"

text \<open>
  Modelled from the spec: \<^verbatim>\<open>dEntryCache.Remove\<close> is missing; it "detaches entry
  from its parent and evicts it and all descendants from the DKey index; invokes
  Release()".
\<close>

definition Remove :: "nat \<Rightarrow> pstate \<Rightarrow> addr \<Rightarrow> pstate option" where
  "Remove fuel s a =
     (let st1 = detach (heap s) a
      in case descend fuel st1 0 a of
           None \<Rightarrow> None
         | Some ds \<Rightarrow>
             Release fuel
               (s\<lparr>heap := st1,
                  index := evict st1 (map fst ds) (index s)\<rparr>) a)"

text \<open>
  Modelled from the spec: \<^verbatim>\<open>dEntryCache.MoveFrom\<close> is missing; it "detaches entry
  from its parent but keeps it reachable through the per-TID staging slot. Any previous
  staged entry for that TID is discarded (released)".
\<close>

definition MoveFrom :: "nat \<Rightarrow> pstate \<Rightarrow> u64 \<Rightarrow> addr \<Rightarrow> pstate option" where
  "MoveFrom fuel s t a =
     (let s1 = s\<lparr>heap := detach (heap s) a\<rparr>
      in case (case moveCache s1 t of None \<Rightarrow> Some s1 | Some y \<Rightarrow> Release fuel s1 y) of
           None \<Rightarrow> None
         | Some s2 \<Rightarrow> Some (s2\<lparr>moveCache := (moveCache s2)(t \<mapsto> a)\<rparr>))"

text \<open>
  Modelled from the spec: the staged entry is renamed "to newName" and re-attached "under
  newParent": its name and back-reference are set, and the new parent's name map points
  to it.
\<close>

definition reattach :: "(addr \<Rightarrow> dEntry) \<Rightarrow> addr \<Rightarrow> string \<Rightarrow> addr \<Rightarrow> (addr \<Rightarrow> dEntry)" where
  "reattach st x newName newParent =
     (let st1 = st(x := (st x)\<lparr>Name := newName\<rparr>);
          st2 = st1(x := (st1 x)\<lparr>Parent := Some newParent\<rparr>)
      in st2(newParent := (st2 newParent)
               \<lparr>Children := AList.update newName x (Children (st2 newParent))\<rparr>))"

text \<open>
  Modelled from the spec: the update of the moved entry's depth and the recursive fix of
  its descendants' depths, from the list the recursion produced.
\<close>

definition fixDepths :: "(addr \<times> u32) list \<Rightarrow> (addr \<Rightarrow> dEntry) \<Rightarrow> (addr \<Rightarrow> dEntry)" where
  "fixDepths ds st = fold (\<lambda>(b, db) st'. st'(b := (st' b)\<lparr>Depth := db\<rparr>)) ds st"

text \<open>
  Modelled from the spec: \<^verbatim>\<open>dEntryCache.MoveTo\<close> is missing. "If the TID has a
  staged entry: rename it to newName, re-attach under newParent, update its Depth to
  newParent.Depth+1, recursively fix descendant depths, invoke emit(newPath), clear the
  staging slot, return moved=true. If no staged entry: return moved=false without side
  effects".
\<close>

definition MoveTo ::
  "eProcessor \<Rightarrow> nat \<Rightarrow> pstate \<Rightarrow> u64 \<Rightarrow> addr \<Rightarrow> string \<Rightarrow>
   (string \<Rightarrow> pstate \<Rightarrow> error option \<times> pstate) \<Rightarrow> ((bool \<times> error option) \<times> pstate) option" where
  "MoveTo ep fuel s t newParent newName emit =
     (case moveCache s t of
        None \<Rightarrow> Some ((False, None), s)
      | Some x \<Rightarrow>
          (let st3 = reattach (heap s) x newName newParent
           in case descend fuel st3 (Depth (st3 newParent) + 1) x of
                None \<Rightarrow> None
              | Some ds \<Rightarrow>
                  (let st4 = fixDepths ds st3
                   in case Path ep fuel st4 x of
                        None \<Rightarrow> None
                      | Some newPath \<Rightarrow>
                          (let (err, s') = emit newPath (s\<lparr>heap := st4\<rparr>)
                           in Some ((True, err), s'\<lparr>moveCache := (moveCache s')(t := None)\<rparr>)))))"

text \<open>
  Modelled from the spec: \<^verbatim>\<open>dEntryCache.MoveClear\<close> is missing; it "discards the
  TID's staged entry if any".
\<close>

definition MoveClear :: "nat \<Rightarrow> pstate \<Rightarrow> u64 \<Rightarrow> pstate option" where
  "MoveClear fuel s t =
     (case moveCache s t of
        None \<Rightarrow> Some s
      | Some y \<Rightarrow> Release fuel (s\<lparr>moveCache := (moveCache s)(t := None)\<rparr>) y)"

subsection \<open>The collaborators\<close>

text \<open>\<^verbatim>\<open>e.e.Emit(path, pid, op)\<close>: the call is logged, the emitter's answer returned.\<close>

definition Emit :: "eProcessor \<Rightarrow> pstate \<Rightarrow> string \<Rightarrow> u32 \<Rightarrow> u32 \<Rightarrow> error option \<times> pstate" where
  "Emit ep s path pid op =
     (Emitter ep (emitted s) (path, pid, op), s\<lparr>emitted := emitted s @ [(path, pid, op)]\<rparr>)"

text \<open>\<^verbatim>\<open>e.p.WalkAsync(path, depth, tid)\<close>: the call is logged.\<close>

definition WalkAsync :: "pstate \<Rightarrow> string \<Rightarrow> u32 \<Rightarrow> u32 \<Rightarrow> pstate" where
  "WalkAsync s path d t = s\<lparr>walks := walks s @ [(path, d, t)]\<rparr>"

text \<open>\<^verbatim>\<open>releaseProbeEvent(pe)\<close>: the event goes back to the pool.\<close>

definition releaseProbeEvent :: "ProbeEvent \<Rightarrow> pstate \<Rightarrow> pstate" where
  "releaseProbeEvent pe s = s\<lparr>pool := pool s @ [pe]\<rparr>"

subsection \<open>The processor\<close>

text \<open>The \<^verbatim>\<open>switch\<close> of \<^verbatim>\<open>process\<close>: the first case whose mask is 1.\<close>

datatype branch =
  BMonitor | BCreate | BModify | BAttrib | BMoveFrom | BMoveTo | BDelete | BDefault

definition maskBranch :: "ProbeEvent \<Rightarrow> branch" where
  "maskBranch pe =
     (if MaskMonitor pe = 1 then BMonitor
      else if MaskCreate pe = 1 then BCreate
      else if MaskModify pe = 1 then BModify
      else if MaskAttrib pe = 1 then BAttrib
      else if MaskMoveFrom pe = 1 then BMoveFrom
      else if MaskMoveTo pe = 1 then BMoveTo
      else if MaskDelete pe = 1 then BDelete
      else BDefault)"

text \<open>
  Each case of the switch returns the error of \<^verbatim>\<open>process\<close> and the new state, or
  \<open>None\<close> when a walk or a recursion of the cache ran out of fuel.
\<close>

definition process_Monitor ::
  "eProcessor \<Rightarrow> nat \<Rightarrow> pstate \<Rightarrow> ProbeEvent \<Rightarrow> (error option \<times> pstate) option" where
  "process_Monitor ep fuel s pe =
     (let (monitorPath, match) =
            GetMonitorPath ep (FileIno pe) (FileDevMajor pe) (FileDevMinor pe) (FileName pe)
      in if \<not> match then Some (None, s)
         else
           (let entry = Get s (fileKey pe);
                parentEntry = Get s (parentKey pe);
                (a, s1) =
                  (case parentEntry of
                     None \<Rightarrow>
                       newEntry s \<lparr>Name = fullPath monitorPath, Ino = FileIno pe,
                         DevMajor = FileDevMajor pe, DevMinor = FileDevMinor pe,
                         Depth = depth monitorPath, Parent = None, Children = []\<rparr>
                   | Some p \<Rightarrow>
                       (case entry of
                          None \<Rightarrow>
                            newEntry s \<lparr>Name = FileName pe, Ino = FileIno pe,
                              DevMajor = FileDevMajor pe, DevMinor = FileDevMinor pe,
                              Depth = Depth (heap s p) + 1, Parent = None, Children = []\<rparr>
                        | Some a0 \<Rightarrow> (a0, s)));
                s2 = Add s1 a parentEntry
            in if \<not> isFromMove monitorPath then Some (None, s2)
               else (case Path ep fuel (heap s2) a of
                       None \<Rightarrow> None
                     | Some path \<Rightarrow> Some (Emit ep s2 path (tid monitorPath) IN_MOVED_TO))))"

definition process_Create ::
  "eProcessor \<Rightarrow> nat \<Rightarrow> pstate \<Rightarrow> ProbeEvent \<Rightarrow> (error option \<times> pstate) option" where
  "process_Create ep fuel s pe =
     (case Get s (parentKey pe) of
        None \<Rightarrow> Some (None, s)
      | Some p \<Rightarrow>
          if 1 \<le> Depth (heap s p) \<and> \<not> isRecursive ep then Some (None, s)
          else
            (let (a, s1) =
                   newEntry s \<lparr>Name = FileName pe, Ino = FileIno pe,
                     DevMajor = FileDevMajor pe, DevMinor = FileDevMinor pe,
                     Depth = 0, Parent = None, Children = []\<rparr>;
                 s2 = Add s1 a (Some p)
             in case Path ep fuel (heap s2) a of
                  None \<Rightarrow> None
                | Some path \<Rightarrow> Some (Emit ep s2 path (Meta_TID pe) IN_CREATE)))"

definition process_Modify ::
  "eProcessor \<Rightarrow> nat \<Rightarrow> pstate \<Rightarrow> ProbeEvent \<Rightarrow> (error option \<times> pstate) option" where
  "process_Modify ep fuel s pe =
     (case Get s (fileKey pe) of
        None \<Rightarrow> Some (None, s)
      | Some a \<Rightarrow>
          (case Path ep fuel (heap s) a of
             None \<Rightarrow> None
           | Some path \<Rightarrow> Some (Emit ep s path (Meta_TID pe) IN_MODIFY)))"

definition process_Attrib ::
  "eProcessor \<Rightarrow> nat \<Rightarrow> pstate \<Rightarrow> ProbeEvent \<Rightarrow> (error option \<times> pstate) option" where
  "process_Attrib ep fuel s pe =
     (case Get s (fileKey pe) of
        None \<Rightarrow> Some (None, s)
      | Some a \<Rightarrow>
          (case Path ep fuel (heap s) a of
             None \<Rightarrow> None
           | Some path \<Rightarrow> Some (Emit ep s path (Meta_TID pe) IN_ATTRIB)))"

definition process_MoveFrom ::
  "eProcessor \<Rightarrow> nat \<Rightarrow> pstate \<Rightarrow> ProbeEvent \<Rightarrow> (error option \<times> pstate) option" where
  "process_MoveFrom ep fuel s pe =
     (let clear = map_option (Pair None) (MoveClear fuel s (ucast (Meta_TID pe)))
      in case Get s (parentKey pe) of
           None \<Rightarrow> clear
         | Some p \<Rightarrow>
             if 1 \<le> Depth (heap s p) \<and> \<not> isRecursive ep then clear
             else
               (case GetChild (heap s) p (FileName pe) of
                  None \<Rightarrow> Some (None, s)
                | Some x \<Rightarrow>
                    (case Path ep fuel (heap s) x of
                       None \<Rightarrow> None
                     | Some entryPath \<Rightarrow>
                         (case MoveFrom fuel s (ucast (Meta_TID pe)) x of
                            None \<Rightarrow> None
                          | Some s1 \<Rightarrow>
                              Some (Emit ep s1 entryPath (Meta_TID pe) IN_MOVED_FROM)))))"

definition process_MoveTo ::
  "eProcessor \<Rightarrow> nat \<Rightarrow> pstate \<Rightarrow> ProbeEvent \<Rightarrow> (error option \<times> pstate) option" where
  "process_MoveTo ep fuel s pe =
     (let clear = map_option (Pair None) (MoveClear fuel s (ucast (Meta_TID pe)))
      in case Get s (parentKey pe) of
           None \<Rightarrow> clear
         | Some p \<Rightarrow>
             if 1 \<le> Depth (heap s p) \<and> \<not> isRecursive ep then clear
             else
               (case MoveTo ep fuel s (ucast (Meta_TID pe)) p (FileName pe)
                       (\<lambda>path s'. Emit ep s' path (Meta_TID pe) IN_MOVED_TO) of
                  None \<Rightarrow> None
                | Some ((moved, err), s1) \<Rightarrow>
                    (case err of
                       Some e \<Rightarrow> Some (Some e, s1)
                     | None \<Rightarrow>
                         if moved then Some (None, s1)
                         else
                           (case Path ep fuel (heap s1) p of
                              None \<Rightarrow> None
                            | Some parentPath \<Rightarrow>
                                Some (None,
                                  WalkAsync s1 (pathJoin ep [parentPath, FileName pe])
                                    (Depth (heap s1 p) + 1) (Meta_TID pe))))))"

definition process_Delete ::
  "eProcessor \<Rightarrow> nat \<Rightarrow> pstate \<Rightarrow> ProbeEvent \<Rightarrow> (error option \<times> pstate) option" where
  "process_Delete ep fuel s pe =
     (case Get s (parentKey pe) of
        None \<Rightarrow> Some (None, s)
      | Some p \<Rightarrow>
          if 1 \<le> Depth (heap s p) \<and> \<not> isRecursive ep then Some (None, s)
          else
            (case GetChild (heap s) p (FileName pe) of
               None \<Rightarrow> Some (None, s)
             | Some x \<Rightarrow>
                 (case Path ep fuel (heap s) x of
                    None \<Rightarrow> None
                  | Some entryPath \<Rightarrow>
                      (case Remove fuel s x of
                         None \<Rightarrow> None
                       | Some s1 \<Rightarrow>
                           (let (err, s2) = Emit ep s1 entryPath (Meta_TID pe) IN_DELETE
                            in case err of
                                 Some e \<Rightarrow> Some (Some e, s2)
                               | None \<Rightarrow> map_option (Pair None) (Release fuel s2 x))))))"

text \<open>
  \<^verbatim>\<open>process\<close>: the switch, and the deferred \<^verbatim>\<open>releaseProbeEvent(pe)\<close>, which
  runs when the function returns, whatever the case returned.
\<close>

definition process ::
  "eProcessor \<Rightarrow> nat \<Rightarrow> pstate \<Rightarrow> ProbeEvent \<Rightarrow> (error option \<times> pstate) option" where
  "process ep fuel s pe =
     map_option (\<lambda>(err, s'). (err, releaseProbeEvent pe s'))
       (case maskBranch pe of
          BMonitor \<Rightarrow> process_Monitor ep fuel s pe
        | BCreate \<Rightarrow> process_Create ep fuel s pe
        | BModify \<Rightarrow> process_Modify ep fuel s pe
        | BAttrib \<Rightarrow> process_Attrib ep fuel s pe
        | BMoveFrom \<Rightarrow> process_MoveFrom ep fuel s pe
        | BMoveTo \<Rightarrow> process_MoveTo ep fuel s pe
        | BDelete \<Rightarrow> process_Delete ep fuel s pe
        | BDefault \<Rightarrow> Some (Some UnknownEventType, s))"

subsection \<open>Finite walks and an example cache\<close>

text \<open>The entry and its descendants, as the recursion visits them (empty when it does not end).\<close>

definition subtree :: "nat \<Rightarrow> (addr \<Rightarrow> dEntry) \<Rightarrow> addr \<Rightarrow> addr set" where
  "subtree fuel st a = (case descend fuel st 0 a of None \<Rightarrow> {} | Some ds \<Rightarrow> set (map fst ds))"

text \<open>The entry and the entries above it, as the walk visits them (empty when it does not end).\<close>

definition ancestors :: "nat \<Rightarrow> (addr \<Rightarrow> dEntry) \<Rightarrow> addr \<Rightarrow> addr set" where
  "ancestors fuel st a = (case chain fuel st a of None \<Rightarrow> {} | Some as \<Rightarrow> set as)"

text \<open>
  A stand-in for \<^verbatim>\<open>filepath.Join\<close> in the examples: the non-empty elements, separated
  by a slash. It agrees with the library function on the clean names used below.
\<close>

definition slashJoin :: "string list \<Rightarrow> string" where
  "slashJoin xs =
     foldr (\<lambda>x acc. if acc = [] then x else x @ ''/'' @ acc) (filter (\<lambda>x. x \<noteq> []) xs) []"

text \<open>
  The cache of the spec's scenarios: the monitored root \<^verbatim>\<open>/m\<close> (inode 1) with the file
  \<^verbatim>\<open>a\<close> (inode 2) and the directory \<^verbatim>\<open>sub\<close> (inode 3), which holds \<^verbatim>\<open>x\<close>
  (inode 4).
\<close>

definition ex_heap :: "addr \<Rightarrow> dEntry" where
  "ex_heap =
     (\<lambda>_. \<lparr>Name = [], Ino = 0, DevMajor = 0, DevMinor = 0, Depth = 0, Parent = None,
           Children = []\<rparr>)
     (0 := \<lparr>Name = ''/m'', Ino = 1, DevMajor = 0, DevMinor = 0, Depth = 0, Parent = None,
            Children = [(''a'', 1), (''sub'', 2)]\<rparr>,
      1 := \<lparr>Name = ''a'', Ino = 2, DevMajor = 0, DevMinor = 0, Depth = 1, Parent = Some 0,
            Children = []\<rparr>,
      2 := \<lparr>Name = ''sub'', Ino = 3, DevMajor = 0, DevMinor = 0, Depth = 1, Parent = Some 0,
            Children = [(''x'', 3)]\<rparr>,
      3 := \<lparr>Name = ''x'', Ino = 4, DevMajor = 0, DevMinor = 0, Depth = 2, Parent = Some 2,
            Children = []\<rparr>)"

definition ex_state :: pstate where
  "ex_state =
     \<lparr>heap = ex_heap, nextAddr = 4,
      index = [DKey 1 0 0 \<mapsto> 0, DKey 2 0 0 \<mapsto> 1, DKey 3 0 0 \<mapsto> 2, DKey 4 0 0 \<mapsto> 3],
      moveCache = Map.empty, released = {}, emitted = [], walks = [], pool = []\<rparr>"

text \<open>The same cache with \<^verbatim>\<open>a\<close> detached and staged for the TID 7.\<close>

definition ex_staged :: pstate where
  "ex_staged = ex_state\<lparr>heap := detach ex_heap 1, moveCache := [7 \<mapsto> 1]\<rparr>"

text \<open>
  A processor whose traverser acknowledges every monitor record as \<^verbatim>\<open>/n\<close> at depth 2,
  found by the walk that follows a move of the TID 9, and whose emitter accepts (\<open>ex_proc\<close>)
  or rejects (\<open>ex_proc_failing\<close>) every event.
\<close>

definition ex_proc :: "bool \<Rightarrow> eProcessor" where
  "ex_proc r =
     \<lparr>GetMonitorPath =
        (\<lambda>ino maj mnr name. (\<lparr>fullPath = ''/n'', depth = 2, isFromMove = True, tid = 9\<rparr>, True)),
      Emitter = (\<lambda>log em. None), isRecursive = r, pathJoin = slashJoin\<rparr>"

definition ex_proc_failing :: "bool \<Rightarrow> eProcessor" where
  "ex_proc_failing r = (ex_proc r)\<lparr>Emitter := (\<lambda>log em. Some (EmitFailure ''sink down''))\<rparr>"

definition blankEvent :: ProbeEvent where
  "blankEvent =
     \<lparr>Meta_TID = 0, MaskMonitor = 0, MaskCreate = 0, MaskModify = 0, MaskAttrib = 0,
      MaskMoveFrom = 0, MaskMoveTo = 0, MaskDelete = 0, FileName = [], FileIno = 0,
      FileDevMajor = 0, FileDevMinor = 0, ParentIno = 0, ParentDevMajor = 0,
      ParentDevMinor = 0\<rparr>"

definition ev_create_deep :: ProbeEvent where
  "ev_create_deep = blankEvent\<lparr>MaskCreate := 1, ParentIno := 3, FileIno := 9, FileName := ''y''\<rparr>"

definition ev_delete_deep :: ProbeEvent where
  "ev_delete_deep = blankEvent\<lparr>MaskDelete := 1, ParentIno := 3, FileName := ''x''\<rparr>"

definition ev_moveTo_deep :: ProbeEvent where
  "ev_moveTo_deep = blankEvent\<lparr>MaskMoveTo := 1, Meta_TID := 7, ParentIno := 3, FileName := ''z''\<rparr>"

definition ev_modify_a :: ProbeEvent where
  "ev_modify_a = blankEvent\<lparr>MaskModify := 1, Meta_TID := 7, FileIno := 2\<rparr>"

definition ev_moveFrom_missing :: ProbeEvent where
  "ev_moveFrom_missing =
     blankEvent\<lparr>MaskMoveFrom := 1, Meta_TID := 7, ParentIno := 1, FileName := ''zz''\<rparr>"

definition ev_moveFrom_outside :: ProbeEvent where
  "ev_moveFrom_outside =
     blankEvent\<lparr>MaskMoveFrom := 1, Meta_TID := 7, ParentIno := 77, FileName := ''q''\<rparr>"

definition ev_moveTo_c :: ProbeEvent where
  "ev_moveTo_c = blankEvent\<lparr>MaskMoveTo := 1, Meta_TID := 9, ParentIno := 1, FileName := ''c''\<rparr>"

definition ev_moveFrom_a :: ProbeEvent where
  "ev_moveFrom_a =
     blankEvent\<lparr>MaskMoveFrom := 1, Meta_TID := 7, ParentIno := 1, FileIno := 2, FileName := ''a''\<rparr>"

definition ev_moveTo_b :: ProbeEvent where
  "ev_moveTo_b = blankEvent\<lparr>MaskMoveTo := 1, Meta_TID := 7, ParentIno := 1, FileName := ''b''\<rparr>"

definition ev_delete_sub :: ProbeEvent where
  "ev_delete_sub = blankEvent\<lparr>MaskDelete := 1, Meta_TID := 7, ParentIno := 1, FileName := ''sub''\<rparr>"

definition ev_create_y :: ProbeEvent where
  "ev_create_y =
     blankEvent\<lparr>MaskCreate := 1, Meta_TID := 7, ParentIno := 1, FileIno := 9, FileName := ''y''\<rparr>"

text \<open>The cache of a new processor, and states reached in the examples.\<close>

definition ex_empty :: pstate where
  "ex_empty =
     \<lparr>heap = (\<lambda>_. \<lparr>Name = [], Ino = 0, DevMajor = 0, DevMinor = 0, Depth = 0, Parent = None,
                     Children = []\<rparr>),
      nextAddr = 0, index = Map.empty, moveCache = Map.empty, released = {}, emitted = [],
      walks = [], pool = []\<rparr>"

definition ev_monitor_n :: ProbeEvent where
  "ev_monitor_n = blankEvent\<lparr>MaskMonitor := 1, FileIno := 50, ParentIno := 60, FileName := ''n''\<rparr>"

definition ex_after_monitor :: pstate where
  "ex_after_monitor =
     ex_empty\<lparr>heap := (heap ex_empty)
                  (0 := \<lparr>Name = ''/n'', Ino = 50, DevMajor = 0, DevMinor = 0, Depth = 2,
                         Parent = None, Children = []\<rparr>),
               nextAddr := 1, index := [DKey 50 0 0 \<mapsto> 0],
               emitted := [(''/n'', 9, IN_MOVED_TO)], pool := [ev_monitor_n]\<rparr>"

definition ex_after_create :: pstate where
  "ex_after_create =
     ex_state\<lparr>heap := attach (ex_heap
                  (4 := \<lparr>Name = ''y'', Ino = 9, DevMajor = 0, DevMinor = 0, Depth = 0,
                         Parent = None, Children = []\<rparr>)) 4 0,
               nextAddr := 5, index := (index ex_state)(DKey 9 0 0 \<mapsto> 4),
               emitted := [(''/m/y'', 7, IN_CREATE)], pool := [ev_create_y]\<rparr>"

definition ev_monitor_a :: ProbeEvent where
  "ev_monitor_a = blankEvent\<lparr>MaskMonitor := 1, FileIno := 2, ParentIno := 1, FileName := ''a''\<rparr>"

definition ev_monitor_root :: ProbeEvent where
  "ev_monitor_root = blankEvent\<lparr>MaskMonitor := 1, FileIno := 1, ParentIno := 60, FileName := ''m''\<rparr>"

text \<open>
  Further events on the example cache: an attribute change of \<^verbatim>\<open>x\<close>, a monitor record
  for a new object \<^verbatim>\<open>w\<close> under \<^verbatim>\<open>sub\<close>, a Create that reports the inode of
  \<^verbatim>\<open>a\<close> again, and a Create under a directory that is not cached; and the state after
  the monitor record for the cached root.
\<close>

definition ev_attrib_x :: ProbeEvent where
  "ev_attrib_x = blankEvent\<lparr>MaskAttrib := 1, Meta_TID := 7, FileIno := 4\<rparr>"

definition ev_monitor_w :: ProbeEvent where
  "ev_monitor_w = blankEvent\<lparr>MaskMonitor := 1, FileIno := 10, ParentIno := 3, FileName := ''w''\<rparr>"

definition ev_create_dup :: ProbeEvent where
  "ev_create_dup =
     blankEvent\<lparr>MaskCreate := 1, Meta_TID := 7, ParentIno := 1, FileIno := 2, FileName := ''a2''\<rparr>"

definition ev_create_outside :: ProbeEvent where
  "ev_create_outside = blankEvent\<lparr>MaskCreate := 1, ParentIno := 77, FileName := ''q''\<rparr>"

definition ex_after_remonitor :: pstate where
  "ex_after_remonitor =
     ex_state\<lparr>heap := ex_heap
                  (4 := \<lparr>Name = ''/n'', Ino = 1, DevMajor = 0, DevMinor = 0, Depth = 2,
                         Parent = None, Children = []\<rparr>),
               nextAddr := 5,
               emitted := [(''/n'', 9, IN_MOVED_TO)], pool := [ev_monitor_root]\<rparr>"

section \<open>Properties\<close>

subsection \<open>The probe-event pool\<close>

lemma Release_pool: "Release fuel s a = Some s' \<Longrightarrow> pool s' = pool s"
  by (auto simp: Release_def split: option.splits)

lemma Add_pool: "pool (Add s a parent) = pool s"
  by (simp add: Add_def Let_def split: option.splits)

lemma Remove_pool: "Remove fuel s a = Some s' \<Longrightarrow> pool s' = pool s"
  by (auto simp: Remove_def Let_def split: option.splits dest!: Release_pool)

lemma MoveClear_pool: "MoveClear fuel s t = Some s' \<Longrightarrow> pool s' = pool s"
  by (auto simp: MoveClear_def split: option.splits dest!: Release_pool)

lemma MoveFrom_pool: "MoveFrom fuel s t a = Some s' \<Longrightarrow> pool s' = pool s"
  by (auto simp: MoveFrom_def Let_def split: option.splits dest!: Release_pool)

lemma MoveTo_pool:
  "MoveTo ep fuel s t p n (\<lambda>path s'. Emit ep s' path pid op) = Some (r, s') \<Longrightarrow> pool s' = pool s"
  by (auto simp: MoveTo_def Let_def Emit_def split: option.splits)

lemma process_Monitor_pool: "process_Monitor ep fuel s pe = Some (r, s') \<Longrightarrow> pool s' = pool s"
  by (auto simp: process_Monitor_def Let_def newEntry_def Add_pool Emit_def
      split: prod.splits if_splits option.splits)

lemma process_Create_pool: "process_Create ep fuel s pe = Some (r, s') \<Longrightarrow> pool s' = pool s"
  by (auto simp: process_Create_def Let_def newEntry_def Add_pool Emit_def
      split: prod.splits if_splits option.splits)

lemma process_Modify_pool: "process_Modify ep fuel s pe = Some (r, s') \<Longrightarrow> pool s' = pool s"
  by (auto simp: process_Modify_def Emit_def split: option.splits)

lemma process_Attrib_pool: "process_Attrib ep fuel s pe = Some (r, s') \<Longrightarrow> pool s' = pool s"
  by (auto simp: process_Attrib_def Emit_def split: option.splits)

lemma process_MoveFrom_pool: "process_MoveFrom ep fuel s pe = Some (r, s') \<Longrightarrow> pool s' = pool s"
  by (auto simp: process_MoveFrom_def Let_def Emit_def
      split: if_splits option.splits dest!: MoveClear_pool MoveFrom_pool)

lemma process_MoveTo_pool: "process_MoveTo ep fuel s pe = Some (r, s') \<Longrightarrow> pool s' = pool s"
  by (auto simp: process_MoveTo_def Let_def WalkAsync_def
      split: if_splits option.splits prod.splits dest!: MoveClear_pool MoveTo_pool)

lemma process_Delete_pool: "process_Delete ep fuel s pe = Some (r, s') \<Longrightarrow> pool s' = pool s"
  by (auto simp: process_Delete_def Let_def Emit_def
      split: if_splits option.splits prod.splits dest!: Remove_pool Release_pool)

subsection \<open>Events that change nothing\<close>

text \<open>
  C4: an event none of whose seven masks is 1 makes \<^verbatim>\<open>process\<close> return the
  unknown-event-type error; the heap, the cache and the logs of emissions and walks are
  as before, and the event has gone back to the pool.
\<close>

theorem unknown_mask_error:
  assumes "MaskMonitor pe \<noteq> 1" "MaskCreate pe \<noteq> 1" "MaskModify pe \<noteq> 1" "MaskAttrib pe \<noteq> 1"
    "MaskMoveFrom pe \<noteq> 1" "MaskMoveTo pe \<noteq> 1" "MaskDelete pe \<noteq> 1"
  shows "process ep fuel s pe = Some (Some UnknownEventType, s\<lparr>pool := pool s @ [pe]\<rparr>)"
  using assms by (simp add: process_def maskBranch_def releaseProbeEvent_def)

theorem unknown_mask_error_witness:
  "MaskMonitor blankEvent \<noteq> 1 \<and> MaskCreate blankEvent \<noteq> 1 \<and> MaskModify blankEvent \<noteq> 1 \<and>
   MaskAttrib blankEvent \<noteq> 1 \<and> MaskMoveFrom blankEvent \<noteq> 1 \<and> MaskMoveTo blankEvent \<noteq> 1 \<and>
   MaskDelete blankEvent \<noteq> 1 \<and>
   process (ex_proc True) 0 ex_state blankEvent =
     Some (Some UnknownEventType, ex_state\<lparr>pool := pool ex_state @ [blankEvent]\<rparr>)"
  using unknown_mask_error [of blankEvent "ex_proc True" 0 ex_state]
  by (simp add: blankEvent_def)

text \<open>
  C10: a MoveFrom event whose parent is cached and passes the recursion gate, but has no
  child of the event's name, returns nil and changes nothing but the pool; the staging
  slot of the event's TID holds what it held before.
\<close>

theorem moveFrom_missing_child_keeps_slot:
  assumes "maskBranch pe = BMoveFrom"
    and "index s (parentKey pe) = Some p"
    and "\<not> (1 \<le> Depth (heap s p) \<and> \<not> isRecursive ep)"
    and "GetChild (heap s) p (FileName pe) = None"
  shows "process ep fuel s pe = Some (None, s\<lparr>pool := pool s @ [pe]\<rparr>) \<and>
         moveCache (s\<lparr>pool := pool s @ [pe]\<rparr>) (ucast (Meta_TID pe)) =
           moveCache s (ucast (Meta_TID pe))"
  using assms
  by (auto simp: process_def process_MoveFrom_def Get_def releaseProbeEvent_def)

theorem moveFrom_missing_child_keeps_slot_witness:
  "maskBranch ev_moveFrom_missing = BMoveFrom \<and>
   index ex_staged (parentKey ev_moveFrom_missing) = Some 0 \<and>
   \<not> (1 \<le> Depth (heap ex_staged 0) \<and> \<not> isRecursive (ex_proc False)) \<and>
   GetChild (heap ex_staged) 0 (FileName ev_moveFrom_missing) = None \<and>
   process (ex_proc False) 0 ex_staged ev_moveFrom_missing =
     Some (None, ex_staged\<lparr>pool := pool ex_staged @ [ev_moveFrom_missing]\<rparr>) \<and>
   moveCache (ex_staged\<lparr>pool := pool ex_staged @ [ev_moveFrom_missing]\<rparr>)
     (ucast (Meta_TID ev_moveFrom_missing)) = Some 1"
proof -
  have h1: "maskBranch ev_moveFrom_missing = BMoveFrom"
    by (simp add: maskBranch_def ev_moveFrom_missing_def blankEvent_def)
  have h2: "index ex_staged (parentKey ev_moveFrom_missing) = Some 0"
    by (simp add: ex_staged_def ex_state_def parentKey_def ev_moveFrom_missing_def
        blankEvent_def)
  have h3: "\<not> (1 \<le> Depth (heap ex_staged 0) \<and> \<not> isRecursive (ex_proc False))"
    by (simp add: ex_staged_def ex_state_def ex_heap_def detach_def)
  have h4: "GetChild (heap ex_staged) 0 (FileName ev_moveFrom_missing) = None"
    by (simp add: GetChild_def ex_staged_def ex_state_def ex_heap_def detach_def
        ev_moveFrom_missing_def blankEvent_def)
  have h5: "moveCache ex_staged (ucast (Meta_TID ev_moveFrom_missing)) = Some 1"
    by (simp add: ex_staged_def ev_moveFrom_missing_def blankEvent_def)
  from moveFrom_missing_child_keeps_slot [OF h1 h2 h3 h4] h1 h2 h3 h4 h5 show ?thesis
    by simp
qed

subsection \<open>Moves outside the monitored subtrees, and arrivals\<close>

text \<open>
  C6: a MoveFrom or MoveTo event whose parent is not cached, or is cached at depth 1 or
  deeper while recursion is disabled, returns nil; the staging slot of the event's TID is
  empty afterwards, an entry that was staged there (with its descendants) is marked
  unreferenced, nothing is emitted, no walk is scheduled, and the heap, the index and the
  other staging slots are as before. The recursion of the release over a staged entry is
  taken to end within the fuel.
\<close>

theorem ineligible_move_clears_slot:
  assumes "maskBranch pe = BMoveFrom \<or> maskBranch pe = BMoveTo"
    and "index s (parentKey pe) = None \<or>
         (\<exists>p. index s (parentKey pe) = Some p \<and> 1 \<le> Depth (heap s p) \<and> \<not> isRecursive ep)"
    and "\<forall>y. moveCache s (ucast (Meta_TID pe)) = Some y \<longrightarrow> descend fuel (heap s) 0 y \<noteq> None"
  shows "process ep fuel s pe =
           Some (None, s\<lparr>moveCache := (moveCache s)(ucast (Meta_TID pe) := None),
                         released := released s \<union>
                           (case moveCache s (ucast (Meta_TID pe)) of
                              None \<Rightarrow> {} | Some y \<Rightarrow> subtree fuel (heap s) y),
                         pool := pool s @ [pe]\<rparr>)"
proof -
  let ?t = "ucast (Meta_TID pe) :: u64"
  have clear: "MoveClear fuel s ?t =
      Some (s\<lparr>moveCache := (moveCache s)(?t := None),
              released := released s \<union>
                (case moveCache s ?t of None \<Rightarrow> {} | Some y \<Rightarrow> subtree fuel (heap s) y)\<rparr>)"
  proof (cases "moveCache s ?t")
    case None
    then have "(moveCache s)(?t := None) = moveCache s" by (simp add: fun_upd_idem)
    with None show ?thesis by (simp add: MoveClear_def)
  next
    case (Some y)
    with assms(3) obtain ds where "descend fuel (heap s) 0 y = Some ds" by auto
    with Some show ?thesis by (simp add: MoveClear_def Release_def subtree_def)
  qed
  from assms(1,2) clear show ?thesis
    by (auto simp: process_def process_MoveFrom_def process_MoveTo_def Get_def
        releaseProbeEvent_def)
qed

theorem ineligible_move_clears_slot_witness:
  "((maskBranch ev_moveFrom_outside = BMoveFrom \<or> maskBranch ev_moveFrom_outside = BMoveTo) \<and>
    index ex_staged (parentKey ev_moveFrom_outside) = None \<and>
    moveCache ex_staged (ucast (Meta_TID ev_moveFrom_outside)) = Some 1 \<and>
    descend 0 (heap ex_staged) 0 1 = Some [(1, 0)] \<and>
    process (ex_proc True) 0 ex_staged ev_moveFrom_outside =
      Some (None, ex_staged\<lparr>moveCache := Map.empty, released := {1},
                            pool := [ev_moveFrom_outside]\<rparr>)) \<and>
   ((maskBranch ev_moveTo_deep = BMoveFrom \<or> maskBranch ev_moveTo_deep = BMoveTo) \<and>
    index ex_staged (parentKey ev_moveTo_deep) = Some 2 \<and>
    1 \<le> Depth (heap ex_staged 2) \<and> \<not> isRecursive (ex_proc False) \<and>
    moveCache ex_staged (ucast (Meta_TID ev_moveTo_deep)) = Some 1 \<and>
    process (ex_proc False) 0 ex_staged ev_moveTo_deep =
      Some (None, ex_staged\<lparr>moveCache := Map.empty, released := {1},
                            pool := [ev_moveTo_deep]\<rparr>))"
proof -
  have h1: "maskBranch ev_moveFrom_outside = BMoveFrom \<or> maskBranch ev_moveFrom_outside = BMoveTo"
    by (simp add: maskBranch_def ev_moveFrom_outside_def blankEvent_def)
  have h2: "index ex_staged (parentKey ev_moveFrom_outside) = None"
    by (simp add: ex_staged_def ex_state_def parentKey_def ev_moveFrom_outside_def
        blankEvent_def)
  have h3: "moveCache ex_staged (ucast (Meta_TID ev_moveFrom_outside)) = Some 1"
    by (simp add: ex_staged_def ev_moveFrom_outside_def blankEvent_def)
  have h4: "descend 0 (heap ex_staged) 0 1 = Some [(1, 0)]"
    by (simp add: ex_staged_def ex_state_def ex_heap_def detach_def)
  have h5: "\<forall>y. moveCache ex_staged (ucast (Meta_TID ev_moveFrom_outside)) = Some y \<longrightarrow>
              descend 0 (heap ex_staged) 0 y \<noteq> None"
    using h3 h4 by simp
  have h6: "(moveCache ex_staged)(ucast (Meta_TID ev_moveFrom_outside) := None) = Map.empty"
    by (simp add: ex_staged_def ev_moveFrom_outside_def blankEvent_def)
  have h7: "released ex_staged = {} \<and> pool ex_staged = []"
    by (simp add: ex_staged_def ex_state_def)
  from ineligible_move_clears_slot [OF h1 disjI1 [OF h2] h5] h3 h4 h6 h7
  have first: "process (ex_proc True) 0 ex_staged ev_moveFrom_outside =
      Some (None, ex_staged\<lparr>moveCache := Map.empty, released := {1},
                            pool := [ev_moveFrom_outside]\<rparr>)"
    by (simp add: subtree_def)
  have g1: "maskBranch ev_moveTo_deep = BMoveFrom \<or> maskBranch ev_moveTo_deep = BMoveTo"
    by (simp add: maskBranch_def ev_moveTo_deep_def blankEvent_def)
  have g2: "index ex_staged (parentKey ev_moveTo_deep) = Some 2"
    by (simp add: ex_staged_def ex_state_def parentKey_def ev_moveTo_deep_def blankEvent_def)
  have g3: "1 \<le> Depth (heap ex_staged 2)" "\<not> isRecursive (ex_proc False)"
    by (simp_all add: ex_staged_def ex_state_def ex_heap_def detach_def ex_proc_def)
  have g4: "moveCache ex_staged (ucast (Meta_TID ev_moveTo_deep)) = Some 1"
    by (simp add: ex_staged_def ev_moveTo_deep_def blankEvent_def)
  have g5: "\<forall>y. moveCache ex_staged (ucast (Meta_TID ev_moveTo_deep)) = Some y \<longrightarrow>
              descend 0 (heap ex_staged) 0 y \<noteq> None"
    using g4 h4 by simp
  have g6: "(moveCache ex_staged)(ucast (Meta_TID ev_moveTo_deep) := None) = Map.empty"
    by (simp add: ex_staged_def ev_moveTo_deep_def blankEvent_def)
  from g2 g3 have g7: "index ex_staged (parentKey ev_moveTo_deep) = None \<or>
      (\<exists>p. index ex_staged (parentKey ev_moveTo_deep) = Some p \<and>
           1 \<le> Depth (heap ex_staged p) \<and> \<not> isRecursive (ex_proc False))"
    by blast
  from ineligible_move_clears_slot [OF g1 g7 g5] g4 h4 g6 h7
  have second: "process (ex_proc False) 0 ex_staged ev_moveTo_deep =
      Some (None, ex_staged\<lparr>moveCache := Map.empty, released := {1},
                            pool := [ev_moveTo_deep]\<rparr>)"
    by (simp add: subtree_def)
  from first second h1 h2 h3 h4 g1 g2 g3 g4 show ?thesis by blast
qed

text \<open>
  C5: a MoveTo event whose destination parent is cached and passes the recursion gate,
  while no entry is staged for the event's TID, emits nothing and calls
  \<^verbatim>\<open>WalkAsync\<close> once, with the join of the parent's path and the event's name, the
  parent's depth plus one and the event's TID; the cache is unchanged. The walk up from the
  parent is taken to end within the fuel.
\<close>

theorem moveTo_unstaged_schedules_walk:
  assumes "maskBranch pe = BMoveTo"
    and "index s (parentKey pe) = Some p"
    and "\<not> (1 \<le> Depth (heap s p) \<and> \<not> isRecursive ep)"
    and "moveCache s (ucast (Meta_TID pe)) = None"
    and "Path ep fuel (heap s) p = Some parentPath"
  shows "process ep fuel s pe =
           Some (None, s\<lparr>walks := walks s @
                           [(pathJoin ep [parentPath, FileName pe], Depth (heap s p) + 1,
                             Meta_TID pe)],
                         pool := pool s @ [pe]\<rparr>)"
  using assms
  by (auto simp: process_def process_MoveTo_def Get_def MoveTo_def WalkAsync_def
      releaseProbeEvent_def)

theorem moveTo_unstaged_schedules_walk_witness:
  "maskBranch ev_moveTo_c = BMoveTo \<and>
   index ex_state (parentKey ev_moveTo_c) = Some 0 \<and>
   \<not> (1 \<le> Depth (heap ex_state 0) \<and> \<not> isRecursive (ex_proc False)) \<and>
   moveCache ex_state (ucast (Meta_TID ev_moveTo_c)) = None \<and>
   Path (ex_proc False) 0 (heap ex_state) 0 = Some ''/m'' \<and>
   process (ex_proc False) 0 ex_state ev_moveTo_c =
     Some (None, ex_state\<lparr>walks := [(''/m/c'', 1, 9)], pool := [ev_moveTo_c]\<rparr>)"
proof -
  have h1: "maskBranch ev_moveTo_c = BMoveTo"
    by (simp add: maskBranch_def ev_moveTo_c_def blankEvent_def)
  have h2: "index ex_state (parentKey ev_moveTo_c) = Some 0"
    by (simp add: ex_state_def parentKey_def ev_moveTo_c_def blankEvent_def)
  have h3: "\<not> (1 \<le> Depth (heap ex_state 0) \<and> \<not> isRecursive (ex_proc False))"
    by (simp add: ex_state_def ex_heap_def)
  have h4: "moveCache ex_state (ucast (Meta_TID ev_moveTo_c)) = None"
    by (simp add: ex_state_def)
  have h5: "Path (ex_proc False) 0 (heap ex_state) 0 = Some ''/m''"
    by (simp add: ex_state_def ex_heap_def ex_proc_def slashJoin_def)
  have h6: "pathJoin (ex_proc False) [''/m'', FileName ev_moveTo_c] = ''/m/c'' \<and>
            Depth (heap ex_state 0) + 1 = 1 \<and> Meta_TID ev_moveTo_c = 9 \<and>
            walks ex_state = [] \<and> pool ex_state = []"
    by (simp add: ex_proc_def slashJoin_def ev_moveTo_c_def blankEvent_def ex_state_def
        ex_heap_def)
  from moveTo_unstaged_schedules_walk [OF h1 h2 h3 h4 h5] h1 h2 h3 h4 h5 h6 show ?thesis
    by simp
qed

subsection \<open>Walks and recursions that do not see a change\<close>

lemma chain_last: "chain n st a = Some as \<Longrightarrow> a \<in> set as"
  by (cases n) (auto split: option.splits)

lemma chain_frame:
  "chain n st a = Some as \<Longrightarrow> \<forall>b\<in>set as. Parent (st' b) = Parent (st b) \<Longrightarrow>
   chain n st' a = Some as"
proof (induction n arbitrary: a as)
  case 0
  then show ?case by (auto split: option.splits)
next
  case (Suc n)
  show ?case
  proof (cases "Parent (st a)")
    case None
    with Suc.prems show ?thesis by auto
  next
    case (Some p)
    with Suc.prems obtain as0 where as0: "chain n st p = Some as0" "as = as0 @ [a]"
      by auto
    with Suc.prems have "chain n st' p = Some as0"
      by (intro Suc.IH) auto
    moreover from Suc.prems as0 Some have "Parent (st' a) = Some p" by simp
    ultimately show ?thesis using as0 by simp
  qed
qed

lemma chain_Suc: "chain n st a = Some as \<Longrightarrow> chain (Suc n) st a = Some as"
proof (induction n arbitrary: a as)
  case 0
  then show ?case by (auto split: option.splits)
next
  case (Suc n)
  then show ?case by (cases "Parent (st a)") auto
qed

lemma Path_frame:
  "chain n st a = Some as \<Longrightarrow>
   \<forall>b\<in>set as. Parent (st' b) = Parent (st b) \<and> Name (st' b) = Name (st b) \<Longrightarrow>
   Path ep n st' a = Path ep n st a"
proof (induction n arbitrary: a as)
  case 0
  then show ?case by (auto split: option.splits)
next
  case (Suc n)
  from Suc.prems(1) have "a \<in> set as" by (rule chain_last)
  with Suc.prems(2) have a: "Parent (st' a) = Parent (st a)" "Name (st' a) = Name (st a)"
    by auto
  show ?case
  proof (cases "Parent (st a)")
    case None
    with a show ?thesis by simp
  next
    case (Some p)
    with Suc.prems obtain as0 where as0: "chain n st p = Some as0" "as = as0 @ [a]"
      by auto
    with Suc.prems(2) have "\<forall>b\<in>set as0. Parent (st' b) = Parent (st b) \<and> Name (st' b) = Name (st b)"
      by auto
    with as0(1) have "Path ep n st' p = Path ep n st p" by (rule Suc.IH)
    with a Some show ?thesis by simp
  qed
qed

lemma Path_chain: "Path ep n st a = Some pp \<Longrightarrow> \<exists>as. chain n st a = Some as"
proof (induction n arbitrary: a pp)
  case 0
  then show ?case by (auto split: option.splits)
next
  case (Suc n)
  then show ?case by (cases "Parent (st a)") auto
qed

lemma those_map_Some:
  "those (map f xs) = Some ys \<longleftrightarrow> list_all2 (\<lambda>x y. f x = Some y) xs ys"
proof (induction xs arbitrary: ys)
  case Nil
  then show ?case by auto
next
  case (Cons x xs)
  then show ?case
    by (cases "f x") (auto simp: list_all2_Cons1)
qed

lemma those_map_all:
  assumes "\<forall>x\<in>set xs. \<exists>y. f x = Some y \<and> Q y"
  shows "\<exists>ys. those (map f xs) = Some ys \<and> (\<forall>y\<in>set ys. Q y)"
  using assms
proof (induction xs)
  case Nil
  then show ?case by simp
next
  case (Cons x xs)
  then obtain y ys where "f x = Some y" "Q y" "those (map f xs) = Some ys" "\<forall>y\<in>set ys. Q y"
    by auto
  then show ?case by simp
qed

lemma those_map_member:
  assumes "those (map f xs) = Some ys" "x \<in> set xs"
  shows "\<exists>y\<in>set ys. f x = Some y"
proof -
  from assms(1) have l: "list_all2 (\<lambda>x y. f x = Some y) xs ys"
    by (simp add: those_map_Some)
  from assms(2) obtain i where "i < length xs" "xs ! i = x"
    by (auto simp: in_set_conv_nth)
  with l have "f x = Some (ys ! i)" "i < length ys"
    by (auto simp: list_all2_conv_all_nth)
  then show ?thesis by auto
qed

lemma descend_head: "descend n st d a = Some ds \<Longrightarrow> a \<in> fst ` set ds"
  by (cases n) (auto split: if_splits)

lemma descend_frame:
  "descend n st d a = Some ds \<Longrightarrow> \<forall>b\<in>fst ` set ds. Children (st' b) = Children (st b) \<Longrightarrow>
   descend n st' d a = Some ds"
proof (induction n arbitrary: d a ds)
  case 0
  from "0.prems"(1) have "a \<in> fst ` set ds" by (rule descend_head)
  with "0.prems" show ?case by (auto split: if_splits)
next
  case (Suc n)
  from Suc.prems(1) have a: "a \<in> fst ` set ds" by (rule descend_head)
  with Suc.prems(2) have cs: "Children (st' a) = Children (st a)" by blast
  let ?cs = "map snd (Children (st a))"
  from Suc.prems(1) obtain rs where
    rs: "those (map (descend n st (d + 1)) ?cs) = Some rs" "ds = (a, d) # concat rs"
    by auto
  have "map (descend n st' (d + 1)) ?cs = map (descend n st (d + 1)) ?cs"
  proof (rule map_cong [OF refl])
    fix c assume "c \<in> set ?cs"
    with rs(1) obtain r where r: "r \<in> set rs" "descend n st (d + 1) c = Some r"
      by (blast dest: those_map_member)
    with rs(2) have "fst ` set r \<subseteq> fst ` set ds" by auto
    with Suc.prems(2) have "\<forall>b\<in>fst ` set r. Children (st' b) = Children (st b)" by blast
    with r(2) show "descend n st' (d + 1) c = descend n st (d + 1) c"
      by (simp add: Suc.IH)
  qed
  with rs cs show ?case by (simp only: descend.simps option.map)
qed

lemma descend_shrink:
  "descend n st d a = Some ds \<Longrightarrow>
   \<forall>b. set (map snd (Children (st' b))) \<subseteq> set (map snd (Children (st b))) \<Longrightarrow>
   \<exists>ds'. descend n st' d' a = Some ds' \<and> fst ` set ds' \<subseteq> fst ` set ds"
proof (induction n arbitrary: d d' a ds)
  case 0
  from "0.prems"(1) have "Children (st a) = []" "ds = [(a, d)]" by (auto split: if_splits)
  moreover with "0.prems"(2) have "set (map snd (Children (st' a))) \<subseteq> {}"
    by (metis list.simps(8) set_empty2)
  then have "Children (st' a) = []" by simp
  ultimately show ?case by simp
next
  case (Suc n)
  let ?cs = "map snd (Children (st a))"
  let ?cs' = "map snd (Children (st' a))"
  from Suc.prems(1) obtain rs where
    rs: "those (map (descend n st (d + 1)) ?cs) = Some rs" "ds = (a, d) # concat rs"
    by auto
  have "\<forall>c\<in>set ?cs'. \<exists>r'. descend n st' (d' + 1) c = Some r' \<and> fst ` set r' \<subseteq> fst ` set ds"
  proof
    fix c assume "c \<in> set ?cs'"
    with Suc.prems(2) have "c \<in> set ?cs" by blast
    with rs(1) obtain r where r: "r \<in> set rs" "descend n st (d + 1) c = Some r"
      by (blast dest: those_map_member)
    from Suc.IH [OF r(2) Suc.prems(2), of "d' + 1"] obtain r' where
      "descend n st' (d' + 1) c = Some r'" "fst ` set r' \<subseteq> fst ` set r" by blast
    moreover from r(1) rs(2) have "fst ` set r \<subseteq> fst ` set ds" by auto
    ultimately show "\<exists>r'. descend n st' (d' + 1) c = Some r' \<and> fst ` set r' \<subseteq> fst ` set ds"
      by blast
  qed
  from those_map_all [OF this] obtain rs' where
    rs': "those (map (descend n st' (d' + 1)) ?cs') = Some rs'"
      "\<forall>r'\<in>set rs'. fst ` set r' \<subseteq> fst ` set ds" by blast
  from rs(2) have "a \<in> fst ` set ds" by simp
  with rs' have "fst ` set ((a, d') # concat rs') \<subseteq> fst ` set ds" by auto
  with rs'(1) show ?case by (simp only: descend.simps option.map) blast
qed

lemma detach_Name [simp]: "Name (detach st a b) = Name (st b)"
  by (simp add: detach_def Let_def split: option.splits)

lemma detach_Depth [simp]: "Depth (detach st a b) = Depth (st b)"
  by (simp add: detach_def Let_def split: option.splits)

lemma detach_entryKey [simp]: "entryKey (detach st a b) = entryKey (st b)"
  by (simp add: detach_def Let_def entryKey_def split: option.splits)

lemma detach_Parent: "Parent (detach st a b) = (if b = a then None else Parent (st b))"
  by (simp add: detach_def Let_def split: option.splits)

lemma detach_Children:
  "Children (detach st a b) =
     (if Parent (st a) = Some b then AList.delete (Name (st a)) (Children (st b))
      else Children (st b))"
  by (simp add: detach_def Let_def split: option.splits)

lemma detach_Children_subset:
  "set (map snd (Children (detach st a b))) \<subseteq> set (map snd (Children (st b)))"
  by (auto simp: detach_Children AList.delete_eq)

lemma fixDepths_Name [simp]: "Name (fixDepths ds st b) = Name (st b)"
  unfolding fixDepths_def by (induction ds arbitrary: st) (auto split: prod.splits)

lemma fixDepths_Parent [simp]: "Parent (fixDepths ds st b) = Parent (st b)"
  unfolding fixDepths_def by (induction ds arbitrary: st) (auto split: prod.splits)

lemma fixDepths_Children [simp]: "Children (fixDepths ds st b) = Children (st b)"
  unfolding fixDepths_def by (induction ds arbitrary: st) (auto split: prod.splits)

lemma fixDepths_entryKey [simp]: "entryKey (fixDepths ds st b) = entryKey (st b)"
  unfolding fixDepths_def
  by (induction ds arbitrary: st) (auto simp: entryKey_def split: prod.splits)

lemma fixDepths_frame: "b \<notin> fst ` set ds \<Longrightarrow> fixDepths ds st b = st b"
  unfolding fixDepths_def by (induction ds arbitrary: st) (auto split: prod.splits)

lemma MoveTo_staged:
  assumes staged: "moveCache s t = Some x"
    and sub: "descend fuel (heap s) d0 x = Some dx"
    and p_out: "p \<notin> fst ` set dx"
    and up: "chain n (heap s) p = Some cp"
    and ppath: "Path ep n (heap s) p = Some pp"
    and x_out: "x \<notin> set cp"
    and fuel: "fuel = Suc n"
  shows "\<exists>h. MoveTo ep fuel s t p N (\<lambda>path s'. Emit ep s' path pid op) =
           Some ((True, Emitter ep (emitted s)
                          (pathJoin ep [pp, N], pid, op)),
                 s\<lparr>heap := h,
                   emitted := emitted s @
                     [(pathJoin ep [pp, N], pid, op)],
                   moveCache := (moveCache s)(t := None)\<rparr>) \<and>
         Path ep fuel h x = Some (pathJoin ep [pp, N]) \<and>
         (\<forall>b. Parent (h b) = (if b = x then Some p else Parent (heap s b))) \<and>
         (\<forall>b. Name (h b) = (if b = x then N else Name (heap s b))) \<and>
         (\<forall>b. Children (h b) =
                (if b = p then AList.update N x (Children (heap s b)) else Children (heap s b))) \<and>
         (\<forall>b. entryKey (h b) = entryKey (heap s b)) \<and>
         (\<forall>b. b \<notin> fst ` set dx \<longrightarrow> Depth (h b) = Depth (heap s b))"
proof -
  from sub have x_in: "x \<in> fst ` set dx" by (rule descend_head)
  with p_out have px: "p \<noteq> x" by blast
  define st3 where "st3 = reattach (heap s) x N p"
  have P3: "\<And>b. Parent (st3 b) = (if b = x then Some p else Parent (heap s b))"
    and N3: "\<And>b. Name (st3 b) = (if b = x then N else Name (heap s b))"
    and C3: "\<And>b. Children (st3 b) =
                (if b = p then AList.update N x (Children (heap s b)) else Children (heap s b))"
    and K3: "\<And>b. entryKey (st3 b) = entryKey (heap s b)"
    and D3: "\<And>b. Depth (st3 b) = Depth (heap s b)"
    using px by (auto simp: st3_def reattach_def entryKey_def)
  from p_out have "\<forall>b\<in>fst ` set dx. Children (st3 b) = Children (heap s b)"
    by (auto simp: C3)
  with sub have "descend fuel st3 d0 x = Some dx"
    by (rule descend_frame)
  from descend_shrink [OF this, of st3 "Depth (st3 p) + 1"] obtain ds where
    ds: "descend fuel st3 (Depth (st3 p) + 1) x = Some ds" "fst ` set ds \<subseteq> fst ` set dx"
    by auto
  define h where "h = fixDepths ds st3"
  from x_out have "\<forall>b\<in>set cp. Parent (h b) = Parent (heap s b) \<and> Name (h b) = Name (heap s b)"
    by (auto simp: h_def P3 N3)
  with up have "Path ep n h p = Path ep n (heap s) p"
    by (rule Path_frame)
  with ppath have path: "Path ep fuel h x = Some (pathJoin ep [pp, N])"
    by (simp add: fuel h_def P3 N3)
  have run: "MoveTo ep fuel s t p N (\<lambda>path s'. Emit ep s' path pid op) =
           Some ((True, Emitter ep (emitted s)
                          (pathJoin ep [pp, N], pid, op)),
                 s\<lparr>heap := h,
                   emitted := emitted s @
                     [(pathJoin ep [pp, N], pid, op)],
                   moveCache := (moveCache s)(t := None)\<rparr>)"
    using staged ds(1) path
    by (simp add: MoveTo_def Let_def st3_def [symmetric] h_def [symmetric] Emit_def)
  moreover have "\<forall>b. b \<notin> fst ` set dx \<longrightarrow> Depth (h b) = Depth (heap s b)"
  proof (intro allI impI)
    fix b assume "b \<notin> fst ` set dx"
    with ds(2) have "b \<notin> fst ` set ds" by blast
    then show "Depth (h b) = Depth (heap s b)"
      by (simp add: h_def fixDepths_frame D3)
  qed
  ultimately show ?thesis
    using path by (intro exI [of _ h]) (simp add: h_def P3 N3 C3 K3)
qed

lemma process_MoveTo_staged:
  assumes br: "maskBranch pe = BMoveTo"
    and par: "index s (parentKey pe) = Some p"
    and gate: "\<not> (1 \<le> Depth (heap s p) \<and> \<not> isRecursive ep)"
    and staged: "moveCache s (ucast (Meta_TID pe)) = Some x"
    and sub: "descend fuel (heap s) d0 x = Some dx"
    and p_out: "p \<notin> fst ` set dx"
    and up: "chain n (heap s) p = Some cp"
    and ppath: "Path ep n (heap s) p = Some pp"
    and x_out: "x \<notin> set cp"
    and fuel: "fuel = Suc n"
  shows "\<exists>h. process ep fuel s pe =
           Some (Emitter ep (emitted s)
                   (pathJoin ep [pp, FileName pe], Meta_TID pe,
                    IN_MOVED_TO),
                 s\<lparr>heap := h,
                   emitted := emitted s @
                     [(pathJoin ep [pp, FileName pe], Meta_TID pe,
                       IN_MOVED_TO)],
                   moveCache := (moveCache s)(ucast (Meta_TID pe) := None),
                   pool := pool s @ [pe]\<rparr>) \<and>
         Path ep fuel h x = Some (pathJoin ep [pp, FileName pe]) \<and>
         (\<forall>b. Parent (h b) = (if b = x then Some p else Parent (heap s b))) \<and>
         (\<forall>b. Name (h b) = (if b = x then FileName pe else Name (heap s b))) \<and>
         (\<forall>b. Children (h b) =
                (if b = p then AList.update (FileName pe) x (Children (heap s b))
                 else Children (heap s b))) \<and>
         (\<forall>b. entryKey (h b) = entryKey (heap s b)) \<and>
         (\<forall>b. b \<notin> fst ` set dx \<longrightarrow> Depth (h b) = Depth (heap s b))"
proof -
  from MoveTo_staged [OF staged sub p_out up ppath x_out fuel,
      where N = "FileName pe" and pid = "Meta_TID pe" and op = IN_MOVED_TO]
  obtain h where
    run: "MoveTo ep fuel s (ucast (Meta_TID pe)) p (FileName pe)
            (\<lambda>path s'. Emit ep s' path (Meta_TID pe) IN_MOVED_TO) =
           Some ((True, Emitter ep (emitted s)
                   (pathJoin ep [pp, FileName pe], Meta_TID pe,
                    IN_MOVED_TO)),
                 s\<lparr>heap := h,
                   emitted := emitted s @
                     [(pathJoin ep [pp, FileName pe], Meta_TID pe,
                       IN_MOVED_TO)],
                   moveCache := (moveCache s)(ucast (Meta_TID pe) := None)\<rparr>)"
    and rest: "Path ep fuel h x = Some (pathJoin ep [pp, FileName pe]) \<and>
         (\<forall>b. Parent (h b) = (if b = x then Some p else Parent (heap s b))) \<and>
         (\<forall>b. Name (h b) = (if b = x then FileName pe else Name (heap s b))) \<and>
         (\<forall>b. Children (h b) =
                (if b = p then AList.update (FileName pe) x (Children (heap s b))
                 else Children (heap s b))) \<and>
         (\<forall>b. entryKey (h b) = entryKey (heap s b)) \<and>
         (\<forall>b. b \<notin> fst ` set dx \<longrightarrow> Depth (h b) = Depth (heap s b))"
    by blast
  from br par gate run have "process ep fuel s pe =
           Some (Emitter ep (emitted s)
                   (pathJoin ep [pp, FileName pe], Meta_TID pe,
                    IN_MOVED_TO),
                 s\<lparr>heap := h,
                   emitted := emitted s @
                     [(pathJoin ep [pp, FileName pe], Meta_TID pe,
                       IN_MOVED_TO)],
                   moveCache := (moveCache s)(ucast (Meta_TID pe) := None),
                   pool := pool s @ [pe]\<rparr>)"
    by (auto simp: process_def process_MoveTo_def Get_def releaseProbeEvent_def
        split: option.splits)
  with rest show ?thesis by blast
qed

lemma process_MoveFrom_child:
  assumes br: "maskBranch pe = BMoveFrom"
    and par: "index s (parentKey pe) = Some q"
    and gate: "\<not> (1 \<le> Depth (heap s q) \<and> \<not> isRecursive ep)"
    and child: "GetChild (heap s) q (FileName pe) = Some x"
    and path: "Path ep fuel (heap s) x = Some xpath"
    and old: "\<forall>y. moveCache s (ucast (Meta_TID pe)) = Some y \<longrightarrow> descend fuel (heap s) 0 y \<noteq> None"
  shows "\<exists>R. process ep fuel s pe =
           Some (Emitter ep (emitted s)
                   (xpath, Meta_TID pe, IN_MOVED_FROM),
                 s\<lparr>heap := detach (heap s) x,
                   moveCache := (moveCache s)(ucast (Meta_TID pe) \<mapsto> x),
                   released := R,
                   emitted := emitted s @
                     [(xpath, Meta_TID pe, IN_MOVED_FROM)],
                   pool := pool s @ [pe]\<rparr>)"
proof -
  let ?t = "ucast (Meta_TID pe) :: u64"
  have "\<exists>R. MoveFrom fuel s ?t x =
          Some (s\<lparr>heap := detach (heap s) x, released := R,
                  moveCache := (moveCache s)(?t \<mapsto> x)\<rparr>)"
  proof (cases "moveCache s ?t")
    case None
    then have "MoveFrom fuel s ?t x =
          Some (s\<lparr>heap := detach (heap s) x, released := released s,
                  moveCache := (moveCache s)(?t \<mapsto> x)\<rparr>)"
      by (simp add: MoveFrom_def Let_def)
    then show ?thesis by blast
  next
    case (Some y)
    with old obtain ds where "descend fuel (heap s) 0 y = Some ds" by auto
    from descend_shrink [OF this, of "detach (heap s) x" 0] obtain ds' where
      "descend fuel (detach (heap s) x) 0 y = Some ds'"
      using detach_Children_subset by blast
    with Some have "MoveFrom fuel s ?t x =
          Some (s\<lparr>heap := detach (heap s) x, released := released s \<union> set (map fst ds'),
                  moveCache := (moveCache s)(?t \<mapsto> x)\<rparr>)"
      by (simp add: MoveFrom_def Let_def Release_def)
    then show ?thesis by blast
  qed
  then obtain R where "MoveFrom fuel s ?t x =
          Some (s\<lparr>heap := detach (heap s) x, released := R,
                  moveCache := (moveCache s)(?t \<mapsto> x)\<rparr>)" by blast
  with br par gate child path have "process ep fuel s pe =
           Some (Emitter ep (emitted s)
                   (xpath, Meta_TID pe, IN_MOVED_FROM),
                 s\<lparr>heap := detach (heap s) x,
                   moveCache := (moveCache s)(ucast (Meta_TID pe) \<mapsto> x),
                   released := R,
                   emitted := emitted s @
                     [(xpath, Meta_TID pe, IN_MOVED_FROM)],
                   pool := pool s @ [pe]\<rparr>)"
    by (auto simp: process_def process_MoveFrom_def Get_def Emit_def releaseProbeEvent_def)
  then show ?thesis by blast
qed

subsection \<open>Emissions\<close>

lemma Release_emitted: "Release fuel s a = Some s' \<Longrightarrow> emitted s' = emitted s"
  by (auto simp: Release_def split: option.splits)

lemma Add_emitted: "emitted (Add s a parent) = emitted s"
  by (simp add: Add_def Let_def split: option.splits)

lemma Remove_emitted: "Remove fuel s a = Some s' \<Longrightarrow> emitted s' = emitted s"
  by (auto simp: Remove_def Let_def split: option.splits dest!: Release_emitted)

lemma MoveClear_emitted: "MoveClear fuel s t = Some s' \<Longrightarrow> emitted s' = emitted s"
  by (auto simp: MoveClear_def split: option.splits dest!: Release_emitted)

lemma MoveFrom_emitted: "MoveFrom fuel s t a = Some s' \<Longrightarrow> emitted s' = emitted s"
  by (auto simp: MoveFrom_def Let_def split: option.splits dest!: Release_emitted)

lemma MoveTo_emitted:
  "MoveTo ep fuel s t p n (\<lambda>path s'. Emit ep s' path pid op) = Some ((moved, err), s') \<Longrightarrow>
   (\<not> moved \<and> err = None \<and> s' = s) \<or>
   (moved \<and> (\<exists>em. emitted s' = emitted s @ [em] \<and> err = Emitter ep (emitted s) em))"
  by (auto simp: MoveTo_def Let_def Emit_def split: option.splits)

lemma process_Monitor_emitted:
  "process_Monitor ep fuel s pe = Some (r, s') \<Longrightarrow> (emitted s' = emitted s \<and> r = None) \<or>
   (\<exists>em. emitted s' = emitted s @ [em] \<and> r = Emitter ep (emitted s) em)"
  by (auto simp: process_Monitor_def Let_def newEntry_def Add_emitted Emit_def
      split: prod.splits if_splits option.splits)

lemma process_Create_emitted:
  "process_Create ep fuel s pe = Some (r, s') \<Longrightarrow> (emitted s' = emitted s \<and> r = None) \<or>
   (\<exists>em. emitted s' = emitted s @ [em] \<and> r = Emitter ep (emitted s) em)"
  by (auto simp: process_Create_def Let_def newEntry_def Add_emitted Emit_def
      split: prod.splits if_splits option.splits)

lemma process_Modify_emitted:
  "process_Modify ep fuel s pe = Some (r, s') \<Longrightarrow> (emitted s' = emitted s \<and> r = None) \<or>
   (\<exists>em. emitted s' = emitted s @ [em] \<and> r = Emitter ep (emitted s) em)"
  by (auto simp: process_Modify_def Emit_def split: option.splits)

lemma process_Attrib_emitted:
  "process_Attrib ep fuel s pe = Some (r, s') \<Longrightarrow> (emitted s' = emitted s \<and> r = None) \<or>
   (\<exists>em. emitted s' = emitted s @ [em] \<and> r = Emitter ep (emitted s) em)"
  by (auto simp: process_Attrib_def Emit_def split: option.splits)

lemma process_MoveFrom_emitted:
  "process_MoveFrom ep fuel s pe = Some (r, s') \<Longrightarrow> (emitted s' = emitted s \<and> r = None) \<or>
   (\<exists>em. emitted s' = emitted s @ [em] \<and> r = Emitter ep (emitted s) em)"
  by (auto simp: process_MoveFrom_def Let_def Emit_def
      split: if_splits option.splits dest!: MoveClear_emitted MoveFrom_emitted)

lemma process_MoveTo_emitted:
  "process_MoveTo ep fuel s pe = Some (r, s') \<Longrightarrow> (emitted s' = emitted s \<and> r = None) \<or>
   (\<exists>em. emitted s' = emitted s @ [em] \<and> r = Emitter ep (emitted s) em)"
  by (auto simp: process_MoveTo_def Let_def WalkAsync_def
      split: if_splits option.splits prod.splits dest!: MoveClear_emitted MoveTo_emitted)

lemma process_Delete_emitted:
  "process_Delete ep fuel s pe = Some (r, s') \<Longrightarrow> (emitted s' = emitted s \<and> r = None) \<or>
   (\<exists>em. emitted s' = emitted s @ [em] \<and> r = Emitter ep (emitted s) em)"
  by (auto simp: process_Delete_def Let_def Emit_def
      split: if_splits option.splits prod.splits dest!: Remove_emitted Release_emitted)

lemma process_emit_error:
  assumes "process ep fuel s pe = Some (r, s')"
    and "emitted s' = emitted s @ [em]"
    and "Emitter ep (emitted s) em = Some e"
  shows "r = Some e"
proof -
  have "((emitted s' = emitted s \<and> r = None) \<or>
         (\<exists>em. emitted s' = emitted s @ [em] \<and> r = Emitter ep (emitted s) em)) \<or>
        emitted s' = emitted s"
    using assms(1)
    by (auto simp: process_def releaseProbeEvent_def split: branch.splits
        dest!: process_Monitor_emitted process_Create_emitted process_Modify_emitted
          process_Attrib_emitted process_MoveFrom_emitted process_MoveTo_emitted
          process_Delete_emitted)
  with assms(2,3) show ?thesis by auto
qed

lemma attach_Parent:
  "Parent (attach st a p b) = (if b = a then Some p else Parent (st b))"
  by (simp add: attach_def Let_def)

lemma attach_Name [simp]: "Name (attach st a p b) = Name (st b)"
  by (simp add: attach_def Let_def)

lemma attach_entryKey [simp]: "entryKey (attach st a p b) = entryKey (st b)"
  by (simp add: attach_def Let_def entryKey_def)

lemma attach_Children:
  "Children (attach st a p b) =
     (if b = p then AList.update (Name (st a)) a (Children (st p)) else Children (st b))"
  by (simp add: attach_def Let_def)

lemma attach_Depth:
  "a \<noteq> p \<Longrightarrow> Depth (attach st a p b) = (if b = a then Depth (st p) + 1 else Depth (st b))"
  by (simp add: attach_def Let_def)

lemma evict_apply:
  "evict st bs m k = (if k \<in> (\<lambda>b. entryKey (st b)) ` set bs then None else m k)"
  unfolding evict_def by (induction bs arbitrary: m) auto

lemma process_Create_new:
  assumes br: "maskBranch pe = BCreate"
    and par: "index s (parentKey pe) = Some p"
    and gate: "\<not> (1 \<le> Depth (heap s p) \<and> \<not> isRecursive ep)"
    and new: "index s (fileKey pe) = None"
    and up: "chain n (heap s) p = Some cp"
    and ppath: "Path ep n (heap s) p = Some pp"
    and fresh: "nextAddr s \<notin> set cp"
    and fuel: "fuel = Suc n"
  shows "\<exists>h. process ep fuel s pe =
           Some (Emitter ep (emitted s)
                   (pathJoin ep [pp, FileName pe], Meta_TID pe,
                    IN_CREATE),
                 s\<lparr>heap := h, nextAddr := Suc (nextAddr s),
                   index := (index s)(fileKey pe \<mapsto> nextAddr s),
                   emitted := emitted s @
                     [(pathJoin ep [pp, FileName pe], Meta_TID pe,
                       IN_CREATE)],
                   pool := pool s @ [pe]\<rparr>) \<and>
         Parent (h (nextAddr s)) = Some p \<and>
         Name (h (nextAddr s)) = FileName pe \<and>
         entryKey (h (nextAddr s)) = fileKey pe \<and>
         Depth (h (nextAddr s)) = Depth (heap s p) + 1 \<and>
         GetChild h p (FileName pe) = Some (nextAddr s) \<and>
         (\<forall>b. b \<noteq> nextAddr s \<longrightarrow> b \<noteq> p \<longrightarrow> h b = heap s b)"
proof -
  let ?a = "nextAddr s"
  let ?e = "\<lparr>Name = FileName pe, Ino = FileIno pe, DevMajor = FileDevMajor pe,
             DevMinor = FileDevMinor pe, Depth = 0, Parent = None, Children = []\<rparr>"
  let ?em = "(pathJoin ep [pp, FileName pe], Meta_TID pe, IN_CREATE)"
  define h where "h = attach ((heap s)(?a := ?e)) ?a p"
  from up have "p \<in> set cp" by (rule chain_last)
  with fresh have ap: "?a \<noteq> p" by blast
  have hP: "\<And>b. Parent (h b) = (if b = ?a then Some p else Parent (heap s b))"
    and hN: "\<And>b. Name (h b) = (if b = ?a then FileName pe else Name (heap s b))"
    by (simp_all add: h_def attach_Parent)
  have hK: "entryKey (h ?a) = fileKey pe"
    unfolding h_def attach_entryKey by (simp add: entryKey_def fileKey_def)
  have hD: "Depth (h ?a) = Depth (heap s p) + 1"
    using ap by (simp add: h_def attach_Depth)
  have hC: "GetChild h p (FileName pe) = Some ?a"
    by (simp add: h_def GetChild_def attach_Children update_conv')
  have hF: "\<forall>b. b \<noteq> ?a \<longrightarrow> b \<noteq> p \<longrightarrow> h b = heap s b"
    by (simp add: h_def attach_def Let_def)
  from fresh have "\<forall>b\<in>set cp. Parent (h b) = Parent (heap s b) \<and> Name (h b) = Name (heap s b)"
    by (auto simp: hP hN)
  with up have "Path ep n h p = Path ep n (heap s) p" by (rule Path_frame)
  with ppath have path: "Path ep fuel h ?a = Some (pathJoin ep [pp, FileName pe])"
    by (simp add: fuel hP hN)
  have add: "Add (s\<lparr>heap := (heap s)(?a := ?e), nextAddr := Suc ?a\<rparr>) ?a (Some p) =
      s\<lparr>heap := h, nextAddr := Suc ?a, index := (index s)(fileKey pe \<mapsto> ?a)\<rparr>"
    using new by (simp add: Add_def Let_def entryKey_def fileKey_def h_def)
  from gate have g: "(1 \<le> Depth (heap s p) \<and> \<not> isRecursive ep) = False"
    by simp
  have "process ep fuel s pe =
           Some (Emitter ep (emitted s) ?em,
                 s\<lparr>heap := h, nextAddr := Suc ?a, index := (index s)(fileKey pe \<mapsto> ?a),
                   emitted := emitted s @ [?em], pool := pool s @ [pe]\<rparr>)"
    using br par path
    by (simp add: process_def process_Create_def Get_def newEntry_def add Emit_def
        releaseProbeEvent_def g)
  with hP hN hK hD hC hF show ?thesis
    by (intro exI [of _ h]) simp
qed

lemma process_Delete_child:
  assumes br: "maskBranch pe = BDelete"
    and par: "index s (parentKey pe) = Some p"
    and gate: "\<not> (1 \<le> Depth (heap s p) \<and> \<not> isRecursive ep)"
    and child: "GetChild (heap s) p (FileName pe) = Some x"
    and path: "Path ep fuel (heap s) x = Some xpath"
    and down: "descend fuel (heap s) 0 x = Some dx"
  shows "\<exists>bs. process ep fuel s pe =
           Some (Emitter ep (emitted s)
                   (xpath, Meta_TID pe, IN_DELETE),
                 s\<lparr>heap := detach (heap s) x,
                   index := evict (detach (heap s) x) bs (index s),
                   released := released s \<union> set bs,
                   emitted := emitted s @
                     [(xpath, Meta_TID pe, IN_DELETE)],
                   pool := pool s @ [pe]\<rparr>) \<and>
         x \<in> set bs \<and> set bs \<subseteq> fst ` set dx"
proof -
  let ?em = "(xpath, Meta_TID pe, IN_DELETE)"
  from descend_shrink [OF down, of "detach (heap s) x" 0] obtain ds where
    ds: "descend fuel (detach (heap s) x) 0 x = Some ds" "fst ` set ds \<subseteq> fst ` set dx"
    using detach_Children_subset by blast
  from ds(1) have x_in: "x \<in> fst ` set ds" by (rule descend_head)
  let ?s1 = "s\<lparr>heap := detach (heap s) x,
                index := evict (detach (heap s) x) (map fst ds) (index s),
                released := released s \<union> set (map fst ds)\<rparr>"
  from ds(1) have rem: "Remove fuel s x = Some ?s1"
    by (simp add: Remove_def Let_def Release_def)
  from ds(1) have rel: "Release fuel (?s1\<lparr>emitted := emitted s @ [?em]\<rparr>) x =
      Some (?s1\<lparr>emitted := emitted s @ [?em]\<rparr>)"
    by (simp add: Release_def Un_absorb2 sup.absorb1)
  from gate have g: "(1 \<le> Depth (heap s p) \<and> \<not> isRecursive ep) = False"
    by simp
  from br par child path rem rel have run: "process ep fuel s pe =
           Some (Emitter ep (emitted s) ?em,
                 ?s1\<lparr>emitted := emitted s @ [?em], pool := pool s @ [pe]\<rparr>)"
    by (cases "Emitter ep (emitted s) ?em")
      (simp_all add: process_def process_Delete_def Get_def Emit_def releaseProbeEvent_def g)
  show ?thesis
    by (rule exI [of _ "map fst ds"]) (use run x_in ds(2) in simp)
qed

text \<open>
  The monitor case on a record that the traverser acknowledges: for an event whose parent is
  not cached, for a new object under a cached parent, and for an object that the index
  already holds; and the Create case for a key that the index already holds.
\<close>

lemma process_Monitor_root:
  assumes br: "maskBranch pe = BMonitor"
    and ack: "GetMonitorPath ep (FileIno pe) (FileDevMajor pe) (FileDevMinor pe) (FileName pe) =
                (mp, True)"
    and par: "index s (parentKey pe) = None"
  shows "\<exists>s'. process ep fuel s pe =
            Some (if isFromMove mp
                  then Emitter ep (emitted s) (fullPath mp, tid mp, IN_MOVED_TO)
                  else None, s') \<and>
          index s' = (if index s (fileKey pe) = None then (index s)(fileKey pe \<mapsto> nextAddr s)
                      else index s) \<and>
          (\<forall>b. b \<noteq> nextAddr s \<longrightarrow> heap s' b = heap s b) \<and>
          emitted s' = emitted s @
            (if isFromMove mp then [(fullPath mp, tid mp, IN_MOVED_TO)] else []) \<and>
          pool s' = pool s @ [pe]"
proof -
  let ?e = "\<lparr>Name = fullPath mp, Ino = FileIno pe, DevMajor = FileDevMajor pe,
             DevMinor = FileDevMinor pe, Depth = depth mp, Parent = None, Children = []\<rparr>"
  let ?s1 = "s\<lparr>heap := (heap s)(nextAddr s := ?e), nextAddr := Suc (nextAddr s)\<rparr>"
  have add: "Add ?s1 (nextAddr s) None =
      (if index s (fileKey pe) = None then ?s1\<lparr>index := (index s)(fileKey pe \<mapsto> nextAddr s)\<rparr>
       else ?s1)"
    by (simp add: Add_def Let_def entryKey_def fileKey_def)
  have path: "Path ep fuel (heap (Add ?s1 (nextAddr s) None)) (nextAddr s) = Some (fullPath mp)"
    by (cases fuel) (simp_all add: add)
  from br ack par path show ?thesis
    by (cases "isFromMove mp")
      (simp_all add: process_def process_Monitor_def Get_def newEntry_def Emit_def
        releaseProbeEvent_def add del: Path.simps)
qed

lemma process_Monitor_new:
  assumes br: "maskBranch pe = BMonitor"
    and ack: "GetMonitorPath ep (FileIno pe) (FileDevMajor pe) (FileDevMinor pe) (FileName pe) =
                (mp, True)"
    and par: "index s (parentKey pe) = Some p"
    and new: "index s (fileKey pe) = None"
    and up: "chain n (heap s) p = Some cp"
    and ppath: "Path ep n (heap s) p = Some pp"
    and fresh: "nextAddr s \<notin> set cp"
    and fuel: "fuel = Suc n"
  shows "\<exists>h. process ep fuel s pe =
           Some (if isFromMove mp
                 then Emitter ep (emitted s) (pathJoin ep [pp, FileName pe], tid mp, IN_MOVED_TO)
                 else None,
                 s\<lparr>heap := h, nextAddr := Suc (nextAddr s),
                   index := (index s)(fileKey pe \<mapsto> nextAddr s),
                   emitted := emitted s @
                     (if isFromMove mp
                      then [(pathJoin ep [pp, FileName pe], tid mp, IN_MOVED_TO)] else []),
                   pool := pool s @ [pe]\<rparr>) \<and>
         Parent (h (nextAddr s)) = Some p \<and>
         Name (h (nextAddr s)) = FileName pe \<and>
         entryKey (h (nextAddr s)) = fileKey pe \<and>
         GetChild h p (FileName pe) = Some (nextAddr s)"
proof -
  let ?a = "nextAddr s"
  let ?e = "\<lparr>Name = FileName pe, Ino = FileIno pe, DevMajor = FileDevMajor pe,
             DevMinor = FileDevMinor pe, Depth = Depth (heap s p) + 1, Parent = None,
             Children = []\<rparr>"
  let ?em = "(pathJoin ep [pp, FileName pe], tid mp, IN_MOVED_TO)"
  define h where "h = attach ((heap s)(?a := ?e)) ?a p"
  have hP: "\<And>b. Parent (h b) = (if b = ?a then Some p else Parent (heap s b))"
    and hN: "\<And>b. Name (h b) = (if b = ?a then FileName pe else Name (heap s b))"
    by (simp_all add: h_def attach_Parent)
  have hK: "entryKey (h ?a) = fileKey pe"
    unfolding h_def attach_entryKey by (simp add: entryKey_def fileKey_def)
  have hC: "GetChild h p (FileName pe) = Some ?a"
    by (simp add: h_def GetChild_def attach_Children update_conv')
  from fresh have "\<forall>b\<in>set cp. Parent (h b) = Parent (heap s b) \<and> Name (h b) = Name (heap s b)"
    by (auto simp: hP hN)
  with up have "Path ep n h p = Path ep n (heap s) p" by (rule Path_frame)
  with ppath have path: "Path ep fuel h ?a = Some (pathJoin ep [pp, FileName pe])"
    by (simp add: fuel hP hN)
  have add: "Add (s\<lparr>heap := (heap s)(?a := ?e), nextAddr := Suc ?a\<rparr>) ?a (Some p) =
      s\<lparr>heap := h, nextAddr := Suc ?a, index := (index s)(fileKey pe \<mapsto> ?a)\<rparr>"
    using new by (simp add: Add_def Let_def entryKey_def fileKey_def h_def)
  have "process ep fuel s pe =
           Some (if isFromMove mp then Emitter ep (emitted s) ?em else None,
                 s\<lparr>heap := h, nextAddr := Suc ?a, index := (index s)(fileKey pe \<mapsto> ?a),
                   emitted := emitted s @ (if isFromMove mp then [?em] else []),
                   pool := pool s @ [pe]\<rparr>)"
    using br ack par new path
    by (cases "isFromMove mp")
      (simp_all add: process_def process_Monitor_def Get_def newEntry_def add Emit_def
        releaseProbeEvent_def del: Path.simps)
  with hP hN hK hC show ?thesis
    by (intro exI [of _ h]) simp
qed

lemma process_Monitor_dup:
  assumes br: "maskBranch pe = BMonitor"
    and ack: "GetMonitorPath ep (FileIno pe) (FileDevMajor pe) (FileDevMinor pe) (FileName pe) =
                (mp, True)"
    and par: "index s (parentKey pe) = Some p"
    and dup: "index s (fileKey pe) = Some x"
    and key: "entryKey (heap s x) = fileKey pe"
    and path: "Path ep fuel (heap s) x = Some xpath"
  shows "process ep fuel s pe =
           Some (if isFromMove mp
                 then Emitter ep (emitted s) (xpath, tid mp, IN_MOVED_TO)
                 else None,
                 s\<lparr>emitted := emitted s @
                     (if isFromMove mp then [(xpath, tid mp, IN_MOVED_TO)] else []),
                   pool := pool s @ [pe]\<rparr>)"
proof -
  from dup key have add: "Add s x (Some p) = s"
    by (simp add: Add_def Let_def)
  from br ack par dup add path show ?thesis
    by (cases "isFromMove mp")
      (simp_all add: process_def process_Monitor_def Get_def Emit_def releaseProbeEvent_def
        del: Path.simps)
qed

lemma process_Create_dup:
  assumes br: "maskBranch pe = BCreate"
    and par: "index s (parentKey pe) = Some p"
    and gate: "\<not> (1 \<le> Depth (heap s p) \<and> \<not> isRecursive ep)"
    and dup: "index s (fileKey pe) \<noteq> None"
  shows "process ep fuel s pe =
           Some (Emitter ep (emitted s) (FileName pe, Meta_TID pe, IN_CREATE),
                 s\<lparr>heap := (heap s)
                     (nextAddr s := \<lparr>Name = FileName pe, Ino = FileIno pe,
                        DevMajor = FileDevMajor pe, DevMinor = FileDevMinor pe, Depth = 0,
                        Parent = None, Children = []\<rparr>),
                   nextAddr := Suc (nextAddr s),
                   emitted := emitted s @ [(FileName pe, Meta_TID pe, IN_CREATE)],
                   pool := pool s @ [pe]\<rparr>)"
proof -
  let ?a = "nextAddr s"
  let ?e = "\<lparr>Name = FileName pe, Ino = FileIno pe, DevMajor = FileDevMajor pe,
             DevMinor = FileDevMinor pe, Depth = 0, Parent = None, Children = []\<rparr>"
  let ?s1 = "s\<lparr>heap := (heap s)(?a := ?e), nextAddr := Suc ?a\<rparr>"
  from dup have add: "Add ?s1 ?a (Some p) = ?s1"
    by (simp add: Add_def Let_def entryKey_def fileKey_def)
  have path: "Path ep fuel (heap ?s1) ?a = Some (FileName pe)"
    by (cases fuel) simp_all
  from gate have g: "(1 \<le> Depth (heap s p) \<and> \<not> isRecursive ep) = False"
    by simp
  from br par path show ?thesis
    by (simp add: process_def process_Create_def Get_def newEntry_def add Emit_def
        releaseProbeEvent_def g del: Path.simps)
qed

subsection \<open>The recursion gate\<close>

text \<open>
  C7, as amended: with recursion disabled, a Create or a Delete event whose parent is not
  cached, or is cached at depth 1 or deeper, returns nil and leaves the heap, the cache and
  the logs of emissions and walks as they were (only the pool receives the event); and a
  Create, Delete, MoveFrom or MoveTo event emits only when its parent is cached at depth 0:
  the gate \<^verbatim>\<open>parentEntry.Depth >= 1 && !e.isRecursive\<close> filters the others. A
  Modify or an Attrib event is not gated: it emits at the path of its cached subject,
  whatever the depth of the subject.
\<close>

theorem recursion_gate_create_delete:
  assumes off: "\<not> isRecursive ep"
  shows
    "((maskBranch pe = BCreate \<or> maskBranch pe = BDelete) \<and>
      (index s (parentKey pe) = None \<or>
       (\<exists>p. index s (parentKey pe) = Some p \<and> 1 \<le> Depth (heap s p)))
      \<longrightarrow> process ep fuel s pe = Some (None, s\<lparr>pool := pool s @ [pe]\<rparr>)) \<and>
     ((maskBranch pe = BCreate \<or> maskBranch pe = BDelete \<or>
       maskBranch pe = BMoveFrom \<or> maskBranch pe = BMoveTo) \<and>
      process ep fuel s pe = Some (r, s') \<and> emitted s' \<noteq> emitted s
      \<longrightarrow> (\<exists>p. index s (parentKey pe) = Some p \<and> Depth (heap s p) = 0)) \<and>
     ((maskBranch pe = BModify \<and> op = IN_MODIFY \<or> maskBranch pe = BAttrib \<and> op = IN_ATTRIB) \<and>
      index s (fileKey pe) = Some x \<and> Path ep fuel (heap s) x = Some xpath
      \<longrightarrow> process ep fuel s pe =
            Some (Emitter ep (emitted s) (xpath, Meta_TID pe, op),
                  s\<lparr>emitted := emitted s @ [(xpath, Meta_TID pe, op)],
                    pool := pool s @ [pe]\<rparr>))"
proof (intro conjI impI; elim conjE)
  assume "maskBranch pe = BCreate \<or> maskBranch pe = BDelete"
    and "index s (parentKey pe) = None \<or>
         (\<exists>p. index s (parentKey pe) = Some p \<and> 1 \<le> Depth (heap s p))"
  with off show "process ep fuel s pe = Some (None, s\<lparr>pool := pool s @ [pe]\<rparr>)"
    by (auto simp: process_def process_Create_def process_Delete_def Get_def
        releaseProbeEvent_def)
next
  assume br: "maskBranch pe = BCreate \<or> maskBranch pe = BDelete \<or>
       maskBranch pe = BMoveFrom \<or> maskBranch pe = BMoveTo"
    and run: "process ep fuel s pe = Some (r, s')"
    and em: "emitted s' \<noteq> emitted s"
  show "\<exists>p. index s (parentKey pe) = Some p \<and> Depth (heap s p) = 0"
  proof (rule ccontr)
    assume no: "\<not> (\<exists>p. index s (parentKey pe) = Some p \<and> Depth (heap s p) = 0)"
    have gate: "1 \<le> Depth (heap s p) \<and> \<not> isRecursive ep" if "index s (parentKey pe) = Some p" for p
    proof -
      from that no have "Depth (heap s p) \<noteq> 0" by blast
      then have "\<not> Depth (heap s p) < 1" by (simp add: word_less_1)
      then have "1 \<le> Depth (heap s p)" by (simp only: not_less)
      with off show ?thesis by simp
    qed
    have "emitted s' = emitted s"
    proof (cases "index s (parentKey pe)")
      case None
      with br run show ?thesis
        by (auto simp: process_def process_Create_def process_Delete_def process_MoveFrom_def
            process_MoveTo_def Get_def releaseProbeEvent_def dest!: MoveClear_emitted)
    next
      case (Some p)
      from gate [OF Some] have g: "(1 \<le> Depth (heap s p) \<and> \<not> isRecursive ep) = True" by simp
      from br run Some show ?thesis
        by (auto simp: process_def process_Create_def process_Delete_def process_MoveFrom_def
            process_MoveTo_def Get_def releaseProbeEvent_def g dest!: MoveClear_emitted)
    qed
    with em show False by simp
  qed
next
  assume "maskBranch pe = BModify \<and> op = IN_MODIFY \<or> maskBranch pe = BAttrib \<and> op = IN_ATTRIB"
    and "index s (fileKey pe) = Some x" and "Path ep fuel (heap s) x = Some xpath"
  then show "process ep fuel s pe =
            Some (Emitter ep (emitted s) (xpath, Meta_TID pe, op),
                  s\<lparr>emitted := emitted s @ [(xpath, Meta_TID pe, op)],
                    pool := pool s @ [pe]\<rparr>)"
    by (auto simp: process_def process_Modify_def process_Attrib_def Get_def Emit_def
        releaseProbeEvent_def simp del: Path.simps)
qed

theorem recursion_gate_create_delete_witness:
  "\<not> isRecursive (ex_proc False) \<and>
   ((maskBranch ev_create_deep = BCreate \<or> maskBranch ev_create_deep = BDelete) \<and>
    index ex_state (parentKey ev_create_deep) = Some 2 \<and> 1 \<le> Depth (heap ex_state 2) \<and>
    process (ex_proc False) 0 ex_state ev_create_deep =
      Some (None, ex_state\<lparr>pool := pool ex_state @ [ev_create_deep]\<rparr>)) \<and>
   ((maskBranch ev_delete_deep = BCreate \<or> maskBranch ev_delete_deep = BDelete) \<and>
    index ex_state (parentKey ev_delete_deep) = Some 2 \<and>
    GetChild (heap ex_state) 2 (FileName ev_delete_deep) = Some 3 \<and>
    process (ex_proc False) 0 ex_state ev_delete_deep =
      Some (None, ex_state\<lparr>pool := pool ex_state @ [ev_delete_deep]\<rparr>)) \<and>
   ((maskBranch ev_create_outside = BCreate \<or> maskBranch ev_create_outside = BDelete) \<and>
    index ex_state (parentKey ev_create_outside) = None \<and>
    process (ex_proc False) 0 ex_state ev_create_outside =
      Some (None, ex_state\<lparr>pool := pool ex_state @ [ev_create_outside]\<rparr>)) \<and>
   (maskBranch ev_create_y = BCreate \<and>
    process (ex_proc False) (Suc 0) ex_state ev_create_y = Some (None, ex_after_create) \<and>
    emitted ex_after_create \<noteq> emitted ex_state \<and>
    (\<exists>p. index ex_state (parentKey ev_create_y) = Some p \<and> Depth (heap ex_state p) = 0)) \<and>
   (maskBranch ev_modify_a = BModify \<and> index ex_state (fileKey ev_modify_a) = Some 1 \<and>
    Depth (heap ex_state 1) = 1 \<and>
    Path (ex_proc False) (Suc 0) (heap ex_state) 1 = Some ''/m/a'' \<and>
    process (ex_proc False) (Suc 0) ex_state ev_modify_a =
      Some (None, ex_state\<lparr>emitted := [(''/m/a'', 7, IN_MODIFY)], pool := [ev_modify_a]\<rparr>))"
proof -
  let ?ep = "ex_proc False"
  have off: "\<not> isRecursive ?ep"
    by (simp add: ex_proc_def)
  have h1: "maskBranch ev_create_deep = BCreate \<or> maskBranch ev_create_deep = BDelete"
    by (simp add: maskBranch_def ev_create_deep_def blankEvent_def)
  have h2: "index ex_state (parentKey ev_create_deep) = Some 2"
    by (simp add: ex_state_def parentKey_def ev_create_deep_def blankEvent_def)
  have h3: "1 \<le> Depth (heap ex_state 2)"
    by (simp add: ex_state_def ex_heap_def)
  from h2 h3 have h4: "index ex_state (parentKey ev_create_deep) = None \<or>
      (\<exists>p. index ex_state (parentKey ev_create_deep) = Some p \<and> 1 \<le> Depth (heap ex_state p))"
    by blast
  from recursion_gate_create_delete [OF off, where pe = ev_create_deep and s = ex_state and fuel = 0, THEN conjunct1]
    h1 h4
  have create: "process ?ep 0 ex_state ev_create_deep =
      Some (None, ex_state\<lparr>pool := pool ex_state @ [ev_create_deep]\<rparr>)"
    by blast
  have d1: "maskBranch ev_delete_deep = BCreate \<or> maskBranch ev_delete_deep = BDelete"
    by (simp add: maskBranch_def ev_delete_deep_def blankEvent_def)
  have d2: "index ex_state (parentKey ev_delete_deep) = Some 2"
    by (simp add: ex_state_def parentKey_def ev_delete_deep_def blankEvent_def)
  have d3: "GetChild (heap ex_state) 2 (FileName ev_delete_deep) = Some 3"
    by (simp add: GetChild_def ex_state_def ex_heap_def ev_delete_deep_def blankEvent_def)
  from d2 h3 have d4: "index ex_state (parentKey ev_delete_deep) = None \<or>
      (\<exists>p. index ex_state (parentKey ev_delete_deep) = Some p \<and> 1 \<le> Depth (heap ex_state p))"
    by blast
  from recursion_gate_create_delete [OF off, where pe = ev_delete_deep and s = ex_state and fuel = 0, THEN conjunct1]
    d1 d4
  have delete: "process ?ep 0 ex_state ev_delete_deep =
      Some (None, ex_state\<lparr>pool := pool ex_state @ [ev_delete_deep]\<rparr>)"
    by blast
  have o1: "maskBranch ev_create_outside = BCreate \<or> maskBranch ev_create_outside = BDelete"
    by (simp add: maskBranch_def ev_create_outside_def blankEvent_def)
  have o2: "index ex_state (parentKey ev_create_outside) = None"
    by (simp add: ex_state_def parentKey_def ev_create_outside_def blankEvent_def)
  from recursion_gate_create_delete [OF off, where pe = ev_create_outside and s = ex_state and fuel = 0, THEN conjunct1]
    o1 o2
  have outside: "process ?ep 0 ex_state ev_create_outside =
      Some (None, ex_state\<lparr>pool := pool ex_state @ [ev_create_outside]\<rparr>)"
    by blast
  have y1: "maskBranch ev_create_y = BCreate"
    by (simp add: maskBranch_def ev_create_y_def blankEvent_def)
  have y2: "process ?ep (Suc 0) ex_state ev_create_y = Some (None, ex_after_create)"
    by (simp add: ex_proc_def ex_state_def ev_create_y_def blankEvent_def ex_after_create_def
      fileKey_def parentKey_def entryKey_def process_def maskBranch_def process_Create_def
      Get_def newEntry_def Add_def slashJoin_def Emit_def releaseProbeEvent_def
      ex_heap_def attach_def Let_def)
  have y3: "emitted ex_after_create \<noteq> emitted ex_state"
    by (simp add: ex_after_create_def ex_state_def)
  from recursion_gate_create_delete [OF off, where pe = ev_create_y and s = ex_state and fuel = "Suc 0" and r = None
      and s' = ex_after_create, THEN conjunct2, THEN conjunct1] y1 y2 y3
  have y4: "\<exists>p. index ex_state (parentKey ev_create_y) = Some p \<and> Depth (heap ex_state p) = 0"
    by blast
  have a1: "maskBranch ev_modify_a = BModify"
    by (simp add: maskBranch_def ev_modify_a_def blankEvent_def)
  have a2: "index ex_state (fileKey ev_modify_a) = Some 1" "Depth (heap ex_state 1) = 1"
    "Path ?ep (Suc 0) (heap ex_state) 1 = Some ''/m/a''"
    by (simp_all add: ev_modify_a_def blankEvent_def ex_state_def ex_heap_def fileKey_def
        ex_proc_def slashJoin_def)
  have a3: "\<And>l em. Emitter ?ep l em = None"
    "emitted ex_state = []" "pool ex_state = []" "Meta_TID ev_modify_a = 7"
    by (simp_all add: ex_proc_def ex_state_def ev_modify_a_def blankEvent_def)
  from recursion_gate_create_delete [OF off, where pe = ev_modify_a and s = ex_state and fuel = "Suc 0"
      and op = IN_MODIFY and x = 1 and xpath = "''/m/a''", THEN conjunct2, THEN conjunct2]
    a1 a2(1,3)
  have "process ?ep (Suc 0) ex_state ev_modify_a =
      Some (Emitter ?ep (emitted ex_state) (''/m/a'', Meta_TID ev_modify_a, IN_MODIFY),
            ex_state\<lparr>emitted := emitted ex_state @ [(''/m/a'', Meta_TID ev_modify_a, IN_MODIFY)],
                      pool := pool ex_state @ [ev_modify_a]\<rparr>)"
    by blast
  then have modify: "process ?ep (Suc 0) ex_state ev_modify_a =
      Some (None, ex_state\<lparr>emitted := [(''/m/a'', 7, IN_MODIFY)], pool := [ev_modify_a]\<rparr>)"
    by (simp only: a3 append_Nil)
  from off h1 h2 h3 create d1 d2 d3 delete o1 o2 outside y1 y2 y3 y4 a1 a2 modify show ?thesis
    by (intro conjI)
qed

text \<open>
  C7 as stated fails: with recursion disabled, an Attrib event for \<^verbatim>\<open>x\<close>, which is
  cached at depth 2 under \<^verbatim>\<open>sub\<close> (depth 1), emits \<^verbatim>\<open>IN_ATTRIB\<close> at
  \<^verbatim>\<open>/m/sub/x\<close>: an event is generated for an entry that is not an immediate child of
  the monitored root.
\<close>

theorem recursion_gate_attrib_counterexample:
  "\<not> isRecursive (ex_proc False) \<and>
   maskBranch ev_attrib_x = BAttrib \<and>
   index ex_state (fileKey ev_attrib_x) = Some 3 \<and>
   Parent (heap ex_state 3) = Some 2 \<and> Depth (heap ex_state 2) = 1 \<and>
   Depth (heap ex_state 3) = 2 \<and>
   process (ex_proc False) (Suc (Suc 0)) ex_state ev_attrib_x =
     Some (None, ex_state\<lparr>emitted := [(''/m/sub/x'', 7, IN_ATTRIB)], pool := [ev_attrib_x]\<rparr>)"
  by (simp add: ex_proc_def ex_state_def ex_heap_def ev_attrib_x_def blankEvent_def fileKey_def
      process_def maskBranch_def process_Attrib_def Get_def slashJoin_def Emit_def
      releaseProbeEvent_def)

subsection \<open>Renames\<close>

text \<open>
  C1: a MoveFrom event that detaches the cached child X of an eligible cached parent,
  followed by a MoveTo event of the same TID whose destination parent P is cached and
  eligible, both return; afterwards the index still holds exactly X under X's key, X has
  parent P and the event's new name, P's name map points to X under that name and the old
  parent's does not under the old name (unless it is the same slot), the staging slot is
  empty, and the two calls have emitted exactly \<^verbatim>\<open>IN_MOVED_FROM\<close> at X's old path
  and then \<^verbatim>\<open>IN_MOVED_TO\<close> at the join of P's path and the new name. The walks
  and recursions are taken to end within the fuel, and P to lie outside the moved subtree.
\<close>

theorem rename_pair_moves_entry:
  assumes from_br: "maskBranch pe1 = BMoveFrom"
    and to_br: "maskBranch pe2 = BMoveTo"
    and same_tid: "Meta_TID pe2 = Meta_TID pe1"
    and from_parent: "index s (parentKey pe1) = Some q"
    and from_gate: "\<not> (1 \<le> Depth (heap s q) \<and> \<not> isRecursive ep)"
    and child: "GetChild (heap s) q (FileName pe1) = Some x"
    and child_link: "Parent (heap s x) = Some q" "Name (heap s x) = FileName pe1"
    and cached: "index s (entryKey (heap s x)) = Some x"
    and to_parent: "index s (parentKey pe2) = Some p"
    and to_gate: "\<not> (1 \<le> Depth (heap s p) \<and> \<not> isRecursive ep)"
    and x_path: "Path ep fuel (heap s) x = Some xpath"
    and x_down: "descend fuel (heap s) 0 x \<noteq> None"
    and p_outside: "p \<notin> subtree fuel (heap s) x"
    and p_path: "Path ep n (heap s) p = Some ppath"
    and x_above: "x \<notin> ancestors n (heap s) p"
    and fuel: "fuel = Suc n"
    and old: "\<forall>y. moveCache s (ucast (Meta_TID pe1)) = Some y \<longrightarrow> descend fuel (heap s) 0 y \<noteq> None"
  shows "\<exists>s1 s2.
           process ep fuel s pe1 =
             Some (Emitter ep (emitted s) (xpath, Meta_TID pe1, IN_MOVED_FROM), s1) \<and>
           process ep fuel s1 pe2 =
             Some (Emitter ep (emitted s1)
                     (pathJoin ep [ppath, FileName pe2], Meta_TID pe1, IN_MOVED_TO), s2) \<and>
           emitted s2 = emitted s @
             [(xpath, Meta_TID pe1, IN_MOVED_FROM),
              (pathJoin ep [ppath, FileName pe2], Meta_TID pe1, IN_MOVED_TO)] \<and>
           index s2 = index s \<and>
           index s2 (entryKey (heap s2 x)) = Some x \<and>
           Parent (heap s2 x) = Some p \<and>
           Name (heap s2 x) = FileName pe2 \<and>
           Path ep fuel (heap s2) x = Some (pathJoin ep [ppath, FileName pe2]) \<and>
           GetChild (heap s2) p (FileName pe2) = Some x \<and>
           GetChild (heap s2) q (FileName pe1) =
             (if q = p \<and> FileName pe1 = FileName pe2 then Some x else None) \<and>
           moveCache s2 (ucast (Meta_TID pe1)) = None"
proof -
  let ?t = "ucast (Meta_TID pe1) :: u64"
  let ?emFrom = "(xpath, Meta_TID pe1, IN_MOVED_FROM)"
  let ?emTo = "(pathJoin ep [ppath, FileName pe2], Meta_TID pe1, IN_MOVED_TO)"
  from x_down obtain dx where dx: "descend fuel (heap s) 0 x = Some dx" by blast
  with p_outside have p_out: "p \<notin> fst ` set dx" by (simp add: subtree_def)
  from p_path obtain cp where cp: "chain n (heap s) p = Some cp" by (blast dest: Path_chain)
  with x_above have x_out: "x \<notin> set cp" by (simp add: ancestors_def)
  from process_MoveFrom_child [OF from_br from_parent from_gate child x_path old]
  obtain R where
    step1: "process ep fuel s pe1 =
           Some (Emitter ep (emitted s) ?emFrom,
                 s\<lparr>heap := detach (heap s) x, moveCache := (moveCache s)(?t \<mapsto> x),
                   released := R, emitted := emitted s @ [?emFrom], pool := pool s @ [pe1]\<rparr>)"
    by blast
  define s1 where
    "s1 = s\<lparr>heap := detach (heap s) x, moveCache := (moveCache s)(?t \<mapsto> x),
            released := R, emitted := emitted s @ [?emFrom], pool := pool s @ [pe1]\<rparr>"
  have s1: "heap s1 = detach (heap s) x" "index s1 = index s"
    "moveCache s1 = (moveCache s)(?t \<mapsto> x)" "emitted s1 = emitted s @ [?emFrom]"
    by (simp_all add: s1_def)
  have par1: "index s1 (parentKey pe2) = Some p"
    using to_parent by (simp add: s1)
  have gate1: "\<not> (1 \<le> Depth (heap s1 p) \<and> \<not> isRecursive ep)"
    using to_gate by (simp add: s1)
  have staged1: "moveCache s1 (ucast (Meta_TID pe2)) = Some x"
    by (simp add: s1 same_tid)
  from descend_shrink [OF dx, of "detach (heap s) x" 0] obtain dx1 where
    dx1: "descend fuel (heap s1) 0 x = Some dx1" "fst ` set dx1 \<subseteq> fst ` set dx"
    using detach_Children_subset by (auto simp: s1)
  from dx1(2) p_out have p_out1: "p \<notin> fst ` set dx1" by blast
  from x_out have same: "\<forall>b\<in>set cp. Parent (heap s1 b) = Parent (heap s b) \<and>
                                  Name (heap s1 b) = Name (heap s b)"
    by (auto simp: s1 detach_Parent)
  then have "\<forall>b\<in>set cp. Parent (heap s1 b) = Parent (heap s b)" by blast
  with cp have up1: "chain n (heap s1) p = Some cp" by (rule chain_frame)
  from cp same have "Path ep n (heap s1) p = Path ep n (heap s) p" by (rule Path_frame)
  with p_path have path1: "Path ep n (heap s1) p = Some ppath" by simp
  from process_MoveTo_staged [OF to_br par1 gate1 staged1 dx1(1) p_out1 up1 path1 x_out fuel]
  obtain h where
    step2: "process ep fuel s1 pe2 =
           Some (Emitter ep (emitted s1)
                   (pathJoin ep [ppath, FileName pe2], Meta_TID pe2, IN_MOVED_TO),
                 s1\<lparr>heap := h,
                   emitted := emitted s1 @
                     [(pathJoin ep [ppath, FileName pe2], Meta_TID pe2, IN_MOVED_TO)],
                   moveCache := (moveCache s1)(ucast (Meta_TID pe2) := None),
                   pool := pool s1 @ [pe2]\<rparr>)"
    and hPath: "Path ep fuel h x = Some (pathJoin ep [ppath, FileName pe2])"
    and hP: "\<forall>b. Parent (h b) = (if b = x then Some p else Parent (heap s1 b))"
    and hN: "\<forall>b. Name (h b) = (if b = x then FileName pe2 else Name (heap s1 b))"
    and hC: "\<forall>b. Children (h b) =
                (if b = p then AList.update (FileName pe2) x (Children (heap s1 b))
                 else Children (heap s1 b))"
    and hK: "\<forall>b. entryKey (h b) = entryKey (heap s1 b)"
    by blast
  define s2 where
    "s2 = s1\<lparr>heap := h, emitted := emitted s1 @ [?emTo],
             moveCache := (moveCache s1)(?t := None), pool := pool s1 @ [pe2]\<rparr>"
  have step2': "process ep fuel s1 pe2 = Some (Emitter ep (emitted s1) ?emTo, s2)"
    using step2 by (simp add: same_tid s2_def)
  have s2: "heap s2 = h" "index s2 = index s" "emitted s2 = emitted s @ [?emFrom, ?emTo]"
    "moveCache s2 ?t = None"
    by (simp_all add: s2_def s1)
  have key: "index s2 (entryKey (heap s2 x)) = Some x"
    using cached hK by (simp add: s2 s1)
  have new_link: "GetChild (heap s2) p (FileName pe2) = Some x"
    using hC by (simp add: s2 GetChild_def update_conv')
  have "Children (heap s1 q) = AList.delete (FileName pe1) (Children (heap s q))"
    using child_link by (simp add: s1 detach_Children)
  with hC have old_link: "GetChild (heap s2) q (FileName pe1) =
             (if q = p \<and> FileName pe1 = FileName pe2 then Some x else None)"
    by (auto simp: s2 GetChild_def update_conv' delete_conv')
  from step1 step2' s2 key hP hN hPath new_link old_link show ?thesis
    unfolding s1_def [symmetric] by (intro exI [of _ s1] exI [of _ s2]) simp
qed

theorem rename_pair_moves_entry_witness:
  "maskBranch ev_moveFrom_a = BMoveFrom \<and> maskBranch ev_moveTo_b = BMoveTo \<and>
   Meta_TID ev_moveTo_b = Meta_TID ev_moveFrom_a \<and>
   index ex_state (parentKey ev_moveFrom_a) = Some 0 \<and>
   GetChild (heap ex_state) 0 (FileName ev_moveFrom_a) = Some 1 \<and>
   index ex_state (entryKey (heap ex_state 1)) = Some 1 \<and>
   index ex_state (parentKey ev_moveTo_b) = Some 0 \<and>
   Path (ex_proc False) (Suc 0) (heap ex_state) 1 = Some ''/m/a'' \<and>
   descend (Suc 0) (heap ex_state) 0 1 = Some [(1, 0)] \<and>
   0 \<notin> subtree (Suc 0) (heap ex_state) 1 \<and>
   Path (ex_proc False) 0 (heap ex_state) 0 = Some ''/m'' \<and>
   1 \<notin> ancestors 0 (heap ex_state) 0 \<and>
   (\<exists>s1 s2.
      process (ex_proc False) (Suc 0) ex_state ev_moveFrom_a = Some (None, s1) \<and>
      process (ex_proc False) (Suc 0) s1 ev_moveTo_b = Some (None, s2) \<and>
      emitted s2 = [(''/m/a'', 7, IN_MOVED_FROM), (''/m/b'', 7, IN_MOVED_TO)] \<and>
      index s2 = index ex_state \<and>
      index s2 (entryKey (heap s2 1)) = Some 1 \<and>
      Parent (heap s2 1) = Some 0 \<and>
      Name (heap s2 1) = ''b'' \<and>
      Path (ex_proc False) (Suc 0) (heap s2) 1 = Some ''/m/b'' \<and>
      GetChild (heap s2) 0 ''b'' = Some 1 \<and>
      GetChild (heap s2) 0 ''a'' = None \<and>
      moveCache s2 7 = None)"
proof -
  have h1: "maskBranch ev_moveFrom_a = BMoveFrom"
    by (simp add: maskBranch_def ev_moveFrom_a_def blankEvent_def)
  have h2: "maskBranch ev_moveTo_b = BMoveTo"
    by (simp add: maskBranch_def ev_moveTo_b_def blankEvent_def)
  have h3: "Meta_TID ev_moveTo_b = Meta_TID ev_moveFrom_a"
    by (simp add: ev_moveTo_b_def ev_moveFrom_a_def blankEvent_def)
  have h4: "index ex_state (parentKey ev_moveFrom_a) = Some 0"
    by (simp add: ex_state_def parentKey_def ev_moveFrom_a_def blankEvent_def)
  have h5: "\<not> (1 \<le> Depth (heap ex_state 0) \<and> \<not> isRecursive (ex_proc False))"
    by (simp add: ex_state_def ex_heap_def)
  have h6: "GetChild (heap ex_state) 0 (FileName ev_moveFrom_a) = Some 1"
    by (simp add: GetChild_def ex_state_def ex_heap_def ev_moveFrom_a_def blankEvent_def)
  have h7: "Parent (heap ex_state 1) = Some 0" "Name (heap ex_state 1) = FileName ev_moveFrom_a"
    by (simp_all add: ex_state_def ex_heap_def ev_moveFrom_a_def blankEvent_def)
  have h8: "index ex_state (entryKey (heap ex_state 1)) = Some 1"
    by (simp add: ex_state_def ex_heap_def entryKey_def)
  have h9: "index ex_state (parentKey ev_moveTo_b) = Some 0"
    by (simp add: ex_state_def parentKey_def ev_moveTo_b_def blankEvent_def)
  have h10: "Path (ex_proc False) (Suc 0) (heap ex_state) 1 = Some ''/m/a''"
    by (simp add: ex_state_def ex_heap_def ex_proc_def slashJoin_def)
  have h11: "descend (Suc 0) (heap ex_state) 0 1 = Some [(1, 0)]"
    by (simp add: ex_state_def ex_heap_def)
  have h11': "descend (Suc 0) (heap ex_state) 0 1 \<noteq> None"
    unfolding h11 by simp
  have h12: "0 \<notin> subtree (Suc 0) (heap ex_state) 1"
    unfolding subtree_def h11 by simp
  have h13: "Path (ex_proc False) 0 (heap ex_state) 0 = Some ''/m''"
    by (simp add: ex_state_def ex_heap_def)
  have h14: "1 \<notin> ancestors 0 (heap ex_state) 0"
    by (simp add: ancestors_def ex_state_def ex_heap_def)
  have h15: "\<forall>y. moveCache ex_state (ucast (Meta_TID ev_moveFrom_a)) = Some y \<longrightarrow>
               descend (Suc 0) (heap ex_state) 0 y \<noteq> None"
    by (simp add: ex_state_def)
  have v: "pathJoin (ex_proc False) [''/m'', ''b''] = ''/m/b''"
    "Meta_TID ev_moveFrom_a = 7" "FileName ev_moveTo_b = ''b''" "FileName ev_moveFrom_a = ''a''"
    "emitted ex_state = []" "\<And>l em. Emitter (ex_proc False) l em = None"
    by (simp_all add: ex_proc_def slashJoin_def ex_state_def ev_moveTo_b_def
        ev_moveFrom_a_def blankEvent_def)
  from rename_pair_moves_entry [OF h1 h2 h3 h4 h5 h6 h7 h8 h9 h5 h10 h11' h12 h13 h14 refl h15]
  have "\<exists>s1 s2.
      process (ex_proc False) (Suc 0) ex_state ev_moveFrom_a = Some (None, s1) \<and>
      process (ex_proc False) (Suc 0) s1 ev_moveTo_b = Some (None, s2) \<and>
      emitted s2 = [(''/m/a'', 7, IN_MOVED_FROM), (''/m/b'', 7, IN_MOVED_TO)] \<and>
      index s2 = index ex_state \<and>
      index s2 (entryKey (heap s2 1)) = Some 1 \<and>
      Parent (heap s2 1) = Some 0 \<and>
      Name (heap s2 1) = ''b'' \<and>
      Path (ex_proc False) (Suc 0) (heap s2) 1 = Some ''/m/b'' \<and>
      GetChild (heap s2) 0 ''b'' = Some 1 \<and>
      GetChild (heap s2) 0 ''a'' = None \<and>
      moveCache s2 7 = None"
    by (simp add: v del: Path.simps)
  with h1 h2 h3 h4 h6 h8 h9 h10 h11 h12 h13 h14 show ?thesis by blast
qed

subsection \<open>A rejected emission\<close>

text \<open>
  C8: when the emitter rejects the emission of a call, \<^verbatim>\<open>process\<close> returns the
  emitter's error, whichever case of the switch emitted; and the cache change made before
  the emission stays. A rejected Create returns the error with the new entry indexed under
  the event's key and attached under its parent (for a key that the index already holds the
  Add changed nothing, and the index is as before); a rejected Delete returns it with the
  entry evicted from the index and detached from its parent; a rejected MoveTo of a staged
  entry returns it with the entry attached under the new parent by its new name; a rejected
  Modify or Attrib returns it with the cache as before; a rejected MoveFrom returns it with
  the entry detached and staged for the event's TID; a rejected \<^verbatim>\<open>IN_MOVED_TO\<close> of
  a monitor record returns it with the event's key in the index. The walks and recursions
  made before the emission are taken to end within the fuel.
\<close>

theorem emit_error_returned_mutation_kept:
  assumes fail: "Emitter ep (emitted s) em = Some e"
  shows
    "(\<forall>r s'. process ep fuel s pe = Some (r, s') \<and> emitted s' = emitted s @ [em] \<longrightarrow> r = Some e) \<and>
     (maskBranch pe = BCreate \<and> index s (parentKey pe) = Some p \<and>
      \<not> (1 \<le> Depth (heap s p) \<and> \<not> isRecursive ep) \<and> index s (fileKey pe) = None \<and>
      Path ep n (heap s) p = Some ppath \<and> nextAddr s \<notin> ancestors n (heap s) p \<and>
      fuel = Suc n \<and> em = (pathJoin ep [ppath, FileName pe], Meta_TID pe, IN_CREATE)
      \<longrightarrow> (\<exists>s'. process ep fuel s pe = Some (Some e, s') \<and>
                index s' (fileKey pe) = Some (nextAddr s) \<and>
                entryKey (heap s' (nextAddr s)) = fileKey pe \<and>
                Parent (heap s' (nextAddr s)) = Some p \<and>
                GetChild (heap s') p (FileName pe) = Some (nextAddr s))) \<and>
     (maskBranch pe = BDelete \<and> index s (parentKey pe) = Some p \<and>
      \<not> (1 \<le> Depth (heap s p) \<and> \<not> isRecursive ep) \<and>
      GetChild (heap s) p (FileName pe) = Some x \<and>
      Parent (heap s x) = Some p \<and> Name (heap s x) = FileName pe \<and>
      Path ep fuel (heap s) x = Some xpath \<and> descend fuel (heap s) 0 x \<noteq> None \<and>
      em = (xpath, Meta_TID pe, IN_DELETE)
      \<longrightarrow> (\<exists>s'. process ep fuel s pe = Some (Some e, s') \<and>
                index s' (entryKey (heap s x)) = None \<and>
                Parent (heap s' x) = None \<and>
                GetChild (heap s') p (FileName pe) = None)) \<and>
     (maskBranch pe = BMoveTo \<and> index s (parentKey pe) = Some p \<and>
      \<not> (1 \<le> Depth (heap s p) \<and> \<not> isRecursive ep) \<and>
      moveCache s (ucast (Meta_TID pe)) = Some x \<and>
      descend fuel (heap s) 0 x \<noteq> None \<and> p \<notin> subtree fuel (heap s) x \<and>
      Path ep n (heap s) p = Some ppath \<and> x \<notin> ancestors n (heap s) p \<and> fuel = Suc n \<and>
      em = (pathJoin ep [ppath, FileName pe], Meta_TID pe, IN_MOVED_TO)
      \<longrightarrow> (\<exists>s'. process ep fuel s pe = Some (Some e, s') \<and>
                Parent (heap s' x) = Some p \<and>
                Name (heap s' x) = FileName pe \<and>
                GetChild (heap s') p (FileName pe) = Some x)) \<and>
     ((maskBranch pe = BModify \<and> op = IN_MODIFY \<or> maskBranch pe = BAttrib \<and> op = IN_ATTRIB) \<and>
      index s (fileKey pe) = Some x \<and> Path ep fuel (heap s) x = Some xpath \<and>
      em = (xpath, Meta_TID pe, op)
      \<longrightarrow> process ep fuel s pe =
            Some (Some e, s\<lparr>emitted := emitted s @ [em], pool := pool s @ [pe]\<rparr>)) \<and>
     (maskBranch pe = BMoveFrom \<and> index s (parentKey pe) = Some p \<and>
      \<not> (1 \<le> Depth (heap s p) \<and> \<not> isRecursive ep) \<and>
      GetChild (heap s) p (FileName pe) = Some x \<and>
      Path ep fuel (heap s) x = Some xpath \<and>
      (\<forall>y. moveCache s (ucast (Meta_TID pe)) = Some y \<longrightarrow> descend fuel (heap s) 0 y \<noteq> None) \<and>
      em = (xpath, Meta_TID pe, IN_MOVED_FROM)
      \<longrightarrow> (\<exists>s'. process ep fuel s pe = Some (Some e, s') \<and>
                moveCache s' (ucast (Meta_TID pe)) = Some x \<and>
                Parent (heap s' x) = None)) \<and>
     (maskBranch pe = BMonitor \<and>
      GetMonitorPath ep (FileIno pe) (FileDevMajor pe) (FileDevMinor pe) (FileName pe) =
        (mp, True) \<and>
      isFromMove mp \<and>
      (case index s (parentKey pe) of
         None \<Rightarrow> mpath = fullPath mp
       | Some q \<Rightarrow>
           (case index s (fileKey pe) of
              Some y \<Rightarrow> entryKey (heap s y) = fileKey pe \<and> Path ep fuel (heap s) y = Some mpath
            | None \<Rightarrow>
                fuel = Suc n \<and> nextAddr s \<notin> ancestors n (heap s) q \<and>
                Path ep n (heap s) q = Some ppath \<and>
                mpath = pathJoin ep [ppath, FileName pe])) \<and>
      em = (mpath, tid mp, IN_MOVED_TO)
      \<longrightarrow> (\<exists>s'. process ep fuel s pe = Some (Some e, s') \<and> index s' (fileKey pe) \<noteq> None)) \<and>
     (maskBranch pe = BCreate \<and> index s (parentKey pe) = Some p \<and>
      \<not> (1 \<le> Depth (heap s p) \<and> \<not> isRecursive ep) \<and> index s (fileKey pe) \<noteq> None \<and>
      em = (FileName pe, Meta_TID pe, IN_CREATE)
      \<longrightarrow> (\<exists>s'. process ep fuel s pe = Some (Some e, s') \<and> index s' = index s))"
proof (intro conjI allI impI; (elim conjE)?)
  fix r s'
  assume "process ep fuel s pe = Some (r, s')" "emitted s' = emitted s @ [em]"
  then show "r = Some e" using fail by (rule process_emit_error)
next
  assume h: "maskBranch pe = BCreate" "index s (parentKey pe) = Some p"
    "\<not> (1 \<le> Depth (heap s p) \<and> \<not> isRecursive ep)" "index s (fileKey pe) = None"
    and pp: "Path ep n (heap s) p = Some ppath"
    and fresh: "nextAddr s \<notin> ancestors n (heap s) p"
    and fuel: "fuel = Suc n"
    and em: "em = (pathJoin ep [ppath, FileName pe], Meta_TID pe, IN_CREATE)"
  from pp obtain cp where cp: "chain n (heap s) p = Some cp" by (blast dest: Path_chain)
  with fresh have "nextAddr s \<notin> set cp" by (simp add: ancestors_def)
  from process_Create_new [OF h cp pp this fuel] fail em
  show "\<exists>s'. process ep fuel s pe = Some (Some e, s') \<and>
                index s' (fileKey pe) = Some (nextAddr s) \<and>
                entryKey (heap s' (nextAddr s)) = fileKey pe \<and>
                Parent (heap s' (nextAddr s)) = Some p \<and>
                GetChild (heap s') p (FileName pe) = Some (nextAddr s)"
    by auto
next
  assume h: "maskBranch pe = BDelete" "index s (parentKey pe) = Some p"
    "\<not> (1 \<le> Depth (heap s p) \<and> \<not> isRecursive ep)"
    "GetChild (heap s) p (FileName pe) = Some x"
    and link: "Parent (heap s x) = Some p" "Name (heap s x) = FileName pe"
    and xp: "Path ep fuel (heap s) x = Some xpath"
    and down: "descend fuel (heap s) 0 x \<noteq> None"
    and em: "em = (xpath, Meta_TID pe, IN_DELETE)"
  from down obtain dx where dx: "descend fuel (heap s) 0 x = Some dx" by blast
  from process_Delete_child [OF h xp dx] obtain bs where
    run: "process ep fuel s pe =
           Some (Emitter ep (emitted s) em,
                 s\<lparr>heap := detach (heap s) x,
                   index := evict (detach (heap s) x) bs (index s),
                   released := released s \<union> set bs,
                   emitted := emitted s @ [em], pool := pool s @ [pe]\<rparr>)"
    and x_in: "x \<in> set bs"
    unfolding em by blast
  let ?s' = "s\<lparr>heap := detach (heap s) x, index := evict (detach (heap s) x) bs (index s),
                released := released s \<union> set bs,
                emitted := emitted s @ [em], pool := pool s @ [pe]\<rparr>"
  from x_in have "entryKey (heap s x) \<in> (\<lambda>b. entryKey (detach (heap s) x b)) ` set bs"
    by (auto simp: image_iff intro!: bexI [of _ x])
  then have "index ?s' (entryKey (heap s x)) = None"
    by (simp add: evict_apply)
  moreover have "Parent (heap ?s' x) = None"
    by (simp add: detach_Parent)
  moreover from link have "GetChild (heap ?s') p (FileName pe) = None"
    by (simp add: GetChild_def detach_Children delete_conv')
  ultimately show "\<exists>s'. process ep fuel s pe = Some (Some e, s') \<and>
                index s' (entryKey (heap s x)) = None \<and>
                Parent (heap s' x) = None \<and>
                GetChild (heap s') p (FileName pe) = None"
    using run fail by (intro exI [of _ ?s']) simp
next
  assume h: "maskBranch pe = BMoveTo" "index s (parentKey pe) = Some p"
    "\<not> (1 \<le> Depth (heap s p) \<and> \<not> isRecursive ep)"
    "moveCache s (ucast (Meta_TID pe)) = Some x"
    and down: "descend fuel (heap s) 0 x \<noteq> None"
    and p_outside: "p \<notin> subtree fuel (heap s) x"
    and pp: "Path ep n (heap s) p = Some ppath"
    and x_above: "x \<notin> ancestors n (heap s) p"
    and fuel: "fuel = Suc n"
    and em: "em = (pathJoin ep [ppath, FileName pe], Meta_TID pe, IN_MOVED_TO)"
  from down obtain dx where dx: "descend fuel (heap s) 0 x = Some dx" by blast
  with p_outside have p_out: "p \<notin> fst ` set dx" by (simp add: subtree_def)
  from pp obtain cp where cp: "chain n (heap s) p = Some cp" by (blast dest: Path_chain)
  with x_above have x_out: "x \<notin> set cp" by (simp add: ancestors_def)
  from process_MoveTo_staged [OF h dx p_out cp pp x_out fuel] fail em
  show "\<exists>s'. process ep fuel s pe = Some (Some e, s') \<and>
                Parent (heap s' x) = Some p \<and>
                Name (heap s' x) = FileName pe \<and>
                GetChild (heap s') p (FileName pe) = Some x"
    by (auto simp: GetChild_def update_conv')
next
  assume "maskBranch pe = BModify \<and> op = IN_MODIFY \<or> maskBranch pe = BAttrib \<and> op = IN_ATTRIB"
    and "index s (fileKey pe) = Some x" and "Path ep fuel (heap s) x = Some xpath"
    and "em = (xpath, Meta_TID pe, op)"
  with fail show "process ep fuel s pe =
            Some (Some e, s\<lparr>emitted := emitted s @ [em], pool := pool s @ [pe]\<rparr>)"
    by (auto simp: process_def process_Modify_def process_Attrib_def Get_def Emit_def
        releaseProbeEvent_def simp del: Path.simps)
next
  assume h: "maskBranch pe = BMoveFrom" "index s (parentKey pe) = Some p"
    "\<not> (1 \<le> Depth (heap s p) \<and> \<not> isRecursive ep)"
    "GetChild (heap s) p (FileName pe) = Some x"
    "Path ep fuel (heap s) x = Some xpath"
    "\<forall>y. moveCache s (ucast (Meta_TID pe)) = Some y \<longrightarrow> descend fuel (heap s) 0 y \<noteq> None"
    and em: "em = (xpath, Meta_TID pe, IN_MOVED_FROM)"
  from process_MoveFrom_child [OF h] fail em
  show "\<exists>s'. process ep fuel s pe = Some (Some e, s') \<and>
                moveCache s' (ucast (Meta_TID pe)) = Some x \<and>
                Parent (heap s' x) = None"
    by (auto simp: detach_Parent)
next
  assume br: "maskBranch pe = BMonitor"
    and ack: "GetMonitorPath ep (FileIno pe) (FileDevMajor pe) (FileDevMinor pe) (FileName pe) =
        (mp, True)"
    and mv: "isFromMove mp"
    and at: "case index s (parentKey pe) of
         None \<Rightarrow> mpath = fullPath mp
       | Some q \<Rightarrow>
           (case index s (fileKey pe) of
              Some y \<Rightarrow> entryKey (heap s y) = fileKey pe \<and> Path ep fuel (heap s) y = Some mpath
            | None \<Rightarrow>
                fuel = Suc n \<and> nextAddr s \<notin> ancestors n (heap s) q \<and>
                Path ep n (heap s) q = Some ppath \<and>
                mpath = pathJoin ep [ppath, FileName pe])"
    and em: "em = (mpath, tid mp, IN_MOVED_TO)"
  show "\<exists>s'. process ep fuel s pe = Some (Some e, s') \<and> index s' (fileKey pe) \<noteq> None"
  proof (cases "index s (parentKey pe)")
    case None
    with at have mpath: "mpath = fullPath mp" by simp
    from process_Monitor_root [OF br ack None, of fuel] mv fail em mpath
    show ?thesis by (auto split: if_splits)
  next
    case (Some q)
    show ?thesis
    proof (cases "index s (fileKey pe)")
      case fNone: None
      with at Some have fuel: "fuel = Suc n" and fresh: "nextAddr s \<notin> ancestors n (heap s) q"
        and pp: "Path ep n (heap s) q = Some ppath"
        and mpath: "mpath = pathJoin ep [ppath, FileName pe]"
        by simp_all
      from pp obtain cp where cp: "chain n (heap s) q = Some cp" by (blast dest: Path_chain)
      with fresh have "nextAddr s \<notin> set cp" by (simp add: ancestors_def)
      from process_Monitor_new [OF br ack Some fNone cp pp this fuel] mv fail em mpath
      show ?thesis by auto
    next
      case fSome: (Some y)
      with at Some have key: "entryKey (heap s y) = fileKey pe"
        and path: "Path ep fuel (heap s) y = Some mpath"
        by simp_all
      from process_Monitor_dup [OF br ack Some fSome key path] mv fail em fSome
      show ?thesis by auto
    qed
  qed
next
  assume h: "maskBranch pe = BCreate" "index s (parentKey pe) = Some p"
    "\<not> (1 \<le> Depth (heap s p) \<and> \<not> isRecursive ep)" "index s (fileKey pe) \<noteq> None"
    and em: "em = (FileName pe, Meta_TID pe, IN_CREATE)"
  from process_Create_dup [OF h, of fuel] fail em
  show "\<exists>s'. process ep fuel s pe = Some (Some e, s') \<and> index s' = index s"
    by simp
qed

theorem emit_error_returned_mutation_kept_witness:
  "(process (ex_proc_failing False) (Suc 0) ex_state ev_modify_a =
      Some (Some (EmitFailure ''sink down''),
            ex_state\<lparr>emitted := [(''/m/a'', 7, IN_MODIFY)], pool := [ev_modify_a]\<rparr>) \<and>
    Emitter (ex_proc_failing False) (emitted ex_state) (''/m/a'', 7, IN_MODIFY) =
      Some (EmitFailure ''sink down'')) \<and>
   (maskBranch ev_create_y = BCreate \<and> index ex_state (parentKey ev_create_y) = Some 0 \<and>
    index ex_state (fileKey ev_create_y) = None \<and>
    Path (ex_proc_failing False) 0 (heap ex_state) 0 = Some ''/m'' \<and>
    nextAddr ex_state \<notin> ancestors 0 (heap ex_state) 0 \<and>
    Emitter (ex_proc_failing False) (emitted ex_state) (''/m/y'', 7, IN_CREATE) =
      Some (EmitFailure ''sink down'') \<and>
    (\<exists>s'. process (ex_proc_failing False) (Suc 0) ex_state ev_create_y =
             Some (Some (EmitFailure ''sink down''), s') \<and>
           index s' (DKey 9 0 0) = Some 4 \<and> entryKey (heap s' 4) = DKey 9 0 0 \<and>
           Parent (heap s' 4) = Some 0 \<and>
           GetChild (heap s') 0 ''y'' = Some 4)) \<and>
   (maskBranch ev_delete_sub = BDelete \<and> index ex_state (parentKey ev_delete_sub) = Some 0 \<and>
    GetChild (heap ex_state) 0 (FileName ev_delete_sub) = Some 2 \<and>
    Path (ex_proc_failing False) (Suc 0) (heap ex_state) 2 = Some ''/m/sub'' \<and>
    descend (Suc 0) (heap ex_state) 0 2 = Some [(2, 0), (3, 1)] \<and>
    Emitter (ex_proc_failing False) (emitted ex_state) (''/m/sub'', 7, IN_DELETE) =
      Some (EmitFailure ''sink down'') \<and>
    (\<exists>s'. process (ex_proc_failing False) (Suc 0) ex_state ev_delete_sub =
             Some (Some (EmitFailure ''sink down''), s') \<and>
           index s' (DKey 3 0 0) = None \<and> Parent (heap s' 2) = None \<and>
           GetChild (heap s') 0 ''sub'' = None)) \<and>
   (maskBranch ev_moveTo_b = BMoveTo \<and> index ex_staged (parentKey ev_moveTo_b) = Some 0 \<and>
    moveCache ex_staged (ucast (Meta_TID ev_moveTo_b)) = Some 1 \<and>
    descend (Suc 0) (heap ex_staged) 0 1 = Some [(1, 0)] \<and>
    0 \<notin> subtree (Suc 0) (heap ex_staged) 1 \<and>
    Path (ex_proc_failing False) 0 (heap ex_staged) 0 = Some ''/m'' \<and>
    1 \<notin> ancestors 0 (heap ex_staged) 0 \<and>
    Emitter (ex_proc_failing False) (emitted ex_staged) (''/m/b'', 7, IN_MOVED_TO) =
      Some (EmitFailure ''sink down'') \<and>
    (\<exists>s'. process (ex_proc_failing False) (Suc 0) ex_staged ev_moveTo_b =
             Some (Some (EmitFailure ''sink down''), s') \<and>
           Parent (heap s' 1) = Some 0 \<and> Name (heap s' 1) = ''b'' \<and>
           GetChild (heap s') 0 ''b'' = Some 1)) \<and>
   (maskBranch ev_attrib_x = BAttrib \<and> index ex_state (fileKey ev_attrib_x) = Some 3 \<and>
    Path (ex_proc_failing False) (Suc (Suc 0)) (heap ex_state) 3 = Some ''/m/sub/x'' \<and>
    process (ex_proc_failing False) (Suc (Suc 0)) ex_state ev_attrib_x =
      Some (Some (EmitFailure ''sink down''),
            ex_state\<lparr>emitted := [(''/m/sub/x'', 7, IN_ATTRIB)], pool := [ev_attrib_x]\<rparr>)) \<and>
   (maskBranch ev_moveFrom_a = BMoveFrom \<and> index ex_state (parentKey ev_moveFrom_a) = Some 0 \<and>
    GetChild (heap ex_state) 0 (FileName ev_moveFrom_a) = Some 1 \<and>
    Path (ex_proc_failing False) (Suc 0) (heap ex_state) 1 = Some ''/m/a'' \<and>
    moveCache ex_state (ucast (Meta_TID ev_moveFrom_a)) = None \<and>
    (\<exists>s'. process (ex_proc_failing False) (Suc 0) ex_state ev_moveFrom_a =
             Some (Some (EmitFailure ''sink down''), s') \<and>
           moveCache s' 7 = Some 1 \<and> Parent (heap s' 1) = None)) \<and>
   (maskBranch ev_monitor_w = BMonitor \<and>
    GetMonitorPath (ex_proc_failing False) (FileIno ev_monitor_w) (FileDevMajor ev_monitor_w)
      (FileDevMinor ev_monitor_w) (FileName ev_monitor_w) =
      (\<lparr>fullPath = ''/n'', depth = 2, isFromMove = True, tid = 9\<rparr>, True) \<and>
    index ex_state (parentKey ev_monitor_w) = Some 2 \<and>
    index ex_state (fileKey ev_monitor_w) = None \<and>
    nextAddr ex_state \<notin> ancestors (Suc 0) (heap ex_state) 2 \<and>
    Path (ex_proc_failing False) (Suc 0) (heap ex_state) 2 = Some ''/m/sub'' \<and>
    (\<exists>s'. process (ex_proc_failing False) (Suc (Suc 0)) ex_state ev_monitor_w =
             Some (Some (EmitFailure ''sink down''), s') \<and>
           index s' (DKey 10 0 0) \<noteq> None)) \<and>
   (maskBranch ev_create_dup = BCreate \<and> index ex_state (parentKey ev_create_dup) = Some 0 \<and>
    index ex_state (fileKey ev_create_dup) = Some 1 \<and>
    (\<exists>s'. process (ex_proc_failing False) 0 ex_state ev_create_dup =
             Some (Some (EmitFailure ''sink down''), s') \<and>
           index s' = index ex_state))"
proof -
  let ?ep = "ex_proc_failing False"
  let ?e = "EmitFailure ''sink down''"
  have gate: "\<not> (1 \<le> Depth (heap ex_state 0) \<and> \<not> isRecursive ?ep)"
    "\<not> (1 \<le> Depth (heap ex_staged 0) \<and> \<not> isRecursive ?ep)"
    by (simp_all add: ex_state_def ex_staged_def ex_heap_def detach_def)
  have fail: "\<And>l em. Emitter ?ep l em = Some ?e"
    by (simp add: ex_proc_failing_def ex_proc_def)
  have c: "maskBranch ev_create_y = BCreate" "index ex_state (parentKey ev_create_y) = Some 0"
    "index ex_state (fileKey ev_create_y) = None"
    "Path ?ep 0 (heap ex_state) 0 = Some ''/m''"
    "nextAddr ex_state \<notin> ancestors 0 (heap ex_state) 0"
    by (simp_all add: maskBranch_def ev_create_y_def blankEvent_def ex_state_def ex_heap_def
        parentKey_def fileKey_def ancestors_def)
  have cv: "pathJoin ?ep [''/m'', ''y''] = ''/m/y''"
    "Meta_TID ev_create_y = 7" "FileName ev_create_y = ''y''" "nextAddr ex_state = 4"
    "fileKey ev_create_y = DKey 9 0 0"
    by (simp_all add: ex_proc_failing_def ex_proc_def slashJoin_def ev_create_y_def
        blankEvent_def ex_state_def fileKey_def)
  have "\<exists>s'. process ?ep (Suc 0) ex_state ev_create_y = Some (Some ?e, s') \<and>
           index s' (fileKey ev_create_y) = Some (nextAddr ex_state) \<and>
           entryKey (heap s' (nextAddr ex_state)) = fileKey ev_create_y \<and>
           Parent (heap s' (nextAddr ex_state)) = Some 0 \<and>
           GetChild (heap s') 0 (FileName ev_create_y) = Some (nextAddr ex_state)"
    using emit_error_returned_mutation_kept [OF fail, where pe = ev_create_y and s = ex_state
        and fuel = "Suc 0" and n = 0 and p = 0 and ppath = "''/m''",
        THEN conjunct2, THEN conjunct1] c gate(1)
    by simp
  then have create: "\<exists>s'. process ?ep (Suc 0) ex_state ev_create_y = Some (Some ?e, s') \<and>
           index s' (DKey 9 0 0) = Some 4 \<and> entryKey (heap s' 4) = DKey 9 0 0 \<and>
           Parent (heap s' 4) = Some 0 \<and>
           GetChild (heap s') 0 ''y'' = Some 4"
    by (simp add: cv)
  have d: "maskBranch ev_delete_sub = BDelete" "index ex_state (parentKey ev_delete_sub) = Some 0"
    "GetChild (heap ex_state) 0 (FileName ev_delete_sub) = Some 2"
    "Parent (heap ex_state 2) = Some 0" "Name (heap ex_state 2) = FileName ev_delete_sub"
    "Path ?ep (Suc 0) (heap ex_state) 2 = Some ''/m/sub''"
    "descend (Suc 0) (heap ex_state) 0 2 = Some [(2, 0), (3, 1)]"
    by (simp_all add: maskBranch_def ev_delete_sub_def blankEvent_def ex_state_def ex_heap_def
        parentKey_def GetChild_def ex_proc_failing_def ex_proc_def slashJoin_def)
  have d': "descend (Suc 0) (heap ex_state) 0 2 \<noteq> None"
    unfolding d(7) by simp
  have dv: "Meta_TID ev_delete_sub = 7" "FileName ev_delete_sub = ''sub''"
    "entryKey (heap ex_state 2) = DKey 3 0 0"
    by (simp_all add: ev_delete_sub_def blankEvent_def ex_state_def ex_heap_def entryKey_def)
  have "\<exists>s'. process ?ep (Suc 0) ex_state ev_delete_sub = Some (Some ?e, s') \<and>
           index s' (entryKey (heap ex_state 2)) = None \<and> Parent (heap s' 2) = None \<and>
           GetChild (heap s') 0 (FileName ev_delete_sub) = None"
    using emit_error_returned_mutation_kept [OF fail, where pe = ev_delete_sub and s = ex_state
        and fuel = "Suc 0" and p = 0 and x = 2 and xpath = "''/m/sub''",
        THEN conjunct2, THEN conjunct2, THEN conjunct1] d(1-6) d' gate(1)
    by simp
  then have delete: "\<exists>s'. process ?ep (Suc 0) ex_state ev_delete_sub = Some (Some ?e, s') \<and>
           index s' (DKey 3 0 0) = None \<and> Parent (heap s' 2) = None \<and>
           GetChild (heap s') 0 ''sub'' = None"
    by (simp add: dv)
  have m: "maskBranch ev_moveTo_b = BMoveTo" "index ex_staged (parentKey ev_moveTo_b) = Some 0"
    "moveCache ex_staged (ucast (Meta_TID ev_moveTo_b)) = Some 1"
    "descend (Suc 0) (heap ex_staged) 0 1 = Some [(1, 0)]"
    "Path ?ep 0 (heap ex_staged) 0 = Some ''/m''"
    "1 \<notin> ancestors 0 (heap ex_staged) 0"
    by (simp_all add: maskBranch_def ev_moveTo_b_def blankEvent_def ex_staged_def ex_state_def
        ex_heap_def parentKey_def detach_def ancestors_def)
  have m': "descend (Suc 0) (heap ex_staged) 0 1 \<noteq> None"
    "0 \<notin> subtree (Suc 0) (heap ex_staged) 1"
    unfolding subtree_def m(4) by simp_all
  have mv: "pathJoin ?ep [''/m'', ''b''] = ''/m/b''"
    "Meta_TID ev_moveTo_b = 7" "FileName ev_moveTo_b = ''b''"
    by (simp_all add: ex_proc_failing_def ex_proc_def slashJoin_def ev_moveTo_b_def
        blankEvent_def)
  have "\<exists>s'. process ?ep (Suc 0) ex_staged ev_moveTo_b = Some (Some ?e, s') \<and>
           Parent (heap s' 1) = Some 0 \<and> Name (heap s' 1) = FileName ev_moveTo_b \<and>
           GetChild (heap s') 0 (FileName ev_moveTo_b) = Some 1"
    using emit_error_returned_mutation_kept [OF fail, where pe = ev_moveTo_b and s = ex_staged
        and fuel = "Suc 0" and n = 0 and p = 0 and x = 1 and ppath = "''/m''",
        THEN conjunct2, THEN conjunct2, THEN conjunct2, THEN conjunct1] m(1-3,5,6) m' gate(2)
    by simp
  then have moveTo: "\<exists>s'. process ?ep (Suc 0) ex_staged ev_moveTo_b = Some (Some ?e, s') \<and>
           Parent (heap s' 1) = Some 0 \<and> Name (heap s' 1) = ''b'' \<and>
           GetChild (heap s') 0 ''b'' = Some 1"
    by (simp add: mv)
  let ?s' = "ex_state\<lparr>emitted := [(''/m/a'', 7, IN_MODIFY)], pool := [ev_modify_a]\<rparr>"
  have run: "process ?ep (Suc 0) ex_state ev_modify_a = Some (Some ?e, ?s')"
    by (simp add: process_def maskBranch_def ev_modify_a_def blankEvent_def process_Modify_def
        Get_def fileKey_def ex_state_def ex_heap_def ex_proc_failing_def ex_proc_def
        slashJoin_def Emit_def releaseProbeEvent_def)
  have log: "emitted ?s' = emitted ex_state @ [(''/m/a'', 7, IN_MODIFY)]"
    by (simp add: ex_state_def)
  have "Some ?e = Some ?e"
    using emit_error_returned_mutation_kept [OF fail, where pe = ev_modify_a and s = ex_state
        and fuel = "Suc 0" and em = "(''/m/a'', 7, IN_MODIFY)", THEN conjunct1]
      run log by blast
  with run have modify: "process ?ep (Suc 0) ex_state ev_modify_a = Some (Some ?e, ?s')"
    by simp
  have at: "maskBranch ev_attrib_x = BAttrib" "index ex_state (fileKey ev_attrib_x) = Some 3"
    "Path ?ep (Suc (Suc 0)) (heap ex_state) 3 = Some ''/m/sub/x''"
    by (simp_all add: maskBranch_def ev_attrib_x_def blankEvent_def ex_state_def ex_heap_def
        fileKey_def ex_proc_failing_def ex_proc_def slashJoin_def)
  have atv: "Meta_TID ev_attrib_x = 7" "emitted ex_state = []" "pool ex_state = []"
    by (simp_all add: ev_attrib_x_def blankEvent_def ex_state_def)
  have "process ?ep (Suc (Suc 0)) ex_state ev_attrib_x =
      Some (Some ?e, ex_state\<lparr>emitted := emitted ex_state @ [(''/m/sub/x'', 7, IN_ATTRIB)],
                              pool := pool ex_state @ [ev_attrib_x]\<rparr>)"
    using emit_error_returned_mutation_kept [OF fail, where pe = ev_attrib_x and s = ex_state
        and fuel = "Suc (Suc 0)" and op = IN_ATTRIB and x = 3 and xpath = "''/m/sub/x''"
        and em = "(''/m/sub/x'', 7, IN_ATTRIB)",
        THEN conjunct2, THEN conjunct2, THEN conjunct2, THEN conjunct2, THEN conjunct1]
      at atv(1)
    by (simp del: Path.simps)
  then have attrib: "process ?ep (Suc (Suc 0)) ex_state ev_attrib_x =
      Some (Some ?e, ex_state\<lparr>emitted := [(''/m/sub/x'', 7, IN_ATTRIB)],
                              pool := [ev_attrib_x]\<rparr>)"
    by (simp only: atv append_Nil)
  have f: "maskBranch ev_moveFrom_a = BMoveFrom" "index ex_state (parentKey ev_moveFrom_a) = Some 0"
    "GetChild (heap ex_state) 0 (FileName ev_moveFrom_a) = Some 1"
    "Path ?ep (Suc 0) (heap ex_state) 1 = Some ''/m/a''"
    "moveCache ex_state (ucast (Meta_TID ev_moveFrom_a)) = None"
    by (simp_all add: maskBranch_def ev_moveFrom_a_def blankEvent_def ex_state_def ex_heap_def
        parentKey_def GetChild_def ex_proc_failing_def ex_proc_def slashJoin_def)
  have f': "\<forall>y. moveCache ex_state (ucast (Meta_TID ev_moveFrom_a)) = Some y \<longrightarrow>
      descend (Suc 0) (heap ex_state) 0 y \<noteq> None"
    by (simp add: f(5))
  have fv: "Meta_TID ev_moveFrom_a = 7"
    by (simp add: ev_moveFrom_a_def blankEvent_def)
  have "\<exists>s'. process ?ep (Suc 0) ex_state ev_moveFrom_a = Some (Some ?e, s') \<and>
           moveCache s' (ucast (Meta_TID ev_moveFrom_a)) = Some 1 \<and> Parent (heap s' 1) = None"
    using emit_error_returned_mutation_kept [OF fail, where pe = ev_moveFrom_a and s = ex_state
        and fuel = "Suc 0" and p = 0 and x = 1 and xpath = "''/m/a''"
        and em = "(''/m/a'', 7, IN_MOVED_FROM)",
        THEN conjunct2, THEN conjunct2, THEN conjunct2, THEN conjunct2, THEN conjunct2,
        THEN conjunct1]
      f(1-4) f' fv gate(1)
    by (simp del: Path.simps descend.simps)
  then have moveFrom: "\<exists>s'. process ?ep (Suc 0) ex_state ev_moveFrom_a = Some (Some ?e, s') \<and>
           moveCache s' 7 = Some 1 \<and> Parent (heap s' 1) = None"
    by (simp add: fv)
  let ?mp = "\<lparr>fullPath = ''/n'', depth = 2, isFromMove = True, tid = 9\<rparr>"
  have w: "maskBranch ev_monitor_w = BMonitor"
    "GetMonitorPath ?ep (FileIno ev_monitor_w) (FileDevMajor ev_monitor_w)
      (FileDevMinor ev_monitor_w) (FileName ev_monitor_w) = (?mp, True)"
    "index ex_state (parentKey ev_monitor_w) = Some 2"
    "index ex_state (fileKey ev_monitor_w) = None"
    "nextAddr ex_state \<notin> ancestors (Suc 0) (heap ex_state) 2"
    "Path ?ep (Suc 0) (heap ex_state) 2 = Some ''/m/sub''"
    by (simp_all add: maskBranch_def ev_monitor_w_def blankEvent_def ex_state_def ex_heap_def
        parentKey_def fileKey_def ancestors_def ex_proc_failing_def ex_proc_def slashJoin_def)
  have wv: "pathJoin ?ep [''/m/sub'', FileName ev_monitor_w] = ''/m/sub/w''"
    "fileKey ev_monitor_w = DKey 10 0 0"
    by (simp_all add: ex_proc_failing_def ex_proc_def slashJoin_def ev_monitor_w_def
        blankEvent_def fileKey_def)
  have w': "case index ex_state (parentKey ev_monitor_w) of
         None \<Rightarrow> ''/m/sub/w'' = fullPath ?mp
       | Some q \<Rightarrow>
           (case index ex_state (fileKey ev_monitor_w) of
              Some y \<Rightarrow> entryKey (heap ex_state y) = fileKey ev_monitor_w \<and>
                Path ?ep (Suc (Suc 0)) (heap ex_state) y = Some ''/m/sub/w''
            | None \<Rightarrow>
                Suc (Suc 0) = Suc (Suc 0) \<and> nextAddr ex_state \<notin> ancestors (Suc 0) (heap ex_state) q \<and>
                Path ?ep (Suc 0) (heap ex_state) q = Some ''/m/sub'' \<and>
                ''/m/sub/w'' = pathJoin ?ep [''/m/sub'', FileName ev_monitor_w])"
    unfolding w(3,4) wv(1) using w(5,6) by (simp del: Path.simps)
  have "\<exists>s'. process ?ep (Suc (Suc 0)) ex_state ev_monitor_w = Some (Some ?e, s') \<and>
           index s' (fileKey ev_monitor_w) \<noteq> None"
    using emit_error_returned_mutation_kept [OF fail, where pe = ev_monitor_w and s = ex_state
        and fuel = "Suc (Suc 0)" and n = "Suc 0" and mp = ?mp and mpath = "''/m/sub/w''"
        and ppath = "''/m/sub''" and em = "(''/m/sub/w'', 9, IN_MOVED_TO)",
        THEN conjunct2, THEN conjunct2, THEN conjunct2, THEN conjunct2, THEN conjunct2,
        THEN conjunct2, THEN conjunct1]
      w(1,2) w'
    by (simp del: Path.simps)
  then have monitor: "\<exists>s'. process ?ep (Suc (Suc 0)) ex_state ev_monitor_w =
             Some (Some ?e, s') \<and> index s' (DKey 10 0 0) \<noteq> None"
    by (simp only: wv(2))
  have u: "maskBranch ev_create_dup = BCreate" "index ex_state (parentKey ev_create_dup) = Some 0"
    "index ex_state (fileKey ev_create_dup) = Some 1"
    by (simp_all add: maskBranch_def ev_create_dup_def blankEvent_def ex_state_def parentKey_def
        fileKey_def)
  have uv: "FileName ev_create_dup = ''a2''" "Meta_TID ev_create_dup = 7"
    by (simp_all add: ev_create_dup_def blankEvent_def)
  have dup: "\<exists>s'. process ?ep 0 ex_state ev_create_dup = Some (Some ?e, s') \<and>
           index s' = index ex_state"
    using emit_error_returned_mutation_kept [OF fail, where pe = ev_create_dup and s = ex_state
        and fuel = 0 and p = 0 and em = "(''a2'', 7, IN_CREATE)",
        THEN conjunct2, THEN conjunct2, THEN conjunct2, THEN conjunct2, THEN conjunct2,
        THEN conjunct2, THEN conjunct2]
      u uv gate(1)
    by simp
  from modify create delete moveTo c d(1-3,6,7) m(1-6) m'(2) fail at attrib f moveFrom
    w monitor u dup
  show ?thesis
    by (intro conjI)
qed

subsection \<open>The index\<close>

lemma Release_index: "Release fuel s a = Some s' \<Longrightarrow> index s' = index s"
  by (auto simp: Release_def split: option.splits)

lemma MoveClear_index: "MoveClear fuel s t = Some s' \<Longrightarrow> index s' = index s"
  by (auto simp: MoveClear_def split: option.splits dest!: Release_index)

lemma MoveFrom_index: "MoveFrom fuel s t a = Some s' \<Longrightarrow> index s' = index s"
  by (auto simp: MoveFrom_def Let_def split: option.splits dest!: Release_index)

lemma MoveTo_index:
  "MoveTo ep fuel s t p n (\<lambda>path s'. Emit ep s' path pid op) = Some (r, s') \<Longrightarrow> index s' = index s"
  by (auto simp: MoveTo_def Let_def Emit_def split: option.splits)

lemma Remove_index: "Remove fuel s a = Some s' \<Longrightarrow> index s' k = Some b \<Longrightarrow> index s k = Some b"
  by (auto simp: Remove_def Let_def evict_apply split: option.splits if_splits
      dest!: Release_index)

lemma process_Modify_index: "process_Modify ep fuel s pe = Some (r, s') \<Longrightarrow> index s' = index s"
  by (auto simp: process_Modify_def Emit_def split: option.splits)

lemma process_Attrib_index: "process_Attrib ep fuel s pe = Some (r, s') \<Longrightarrow> index s' = index s"
  by (auto simp: process_Attrib_def Emit_def split: option.splits)

lemma process_MoveFrom_index: "process_MoveFrom ep fuel s pe = Some (r, s') \<Longrightarrow> index s' = index s"
  by (auto simp: process_MoveFrom_def Let_def Emit_def
      split: if_splits option.splits dest!: MoveClear_index MoveFrom_index)

lemma process_MoveTo_index: "process_MoveTo ep fuel s pe = Some (r, s') \<Longrightarrow> index s' = index s"
  by (auto simp: process_MoveTo_def Let_def WalkAsync_def
      split: if_splits option.splits prod.splits dest!: MoveClear_index MoveTo_index)

lemma process_Delete_index:
  "process_Delete ep fuel s pe = Some (r, s') \<Longrightarrow> index s' k = Some b \<Longrightarrow> index s k = Some b"
  by (auto simp: process_Delete_def Let_def Emit_def
      split: if_splits option.splits prod.splits dest!: Release_index dest: Remove_index)

lemma attach_Depth_self:
  "Depth (attach st a p a) = Depth ((st(a := (st a)\<lparr>Parent := Some p\<rparr>)) p) + 1"
  by (simp add: attach_def Let_def)

lemma process_Create_depth:
  assumes "process_Create ep fuel s pe = Some (r, s')"
    and "\<not> isRecursive ep"
    and "index s' k = Some a"
    and "index s k \<noteq> Some a"
  shows "Depth (heap s' a) = 1"
proof -
  from assms(1) obtain p where p: "index s (parentKey pe) = Some p"
    and gate: "\<not> (1 \<le> Depth (heap s p) \<and> \<not> isRecursive ep)"
    using assms(3,4)
    by (auto simp: process_Create_def Get_def split: option.splits if_splits)
  from gate assms(2) have d0: "Depth (heap s p) = 0"
    by (simp add: not_le)
  let ?e = "\<lparr>Name = FileName pe, Ino = FileIno pe, DevMajor = FileDevMajor pe,
             DevMinor = FileDevMinor pe, Depth = 0, Parent = None, Children = []\<rparr>"
  let ?s1 = "s\<lparr>heap := (heap s)(nextAddr s := ?e), nextAddr := Suc (nextAddr s)\<rparr>"
  from assms(1) p gate have s': "heap s' = heap (Add ?s1 (nextAddr s) (Some p))"
    "index s' = index (Add ?s1 (nextAddr s) (Some p))"
    by (auto simp: process_Create_def Get_def newEntry_def Let_def Emit_def
        split: option.splits)
  show ?thesis
  proof (cases "index s (fileKey pe)")
    case None
    with assms(3,4) have ka: "a = nextAddr s"
      by (auto simp: s' Add_def Let_def entryKey_def fileKey_def split: if_splits)
    from None have "heap s' = attach ((heap s)(nextAddr s := ?e)) (nextAddr s) p"
      by (simp add: s' Add_def Let_def entryKey_def fileKey_def)
    then show ?thesis
      using d0 by (simp add: ka attach_Depth_self)
  next
    case (Some b)
    then have "index s' = index s"
      by (simp add: s' Add_def Let_def entryKey_def fileKey_def)
    with assms(3,4) show ?thesis by simp
  qed
qed

subsection \<open>Depths of new entries\<close>

text \<open>
  C2, as amended: with recursion disabled, a call of \<^verbatim>\<open>process\<close> on an event
  other than a monitor record puts a new entry into the index only at depth 1 (a Create
  under a parent of depth 0). A monitor record is not gated: the entry it creates has the
  depth the traverser supplied when the event's parent is not cached, and the cached
  parent's depth plus one when it is.
\<close>

theorem creation_depth_without_recursion:
  assumes "\<not> isRecursive ep"
  shows "(maskBranch pe \<noteq> BMonitor \<and> process ep fuel s pe = Some (r, s') \<and>
          index s' k = Some a \<and> index s k \<noteq> Some a
          \<longrightarrow> Depth (heap s' a) = 1) \<and>
         (maskBranch pe = BMonitor \<and>
          GetMonitorPath ep (FileIno pe) (FileDevMajor pe) (FileDevMinor pe) (FileName pe) =
            (mp, True) \<and>
          index s (fileKey pe) = None \<and> index s (parentKey pe) \<noteq> Some (nextAddr s) \<and>
          process ep fuel s pe = Some (r, s')
          \<longrightarrow> index s' (fileKey pe) = Some (nextAddr s) \<and>
              Depth (heap s' (nextAddr s)) =
                (case index s (parentKey pe) of
                   None \<Rightarrow> depth mp
                 | Some p \<Rightarrow> Depth (heap s p) + 1))"
proof (rule conjI; rule impI; elim conjE)
  assume br: "maskBranch pe \<noteq> BMonitor"
    and run: "process ep fuel s pe = Some (r, s')"
    and k: "index s' k = Some a" "index s k \<noteq> Some a"
  from run obtain s0 where s0: "index s' = index s0" "heap s' = heap s0"
    and body: "(case maskBranch pe of
          BMonitor \<Rightarrow> process_Monitor ep fuel s pe
        | BCreate \<Rightarrow> process_Create ep fuel s pe
        | BModify \<Rightarrow> process_Modify ep fuel s pe
        | BAttrib \<Rightarrow> process_Attrib ep fuel s pe
        | BMoveFrom \<Rightarrow> process_MoveFrom ep fuel s pe
        | BMoveTo \<Rightarrow> process_MoveTo ep fuel s pe
        | BDelete \<Rightarrow> process_Delete ep fuel s pe
        | BDefault \<Rightarrow> Some (Some UnknownEventType, s)) = Some (r, s0)"
    by (auto simp: process_def releaseProbeEvent_def)
  show "Depth (heap s' a) = 1"
  proof (cases "maskBranch pe")
    case BCreate
    with body have "process_Create ep fuel s pe = Some (r, s0)" by simp
    from process_Create_depth [OF this assms] k show ?thesis by (simp add: s0)
  next
    case BDelete
    with body have "process_Delete ep fuel s pe = Some (r, s0)" by simp
    from process_Delete_index [OF this] k show ?thesis by (simp add: s0)
  qed (use br body k in \<open>auto simp: s0 dest!: process_Modify_index process_Attrib_index
        process_MoveFrom_index process_MoveTo_index\<close>)
next
  assume br: "maskBranch pe = BMonitor"
    and mp: "GetMonitorPath ep (FileIno pe) (FileDevMajor pe) (FileDevMinor pe) (FileName pe) =
            (mp, True)"
    and new: "index s (fileKey pe) = None"
    and alloc: "index s (parentKey pe) \<noteq> Some (nextAddr s)"
    and run: "process ep fuel s pe = Some (r, s')"
  from run br mp new alloc
  show "index s' (fileKey pe) = Some (nextAddr s) \<and>
        Depth (heap s' (nextAddr s)) =
          (case index s (parentKey pe) of None \<Rightarrow> depth mp | Some p \<Rightarrow> Depth (heap s p) + 1)"
    by (auto simp: process_def releaseProbeEvent_def process_Monitor_def Get_def newEntry_def
        Let_def Add_def entryKey_def fileKey_def Emit_def attach_Depth
        split: option.splits if_splits)
qed

theorem creation_depth_without_recursion_witness:
  "\<not> isRecursive (ex_proc False) \<and>
   (maskBranch ev_create_y \<noteq> BMonitor \<and>
    process (ex_proc False) (Suc 0) ex_state ev_create_y = Some (None, ex_after_create) \<and>
    index ex_after_create (DKey 9 0 0) = Some 4 \<and> index ex_state (DKey 9 0 0) \<noteq> Some 4 \<and>
    Depth (heap ex_after_create 4) = 1) \<and>
   (maskBranch ev_monitor_n = BMonitor \<and>
    GetMonitorPath (ex_proc False) (FileIno ev_monitor_n) (FileDevMajor ev_monitor_n)
      (FileDevMinor ev_monitor_n) (FileName ev_monitor_n) =
      (\<lparr>fullPath = ''/n'', depth = 2, isFromMove = True, tid = 9\<rparr>, True) \<and>
    index ex_empty (fileKey ev_monitor_n) = None \<and>
    index ex_empty (parentKey ev_monitor_n) = None \<and>
    process (ex_proc False) 0 ex_empty ev_monitor_n = Some (None, ex_after_monitor) \<and>
    index ex_after_monitor (fileKey ev_monitor_n) = Some (nextAddr ex_empty) \<and>
    Depth (heap ex_after_monitor (nextAddr ex_empty)) = 2)"
proof -
  have rec: "\<not> isRecursive (ex_proc False)"
    by (simp add: ex_proc_def)
  have c1: "maskBranch ev_create_y \<noteq> BMonitor"
    by (simp add: maskBranch_def ev_create_y_def blankEvent_def)
  have c2: "process (ex_proc False) (Suc 0) ex_state ev_create_y = Some (None, ex_after_create)"
    by (simp add: ex_proc_def ex_state_def ev_create_y_def blankEvent_def ex_after_create_def
      fileKey_def parentKey_def entryKey_def process_def maskBranch_def process_Create_def
      Get_def newEntry_def Add_def slashJoin_def Emit_def releaseProbeEvent_def
      ex_heap_def attach_def Let_def)
  have c3: "index ex_after_create (DKey 9 0 0) = Some 4" "index ex_state (DKey 9 0 0) \<noteq> Some 4"
    by (simp_all add: ex_after_create_def ex_state_def)
  from creation_depth_without_recursion [OF rec, where pe = ev_create_y and s = ex_state
      and fuel = "Suc 0" and r = None and s' = ex_after_create and k = "DKey 9 0 0" and a = 4,
      THEN conjunct1] c1 c2 c3
  have c4: "Depth (heap ex_after_create 4) = 1" by blast
  have m1: "maskBranch ev_monitor_n = BMonitor"
    by (simp add: maskBranch_def ev_monitor_n_def blankEvent_def)
  have m2: "GetMonitorPath (ex_proc False) (FileIno ev_monitor_n) (FileDevMajor ev_monitor_n)
      (FileDevMinor ev_monitor_n) (FileName ev_monitor_n) =
      (\<lparr>fullPath = ''/n'', depth = 2, isFromMove = True, tid = 9\<rparr>, True)"
    by (simp add: ex_proc_def)
  have m3: "index ex_empty (fileKey ev_monitor_n) = None"
    "index ex_empty (parentKey ev_monitor_n) = None"
    "index ex_empty (parentKey ev_monitor_n) \<noteq> Some (nextAddr ex_empty)"
    by (simp_all add: ex_empty_def)
  have m4: "process (ex_proc False) 0 ex_empty ev_monitor_n = Some (None, ex_after_monitor)"
    by (simp add: ex_proc_def ex_empty_def ev_monitor_n_def blankEvent_def ex_after_monitor_def
      fileKey_def parentKey_def entryKey_def process_def maskBranch_def process_Monitor_def
      Get_def newEntry_def Add_def slashJoin_def Emit_def releaseProbeEvent_def)
  from creation_depth_without_recursion [OF rec, where pe = ev_monitor_n and s = ex_empty
      and fuel = 0 and r = None and s' = ex_after_monitor
      and mp = "\<lparr>fullPath = ''/n'', depth = 2, isFromMove = True, tid = 9\<rparr>",
      THEN conjunct2] m1 m2 m3 m4
  have m5: "index ex_after_monitor (fileKey ev_monitor_n) = Some (nextAddr ex_empty) \<and>
    Depth (heap ex_after_monitor (nextAddr ex_empty)) = 2"
    by simp
  from rec c1 c2 c3 c4 m1 m2 m3(1,2) m4 m5 show ?thesis by blast
qed

text \<open>
  C2 as stated fails: on the cache of a new processor with recursion disabled, a monitor
  record that the traverser acknowledges at depth 2 creates an index entry of depth 2.
\<close>

theorem monitor_entry_depth_counterexample:
  "\<not> isRecursive (ex_proc False) \<and>
   index ex_empty (fileKey ev_monitor_n) = None \<and>
   process (ex_proc False) 0 ex_empty ev_monitor_n = Some (None, ex_after_monitor) \<and>
   index ex_after_monitor (fileKey ev_monitor_n) = Some 0 \<and>
   2 \<le> Depth (heap ex_after_monitor 0)"
  by (simp add: ex_proc_def ex_empty_def ev_monitor_n_def blankEvent_def ex_after_monitor_def
      fileKey_def parentKey_def entryKey_def process_def maskBranch_def process_Monitor_def
      Get_def newEntry_def Add_def slashJoin_def Emit_def releaseProbeEvent_def)

subsection \<open>Repeated monitor records\<close>

text \<open>
  C9, as amended: a monitor record that the traverser acknowledges, for a key that the index
  already holds, returns and leaves the index, the staging slots and every entry of the heap
  as they were (only a fresh, unreferenced root record is allocated when the event's parent
  is not cached). Nothing is emitted when \<^verbatim>\<open>isFromMove\<close> is false; when it is
  set, exactly one \<^verbatim>\<open>IN_MOVED_TO\<close> with the monitor record's TID is emitted: at the
  path of the cached entry when the event's parent is cached, and at the traverser's full
  path when it is not. The index is taken to hold, under the event's key, an entry of that
  key, and the walk up from it to end within the fuel.
\<close>

theorem monitor_duplicate_keeps_cache:
  assumes br: "maskBranch pe = BMonitor"
    and ack: "GetMonitorPath ep (FileIno pe) (FileDevMajor pe) (FileDevMinor pe) (FileName pe) =
                (mp, True)"
    and dup: "index s (fileKey pe) = Some x"
    and key: "entryKey (heap s x) = fileKey pe"
    and up: "index s (parentKey pe) \<noteq> None \<longrightarrow> isFromMove mp \<longrightarrow>
               Path ep fuel (heap s) x = Some xpath"
  shows "\<exists>s'. process ep fuel s pe =
                Some (if isFromMove mp
                      then Emitter ep (emitted s)
                             (if index s (parentKey pe) = None then fullPath mp else xpath,
                              tid mp, IN_MOVED_TO)
                      else None, s') \<and>
              index s' = index s \<and> moveCache s' = moveCache s \<and>
              (\<forall>a. a \<noteq> nextAddr s \<longrightarrow> heap s' a = heap s a) \<and>
              (index s (parentKey pe) \<noteq> None \<longrightarrow> heap s' = heap s) \<and>
              released s' = released s \<and> walks s' = walks s \<and>
              emitted s' = emitted s @
                (if isFromMove mp
                 then [(if index s (parentKey pe) = None then fullPath mp else xpath,
                        tid mp, IN_MOVED_TO)]
                 else [])"
proof (cases "index s (parentKey pe)")
  case None
  let ?e = "\<lparr>Name = fullPath mp, Ino = FileIno pe, DevMajor = FileDevMajor pe,
             DevMinor = FileDevMinor pe, Depth = depth mp, Parent = None, Children = []\<rparr>"
  let ?s1 = "s\<lparr>heap := (heap s)(nextAddr s := ?e), nextAddr := Suc (nextAddr s)\<rparr>"
  from dup have add: "Add ?s1 (nextAddr s) None = ?s1"
    by (simp add: Add_def Let_def entryKey_def fileKey_def)
  have path: "Path ep fuel (heap ?s1) (nextAddr s) = Some (fullPath mp)"
    by (cases fuel) simp_all
  from br ack None add path show ?thesis
    by (cases "isFromMove mp")
      (simp_all add: process_def process_Monitor_def Get_def newEntry_def Emit_def
        releaseProbeEvent_def)
next
  case (Some p)
  from dup key have add: "Add s x (Some p) = s"
    by (simp add: Add_def Let_def)
  show ?thesis
  proof (cases "isFromMove mp")
    case True
    with up Some have "Path ep fuel (heap s) x = Some xpath"
      by simp
    with br ack Some dup add True show ?thesis
      by (simp add: process_def process_Monitor_def Get_def Emit_def releaseProbeEvent_def)
  next
    case False
    with br ack Some dup add show ?thesis
      by (simp add: process_def process_Monitor_def Get_def releaseProbeEvent_def)
  qed
qed

theorem monitor_duplicate_keeps_cache_witness:
  "(maskBranch ev_monitor_a = BMonitor \<and>
    GetMonitorPath (ex_proc False) (FileIno ev_monitor_a) (FileDevMajor ev_monitor_a)
      (FileDevMinor ev_monitor_a) (FileName ev_monitor_a) =
      (\<lparr>fullPath = ''/n'', depth = 2, isFromMove = True, tid = 9\<rparr>, True) \<and>
    index ex_state (fileKey ev_monitor_a) = Some 1 \<and>
    entryKey (heap ex_state 1) = fileKey ev_monitor_a \<and>
    index ex_state (parentKey ev_monitor_a) = Some 0 \<and>
    Path (ex_proc False) (Suc 0) (heap ex_state) 1 = Some ''/m/a'' \<and>
    (\<exists>s'. process (ex_proc False) (Suc 0) ex_state ev_monitor_a = Some (None, s') \<and>
           index s' = index ex_state \<and> moveCache s' = moveCache ex_state \<and>
           heap s' = heap ex_state \<and> emitted s' = [(''/m/a'', 9, IN_MOVED_TO)])) \<and>
   (maskBranch ev_monitor_root = BMonitor \<and>
    index ex_state (fileKey ev_monitor_root) = Some 0 \<and>
    entryKey (heap ex_state 0) = fileKey ev_monitor_root \<and>
    index ex_state (parentKey ev_monitor_root) = None \<and>
    (\<exists>s'. process (ex_proc False) 0 ex_state ev_monitor_root = Some (None, s') \<and>
           index s' = index ex_state \<and> moveCache s' = moveCache ex_state \<and>
           (\<forall>a. a \<noteq> 4 \<longrightarrow> heap s' a = heap ex_state a) \<and>
           emitted s' = [(''/n'', 9, IN_MOVED_TO)]))"
proof -
  let ?mp = "\<lparr>fullPath = ''/n'', depth = 2, isFromMove = True, tid = 9\<rparr>"
  have a1: "maskBranch ev_monitor_a = BMonitor"
    by (simp add: maskBranch_def ev_monitor_a_def blankEvent_def)
  have a2: "GetMonitorPath (ex_proc False) (FileIno ev_monitor_a) (FileDevMajor ev_monitor_a)
      (FileDevMinor ev_monitor_a) (FileName ev_monitor_a) = (?mp, True)"
    by (simp add: ex_proc_def)
  have a3: "index ex_state (fileKey ev_monitor_a) = Some 1"
    by (simp add: ex_state_def fileKey_def ev_monitor_a_def blankEvent_def)
  have a4: "entryKey (heap ex_state 1) = fileKey ev_monitor_a"
    by (simp add: ex_state_def ex_heap_def entryKey_def fileKey_def ev_monitor_a_def
        blankEvent_def)
  have a5: "index ex_state (parentKey ev_monitor_a) = Some 0"
    by (simp add: ex_state_def parentKey_def ev_monitor_a_def blankEvent_def)
  have a6: "Path (ex_proc False) (Suc 0) (heap ex_state) 1 = Some ''/m/a''"
    by (simp add: ex_state_def ex_heap_def ex_proc_def slashJoin_def)
  have a7: "index ex_state (parentKey ev_monitor_a) \<noteq> None \<longrightarrow> isFromMove ?mp \<longrightarrow>
               Path (ex_proc False) (Suc 0) (heap ex_state) 1 = Some ''/m/a''"
    using a6 by simp
  have av: "\<And>l em. Emitter (ex_proc False) l em = None" "emitted ex_state = []"
    by (simp_all add: ex_proc_def ex_state_def)
  from monitor_duplicate_keeps_cache [OF a1 a2 a3 a4 a7] a5
  have a8: "\<exists>s'. process (ex_proc False) (Suc 0) ex_state ev_monitor_a = Some (None, s') \<and>
           index s' = index ex_state \<and> moveCache s' = moveCache ex_state \<and>
           heap s' = heap ex_state \<and> emitted s' = [(''/m/a'', 9, IN_MOVED_TO)]"
    by (auto simp: av)
  have r1: "maskBranch ev_monitor_root = BMonitor"
    by (simp add: maskBranch_def ev_monitor_root_def blankEvent_def)
  have r2: "GetMonitorPath (ex_proc False) (FileIno ev_monitor_root) (FileDevMajor ev_monitor_root)
      (FileDevMinor ev_monitor_root) (FileName ev_monitor_root) = (?mp, True)"
    by (simp add: ex_proc_def)
  have r3: "index ex_state (fileKey ev_monitor_root) = Some 0"
    by (simp add: ex_state_def fileKey_def ev_monitor_root_def blankEvent_def)
  have r4: "entryKey (heap ex_state 0) = fileKey ev_monitor_root"
    by (simp add: ex_state_def ex_heap_def entryKey_def fileKey_def ev_monitor_root_def
        blankEvent_def)
  have r5: "index ex_state (parentKey ev_monitor_root) = None"
    by (simp add: ex_state_def parentKey_def ev_monitor_root_def blankEvent_def)
  have r7: "index ex_state (parentKey ev_monitor_root) \<noteq> None \<longrightarrow> isFromMove ?mp \<longrightarrow>
               Path (ex_proc False) 0 (heap ex_state) 0 = Some []"
    using r5 by simp
  have rv: "nextAddr ex_state = 4"
    by (simp add: ex_state_def)
  from monitor_duplicate_keeps_cache [OF r1 r2 r3 r4 r7] r5
  have r8: "\<exists>s'. process (ex_proc False) 0 ex_state ev_monitor_root = Some (None, s') \<and>
           index s' = index ex_state \<and> moveCache s' = moveCache ex_state \<and>
           (\<forall>a. a \<noteq> 4 \<longrightarrow> heap s' a = heap ex_state a) \<and>
           emitted s' = [(''/n'', 9, IN_MOVED_TO)]"
    by (auto simp: av rv)
  from a1 a2 a3 a4 a5 a6 a8 r1 r3 r4 r5 r8 show ?thesis by (intro conjI)
qed

text \<open>
  C9 as stated fails: when the event's parent is not cached, the emission is at the
  traverser's full path and not at the path of the cached entry. For the cached root
  \<^verbatim>\<open>/m\<close> (inode 1), a monitor record that the traverser acknowledges as
  \<^verbatim>\<open>/n\<close> emits \<^verbatim>\<open>IN_MOVED_TO\<close> at \<^verbatim>\<open>/n\<close>, while the path of the cached
  entry is \<^verbatim>\<open>/m\<close> before and after the call.
\<close>

theorem monitor_duplicate_path_counterexample:
  "maskBranch ev_monitor_root = BMonitor \<and>
   GetMonitorPath (ex_proc False) (FileIno ev_monitor_root) (FileDevMajor ev_monitor_root)
     (FileDevMinor ev_monitor_root) (FileName ev_monitor_root) =
     (\<lparr>fullPath = ''/n'', depth = 2, isFromMove = True, tid = 9\<rparr>, True) \<and>
   index ex_state (fileKey ev_monitor_root) = Some 0 \<and>
   Path (ex_proc False) 0 (heap ex_state) 0 = Some ''/m'' \<and>
   process (ex_proc False) 0 ex_state ev_monitor_root = Some (None, ex_after_remonitor) \<and>
   emitted ex_after_remonitor = emitted ex_state @ [(''/n'', 9, IN_MOVED_TO)] \<and>
   index ex_after_remonitor = index ex_state \<and>
   Path (ex_proc False) 0 (heap ex_after_remonitor) 0 = Some ''/m''"
  by (simp add: ex_proc_def ex_state_def ex_heap_def ev_monitor_root_def blankEvent_def
      ex_after_remonitor_def fileKey_def parentKey_def entryKey_def process_def maskBranch_def
      process_Monitor_def Get_def newEntry_def Add_def slashJoin_def Emit_def
      releaseProbeEvent_def)

subsection \<open>More fuel\<close>

text \<open>
  The fuel only bounds the walks and recursions: a call that returns with some fuel returns
  the same with any larger fuel.
\<close>

lemma Path_Suc: "Path ep n st a \<noteq> None \<Longrightarrow> Path ep (Suc n) st a = Path ep n st a"
proof (induction n arbitrary: a)
  case 0
  then show ?case by (auto split: option.splits)
next
  case (Suc n)
  show ?case
  proof (cases "Parent (st a)")
    case None
    then show ?thesis by simp
  next
    case (Some p)
    with Suc.prems have "Path ep n st p \<noteq> None" by auto
    then have "Path ep (Suc n) st p = Path ep n st p" by (rule Suc.IH)
    with Some show ?thesis by (simp del: Path.simps add: Path.simps(2) [of ep "Suc n"] Path.simps(2) [of ep n])
  qed
qed

lemma descend_Suc: "descend n st d a \<noteq> None \<Longrightarrow> descend (Suc n) st d a = descend n st d a"
proof (induction n arbitrary: d a)
  case 0
  then show ?case by (auto split: if_splits)
next
  case (Suc n)
  let ?cs = "map snd (Children (st a))"
  from Suc.prems obtain rs where
    rs: "those (map (descend n st (d + 1)) ?cs) = Some rs"
    by auto
  have "map (descend (Suc n) st (d + 1)) ?cs = map (descend n st (d + 1)) ?cs"
  proof (rule map_cong [OF refl])
    fix c assume "c \<in> set ?cs"
    with rs obtain r where "descend n st (d + 1) c = Some r"
      by (blast dest: those_map_member)
    then have "descend n st (d + 1) c \<noteq> None" by simp
    then show "descend (Suc n) st (d + 1) c = descend n st (d + 1) c"
      by (rule Suc.IH)
  qed
  then show ?case by (simp only: descend.simps)
qed

lemma Release_Suc: "Release n s a \<noteq> None \<Longrightarrow> Release (Suc n) s a = Release n s a"
proof -
  assume "Release n s a \<noteq> None"
  then have "descend n (heap s) 0 a \<noteq> None"
    by (auto simp: Release_def split: option.splits)
  then have "descend (Suc n) (heap s) 0 a = descend n (heap s) 0 a" by (rule descend_Suc)
  then show ?thesis by (simp only: Release_def)
qed

lemma Remove_Suc: "Remove n s a \<noteq> None \<Longrightarrow> Remove (Suc n) s a = Remove n s a"
proof -
  assume r: "Remove n s a \<noteq> None"
  then obtain ds where ds: "descend n (detach (heap s) a) 0 a = Some ds"
    by (auto simp: Remove_def Let_def split: option.splits)
  then have "descend n (detach (heap s) a) 0 a \<noteq> None" by simp
  then have d: "descend (Suc n) (detach (heap s) a) 0 a = descend n (detach (heap s) a) 0 a"
    by (rule descend_Suc)
  let ?s1 = "s\<lparr>heap := detach (heap s) a,
                index := evict (detach (heap s) a) (map fst ds) (index s)\<rparr>"
  from r ds have "Release n ?s1 a \<noteq> None"
    by (simp add: Remove_def Let_def)
  then have "Release (Suc n) ?s1 a = Release n ?s1 a" by (rule Release_Suc)
  with ds d show ?thesis by (simp add: Remove_def Let_def del: descend.simps)
qed

lemma MoveClear_Suc: "MoveClear n s t \<noteq> None \<Longrightarrow> MoveClear (Suc n) s t = MoveClear n s t"
  by (cases "moveCache s t") (simp_all add: MoveClear_def Release_Suc)

lemma MoveFrom_Suc: "MoveFrom n s t a \<noteq> None \<Longrightarrow> MoveFrom (Suc n) s t a = MoveFrom n s t a"
proof (cases "moveCache s t")
  case None
  then show ?thesis by (simp add: MoveFrom_def Let_def)
next
  case (Some y)
  assume "MoveFrom n s t a \<noteq> None"
  with Some have "Release n (s\<lparr>heap := detach (heap s) a\<rparr>) y \<noteq> None"
    by (auto simp: MoveFrom_def Let_def split: option.splits)
  then have "Release (Suc n) (s\<lparr>heap := detach (heap s) a\<rparr>) y =
             Release n (s\<lparr>heap := detach (heap s) a\<rparr>) y"
    by (rule Release_Suc)
  with Some show ?thesis by (simp add: MoveFrom_def Let_def)
qed

lemma MoveTo_Suc:
  "MoveTo ep n s t p N emit \<noteq> None \<Longrightarrow> MoveTo ep (Suc n) s t p N emit = MoveTo ep n s t p N emit"
proof (cases "moveCache s t")
  case None
  then show ?thesis by (simp add: MoveTo_def)
next
  case (Some x)
  let ?st3 = "reattach (heap s) x N p"
  assume m: "MoveTo ep n s t p N emit \<noteq> None"
  with Some obtain ds where ds: "descend n ?st3 (Depth (?st3 p) + 1) x = Some ds"
    by (auto simp: MoveTo_def Let_def split: option.splits)
  then have "descend n ?st3 (Depth (?st3 p) + 1) x \<noteq> None" by simp
  then have d: "descend (Suc n) ?st3 (Depth (?st3 p) + 1) x = descend n ?st3 (Depth (?st3 p) + 1) x"
    by (rule descend_Suc)
  from m Some ds have "Path ep n (fixDepths ds ?st3) x \<noteq> None"
    by (auto simp: MoveTo_def Let_def split: option.splits)
  then have "Path ep (Suc n) (fixDepths ds ?st3) x = Path ep n (fixDepths ds ?st3) x"
    by (rule Path_Suc)
  with Some ds d show ?thesis
    by (simp add: MoveTo_def Let_def del: descend.simps Path.simps)
qed

lemma process_Monitor_Suc:
  "process_Monitor ep n s pe \<noteq> None \<Longrightarrow>
   process_Monitor ep (Suc n) s pe = process_Monitor ep n s pe"
  by (auto simp: process_Monitor_def Let_def Path_Suc simp del: Path.simps
      split: prod.splits if_splits option.splits)

lemma process_Create_Suc:
  "process_Create ep n s pe \<noteq> None \<Longrightarrow>
   process_Create ep (Suc n) s pe = process_Create ep n s pe"
  by (auto simp: process_Create_def Let_def Path_Suc simp del: Path.simps
      split: prod.splits if_splits option.splits)

lemma process_Modify_Suc:
  "process_Modify ep n s pe \<noteq> None \<Longrightarrow>
   process_Modify ep (Suc n) s pe = process_Modify ep n s pe"
  by (auto simp: process_Modify_def Path_Suc simp del: Path.simps split: option.splits)

lemma process_Attrib_Suc:
  "process_Attrib ep n s pe \<noteq> None \<Longrightarrow>
   process_Attrib ep (Suc n) s pe = process_Attrib ep n s pe"
  by (auto simp: process_Attrib_def Path_Suc simp del: Path.simps split: option.splits)

lemma process_MoveFrom_Suc:
  "process_MoveFrom ep n s pe \<noteq> None \<Longrightarrow>
   process_MoveFrom ep (Suc n) s pe = process_MoveFrom ep n s pe"
  by (auto simp: process_MoveFrom_def Let_def Path_Suc MoveClear_Suc MoveFrom_Suc
      simp del: Path.simps split: if_splits option.splits)

lemma process_MoveTo_Suc:
  assumes "process_MoveTo ep n s pe \<noteq> None"
  shows "process_MoveTo ep (Suc n) s pe = process_MoveTo ep n s pe"
proof -
  let ?t = "ucast (Meta_TID pe) :: u64"
  let ?emit = "\<lambda>path s'. Emit ep s' path (Meta_TID pe) IN_MOVED_TO"
  have clear: "MoveClear (Suc n) s ?t = MoveClear n s ?t" if "MoveClear n s ?t \<noteq> None"
    using that by (rule MoveClear_Suc)
  show ?thesis
  proof (cases "Get s (parentKey pe)")
    case None
    with assms have "MoveClear n s ?t \<noteq> None" by (simp add: process_MoveTo_def)
    with None show ?thesis by (simp add: process_MoveTo_def clear)
  next
    case (Some p)
    show ?thesis
    proof (cases "1 \<le> Depth (heap s p) \<and> \<not> isRecursive ep")
      case True
      with assms Some have "MoveClear n s ?t \<noteq> None" by (simp add: process_MoveTo_def)
      with Some True show ?thesis by (simp add: process_MoveTo_def clear)
    next
      case False
      then have gate: "(1 \<le> Depth (heap s p) \<and> \<not> isRecursive ep) = False"
        by simp
      from False assms Some have m: "MoveTo ep n s ?t p (FileName pe) ?emit \<noteq> None"
        by (auto simp: process_MoveTo_def split: option.splits)
      then have m': "MoveTo ep (Suc n) s ?t p (FileName pe) ?emit =
                     MoveTo ep n s ?t p (FileName pe) ?emit"
        by (rule MoveTo_Suc)
      from m obtain moved err s1 where
        r: "MoveTo ep n s ?t p (FileName pe) ?emit = Some ((moved, err), s1)"
        by (cases "MoveTo ep n s ?t p (FileName pe) ?emit") auto
      show ?thesis
      proof (cases "err = None \<and> \<not> moved")
        case True
        with assms Some False r have "Path ep n (heap s1) p \<noteq> None"
          by (auto simp: process_MoveTo_def split: option.splits)
        then have "Path ep (Suc n) (heap s1) p = Path ep n (heap s1) p" by (rule Path_Suc)
        with Some r m' True show ?thesis
          by (simp add: process_MoveTo_def gate del: Path.simps)
      next
        case other: False
        with Some r m' show ?thesis
          by (cases err) (simp_all add: process_MoveTo_def gate del: Path.simps)
      qed
    qed
  qed
qed

lemma process_Delete_Suc:
  assumes "process_Delete ep n s pe \<noteq> None"
  shows "process_Delete ep (Suc n) s pe = process_Delete ep n s pe"
proof (cases "Get s (parentKey pe)")
  case None
  then show ?thesis by (simp add: process_Delete_def)
next
  case (Some p)
  show ?thesis
  proof (cases "(1 \<le> Depth (heap s p) \<and> \<not> isRecursive ep) \<or>
                GetChild (heap s) p (FileName pe) = None")
    case True
    with Some show ?thesis by (auto simp: process_Delete_def)
  next
    case False
    then obtain x where x: "GetChild (heap s) p (FileName pe) = Some x"
      and gate: "(1 \<le> Depth (heap s p) \<and> \<not> isRecursive ep) = False"
      by auto
    from assms Some x gate obtain xpath where path: "Path ep n (heap s) x = Some xpath"
      by (auto simp: process_Delete_def split: option.splits)
    then have "Path ep n (heap s) x \<noteq> None" by simp
    then have path': "Path ep (Suc n) (heap s) x = Path ep n (heap s) x" by (rule Path_Suc)
    from assms Some x gate path obtain s1 where rem: "Remove n s x = Some s1"
      by (auto simp: process_Delete_def split: option.splits)
    then have "Remove n s x \<noteq> None" by simp
    then have rem': "Remove (Suc n) s x = Remove n s x" by (rule Remove_Suc)
    obtain err s2 where em: "Emit ep s1 xpath (Meta_TID pe) IN_DELETE = (err, s2)"
      by (cases "Emit ep s1 xpath (Meta_TID pe) IN_DELETE") auto
    show ?thesis
    proof (cases err)
      case None
      with assms Some x gate path rem em have "Release n s2 x \<noteq> None"
        by (auto simp: process_Delete_def)
      then have "Release (Suc n) s2 x = Release n s2 x" by (rule Release_Suc)
      with Some x path path' rem rem' em None show ?thesis
        by (simp add: process_Delete_def gate del: Path.simps)
    next
      case (Some e)
      with \<open>Get s (parentKey pe) = Some p\<close> x path path' rem rem' em show ?thesis
        by (simp add: process_Delete_def gate del: Path.simps)
    qed
  qed
qed

lemma process_Suc: "process ep n s pe \<noteq> None \<Longrightarrow> process ep (Suc n) s pe = process ep n s pe"
  by (auto simp: process_def process_Monitor_Suc process_Create_Suc process_Modify_Suc
      process_Attrib_Suc process_MoveFrom_Suc process_MoveTo_Suc process_Delete_Suc
      split: branch.splits)

lemma process_more_fuel:
  "process ep n s pe = Some r \<Longrightarrow> n \<le> m \<Longrightarrow> process ep m s pe = Some r"
proof (induction m)
  case 0
  then show ?case by simp
next
  case (Suc m)
  show ?case
  proof (cases "n = Suc m")
    case True
    with Suc.prems show ?thesis by simp
  next
    case False
    with Suc have "process ep m s pe = Some r" by simp
    then show ?thesis by (simp add: process_Suc)
  qed
qed

subsection \<open>Every call returns the event\<close>

lemma MoveClear_returns:
  assumes "\<forall>y. moveCache s t = Some y \<longrightarrow> descend fuel (heap s) 0 y \<noteq> None"
  shows "\<exists>s'. MoveClear fuel s t = Some s'"
proof (cases "moveCache s t")
  case None
  then show ?thesis by (simp add: MoveClear_def)
next
  case (Some y)
  with assms obtain ds where "descend fuel (heap s) 0 y = Some ds" by auto
  with Some show ?thesis by (simp add: MoveClear_def Release_def)
qed

text \<open>
  C3: a call of \<^verbatim>\<open>process\<close> returns, and the pool has then received the event
  exactly once. With the fuel \<open>Suc n\<close> the call yields a result whenever the walks and
  recursions that the event can start end within the fuel: the walk up from the event's
  parent within \<open>n\<close> hops, the walks up from the event's subject and from the parent's
  child of the event's name, and the recursions over that child and over the entry staged
  for the event's TID; the next free address is not on the parent's chain, the index holds
  the subject under its own key, and the staged entry is not moved below itself. And
  whatever the fuel, the case of the switch and the error returned, the pool after the call
  is the pool before followed by the event.
\<close>

theorem probe_event_released_once:
  assumes par: "\<forall>p. index s (parentKey pe) = Some p \<longrightarrow>
                  Path ep n (heap s) p \<noteq> None \<and> nextAddr s \<notin> ancestors n (heap s) p"
    and subj: "\<forall>x. index s (fileKey pe) = Some x \<longrightarrow>
                 entryKey (heap s x) = fileKey pe \<and> Path ep (Suc n) (heap s) x \<noteq> None"
    and child: "\<forall>p x. index s (parentKey pe) = Some p \<longrightarrow>
                  GetChild (heap s) p (FileName pe) = Some x \<longrightarrow>
                  Path ep (Suc n) (heap s) x \<noteq> None \<and> descend (Suc n) (heap s) 0 x \<noteq> None"
    and staged: "\<forall>y. moveCache s (ucast (Meta_TID pe)) = Some y \<longrightarrow>
                   descend (Suc n) (heap s) 0 y \<noteq> None \<and>
                   (\<forall>p. index s (parentKey pe) = Some p \<longrightarrow>
                      p \<notin> subtree (Suc n) (heap s) y \<and> y \<notin> ancestors n (heap s) p)"
  shows "(\<exists>r s'. process ep (Suc n) s pe = Some (r, s')) \<and>
         (\<forall>fuel r s'. process ep fuel s pe = Some (r, s') \<longrightarrow> pool s' = pool s @ [pe])"
proof
  let ?t = "ucast (Meta_TID pe) :: u64"
  let ?f = "Suc n"
  from staged have old: "\<forall>y. moveCache s ?t = Some y \<longrightarrow> descend ?f (heap s) 0 y \<noteq> None"
    by blast
  from MoveClear_returns [OF old] obtain sc where clear: "MoveClear ?f s ?t = Some sc"
    by blast
  show "\<exists>r s'. process ep ?f s pe = Some (r, s')"
  proof (cases "index s (parentKey pe)")
    case None
    show ?thesis
    proof (cases "maskBranch pe")
      case BMonitor
      obtain mp match where ack:
        "GetMonitorPath ep (FileIno pe) (FileDevMajor pe) (FileDevMinor pe) (FileName pe) =
           (mp, match)"
        by (cases "GetMonitorPath ep (FileIno pe) (FileDevMajor pe) (FileDevMinor pe)
              (FileName pe)") auto
      show ?thesis
      proof (cases match)
        case True
        with ack have "GetMonitorPath ep (FileIno pe) (FileDevMajor pe) (FileDevMinor pe)
            (FileName pe) = (mp, True)" by simp
        from process_Monitor_root [OF BMonitor this None] show ?thesis by blast
      next
        case False
        with BMonitor ack show ?thesis by (simp add: process_def process_Monitor_def)
      qed
    next
      case BModify
      show ?thesis
      proof (cases "index s (fileKey pe)")
        case fNone: None
        with BModify show ?thesis by (simp add: process_def process_Modify_def Get_def)
      next
        case (Some x)
        with subj obtain xp where "Path ep ?f (heap s) x = Some xp" by auto
        with BModify Some show ?thesis
          by (simp add: process_def process_Modify_def Get_def Emit_def del: Path.simps)
      qed
    next
      case BAttrib
      show ?thesis
      proof (cases "index s (fileKey pe)")
        case fNone: None
        with BAttrib show ?thesis by (simp add: process_def process_Attrib_def Get_def)
      next
        case (Some x)
        with subj obtain xp where "Path ep ?f (heap s) x = Some xp" by auto
        with BAttrib Some show ?thesis
          by (simp add: process_def process_Attrib_def Get_def Emit_def del: Path.simps)
      qed
    qed (use None clear in \<open>simp_all add: process_def process_Create_def process_MoveFrom_def
          process_MoveTo_def process_Delete_def Get_def\<close>)
  next
    case (Some p)
    with par obtain pp where pp: "Path ep n (heap s) p = Some pp"
      and fresh: "nextAddr s \<notin> ancestors n (heap s) p"
      by auto
    from pp obtain cp where cp: "chain n (heap s) p = Some cp" by (blast dest: Path_chain)
    with fresh have fresh': "nextAddr s \<notin> set cp" by (simp add: ancestors_def)
    show ?thesis
    proof (cases "maskBranch pe")
      case BMonitor
      obtain mp match where ack:
        "GetMonitorPath ep (FileIno pe) (FileDevMajor pe) (FileDevMinor pe) (FileName pe) =
           (mp, match)"
        by (cases "GetMonitorPath ep (FileIno pe) (FileDevMajor pe) (FileDevMinor pe)
              (FileName pe)") auto
      show ?thesis
      proof (cases match)
        case False
        with BMonitor ack show ?thesis by (simp add: process_def process_Monitor_def)
      next
        case True
        with ack have ack': "GetMonitorPath ep (FileIno pe) (FileDevMajor pe) (FileDevMinor pe)
            (FileName pe) = (mp, True)" by simp
        show ?thesis
        proof (cases "index s (fileKey pe)")
          case None
          from process_Monitor_new [OF BMonitor ack' Some None cp pp fresh' refl]
          show ?thesis by blast
        next
          case (Some x)
          with subj obtain xp where key: "entryKey (heap s x) = fileKey pe"
            and xp: "Path ep ?f (heap s) x = Some xp" by auto
          from process_Monitor_dup [OF BMonitor ack' \<open>index s (parentKey pe) = Some p\<close> Some key xp]
          show ?thesis by blast
        qed
      qed
    next
      case BCreate
      show ?thesis
      proof (cases "1 \<le> Depth (heap s p) \<and> \<not> isRecursive ep")
        case True
        with BCreate Some show ?thesis by (simp add: process_def process_Create_def Get_def)
      next
        case False
        show ?thesis
        proof (cases "index s (fileKey pe)")
          case None
          from process_Create_new [OF BCreate Some False None cp pp fresh' refl]
          show ?thesis by blast
        next
          case dup: (Some x)
          then have "index s (fileKey pe) \<noteq> None" by simp
          from process_Create_dup [OF BCreate Some False this] show ?thesis by blast
        qed
      qed
    next
      case BModify
      show ?thesis
      proof (cases "index s (fileKey pe)")
        case None
        with BModify show ?thesis by (simp add: process_def process_Modify_def Get_def)
      next
        case fSome: (Some x)
        with subj obtain xp where "Path ep ?f (heap s) x = Some xp" by auto
        with BModify fSome show ?thesis
          by (simp add: process_def process_Modify_def Get_def Emit_def del: Path.simps)
      qed
    next
      case BAttrib
      show ?thesis
      proof (cases "index s (fileKey pe)")
        case None
        with BAttrib show ?thesis by (simp add: process_def process_Attrib_def Get_def)
      next
        case fSome: (Some x)
        with subj obtain xp where "Path ep ?f (heap s) x = Some xp" by auto
        with BAttrib fSome show ?thesis
          by (simp add: process_def process_Attrib_def Get_def Emit_def del: Path.simps)
      qed
    next
      case BMoveFrom
      show ?thesis
      proof (cases "1 \<le> Depth (heap s p) \<and> \<not> isRecursive ep")
        case True
        with BMoveFrom Some clear show ?thesis
          by (simp add: process_def process_MoveFrom_def Get_def)
      next
        case False
        show ?thesis
        proof (cases "GetChild (heap s) p (FileName pe)")
          case None
          with BMoveFrom Some False show ?thesis
            by (auto simp: process_def process_MoveFrom_def Get_def)
        next
          case cSome: (Some x)
          with child Some obtain xp where xp: "Path ep ?f (heap s) x = Some xp" by blast
          from process_MoveFrom_child [OF BMoveFrom Some False cSome xp old]
          show ?thesis by blast
        qed
      qed
    next
      case BMoveTo
      show ?thesis
      proof (cases "1 \<le> Depth (heap s p) \<and> \<not> isRecursive ep")
        case True
        with BMoveTo Some clear show ?thesis
          by (simp add: process_def process_MoveTo_def Get_def)
      next
        case False
        then have g: "(1 \<le> Depth (heap s p) \<and> \<not> isRecursive ep) = False" by simp
        show ?thesis
        proof (cases "moveCache s ?t")
          case None
          from pp have "Path ep n (heap s) p \<noteq> None" by simp
          then have "Path ep ?f (heap s) p = Path ep n (heap s) p" by (rule Path_Suc)
          with pp have pp': "Path ep ?f (heap s) p = Some pp" by simp
          from BMoveTo Some None pp' show ?thesis
            by (simp add: process_def process_MoveTo_def Get_def MoveTo_def WalkAsync_def g
                del: Path.simps)
        next
          case sSome: (Some x)
          with staged \<open>index s (parentKey pe) = Some p\<close>
          obtain dx where dx: "descend ?f (heap s) 0 x = Some dx"
            and p_out: "p \<notin> subtree ?f (heap s) x" and x_out: "x \<notin> ancestors n (heap s) p"
            by blast
          from dx p_out have p_out': "p \<notin> fst ` set dx" by (simp add: subtree_def del: descend.simps)
          from cp x_out have x_out': "x \<notin> set cp" by (simp add: ancestors_def)
          from process_MoveTo_staged [OF BMoveTo \<open>index s (parentKey pe) = Some p\<close> False sSome
              dx p_out' cp pp x_out' refl]
          show ?thesis by blast
        qed
      qed
    next
      case BDelete
      show ?thesis
      proof (cases "1 \<le> Depth (heap s p) \<and> \<not> isRecursive ep")
        case True
        with BDelete Some show ?thesis by (simp add: process_def process_Delete_def Get_def)
      next
        case False
        show ?thesis
        proof (cases "GetChild (heap s) p (FileName pe)")
          case None
          with BDelete Some False show ?thesis
            by (auto simp: process_def process_Delete_def Get_def)
        next
          case cSome: (Some x)
          with child Some obtain xp dx where xp: "Path ep ?f (heap s) x = Some xp"
            and dx: "descend ?f (heap s) 0 x = Some dx" by blast
          from process_Delete_child [OF BDelete Some False cSome xp dx]
          show ?thesis by blast
        qed
      qed
    next
      case BDefault
      then show ?thesis by (simp add: process_def)
    qed
  qed
next
  show "\<forall>fuel r s'. process ep fuel s pe = Some (r, s') \<longrightarrow> pool s' = pool s @ [pe]"
    by (auto simp: process_def releaseProbeEvent_def split: branch.splits
      dest!: process_Monitor_pool process_Create_pool process_Modify_pool process_Attrib_pool
             process_MoveFrom_pool process_MoveTo_pool process_Delete_pool)
qed

theorem probe_event_released_once_witness:
  "(index ex_state (fileKey ev_modify_a) = Some 1 \<and>
    entryKey (heap ex_state 1) = fileKey ev_modify_a \<and>
    Path (ex_proc False) (Suc 0) (heap ex_state) 1 = Some ''/m/a'' \<and>
    (\<exists>r s'. process (ex_proc False) (Suc 0) ex_state ev_modify_a = Some (r, s') \<and>
            pool s' = pool ex_state @ [ev_modify_a])) \<and>
   (index ex_state (parentKey ev_delete_sub) = Some 0 \<and>
    Path (ex_proc False) 0 (heap ex_state) 0 = Some ''/m'' \<and>
    nextAddr ex_state \<notin> ancestors 0 (heap ex_state) 0 \<and>
    GetChild (heap ex_state) 0 (FileName ev_delete_sub) = Some 2 \<and>
    Path (ex_proc False) (Suc 0) (heap ex_state) 2 = Some ''/m/sub'' \<and>
    descend (Suc 0) (heap ex_state) 0 2 = Some [(2, 0), (3, 1)] \<and>
    (\<exists>r s'. process (ex_proc False) (Suc 0) ex_state ev_delete_sub = Some (r, s') \<and>
            pool s' = pool ex_state @ [ev_delete_sub])) \<and>
   (index ex_staged (parentKey ev_moveTo_b) = Some 0 \<and>
    moveCache ex_staged (ucast (Meta_TID ev_moveTo_b)) = Some 1 \<and>
    descend (Suc 0) (heap ex_staged) 0 1 = Some [(1, 0)] \<and>
    0 \<notin> subtree (Suc 0) (heap ex_staged) 1 \<and> 1 \<notin> ancestors 0 (heap ex_staged) 0 \<and>
    (\<exists>r s'. process (ex_proc False) (Suc 0) ex_staged ev_moveTo_b = Some (r, s') \<and>
            pool s' = pool ex_staged @ [ev_moveTo_b]))"
proof -
  let ?ep = "ex_proc False"
  have m: "index ex_state (fileKey ev_modify_a) = Some 1"
    "entryKey (heap ex_state 1) = fileKey ev_modify_a"
    "Path ?ep (Suc 0) (heap ex_state) 1 = Some ''/m/a''"
    "index ex_state (parentKey ev_modify_a) = None"
    "moveCache ex_state (ucast (Meta_TID ev_modify_a)) = None"
    by (simp_all add: ev_modify_a_def blankEvent_def ex_state_def ex_heap_def fileKey_def
        parentKey_def entryKey_def ex_proc_def slashJoin_def)
  have m1: "\<forall>p. index ex_state (parentKey ev_modify_a) = Some p \<longrightarrow>
      Path ?ep 0 (heap ex_state) p \<noteq> None \<and> nextAddr ex_state \<notin> ancestors 0 (heap ex_state) p"
    by (simp add: m(4))
  have m2: "\<forall>x. index ex_state (fileKey ev_modify_a) = Some x \<longrightarrow>
      entryKey (heap ex_state x) = fileKey ev_modify_a \<and>
      Path ?ep (Suc 0) (heap ex_state) x \<noteq> None"
    using m(2,3) by (simp add: m(1) del: Path.simps)
  have m3: "\<forall>p x. index ex_state (parentKey ev_modify_a) = Some p \<longrightarrow>
      GetChild (heap ex_state) p (FileName ev_modify_a) = Some x \<longrightarrow>
      Path ?ep (Suc 0) (heap ex_state) x \<noteq> None \<and> descend (Suc 0) (heap ex_state) 0 x \<noteq> None"
    by (simp add: m(4))
  have m4: "\<forall>y. moveCache ex_state (ucast (Meta_TID ev_modify_a)) = Some y \<longrightarrow>
      descend (Suc 0) (heap ex_state) 0 y \<noteq> None \<and>
      (\<forall>p. index ex_state (parentKey ev_modify_a) = Some p \<longrightarrow>
         p \<notin> subtree (Suc 0) (heap ex_state) y \<and> y \<notin> ancestors 0 (heap ex_state) p)"
    by (simp add: m(5))
  from probe_event_released_once [OF m1 m2 m3 m4]
  have modify: "\<exists>r s'. process ?ep (Suc 0) ex_state ev_modify_a = Some (r, s') \<and>
            pool s' = pool ex_state @ [ev_modify_a]"
    by blast
  have d: "index ex_state (parentKey ev_delete_sub) = Some 0"
    "Path ?ep 0 (heap ex_state) 0 = Some ''/m''"
    "nextAddr ex_state \<notin> ancestors 0 (heap ex_state) 0"
    "GetChild (heap ex_state) 0 (FileName ev_delete_sub) = Some 2"
    "Path ?ep (Suc 0) (heap ex_state) 2 = Some ''/m/sub''"
    "descend (Suc 0) (heap ex_state) 0 2 = Some [(2, 0), (3, 1)]"
    "index ex_state (fileKey ev_delete_sub) = None"
    "moveCache ex_state (ucast (Meta_TID ev_delete_sub)) = None"
    by (simp_all add: ev_delete_sub_def blankEvent_def ex_state_def ex_heap_def fileKey_def
        parentKey_def ex_proc_def slashJoin_def ancestors_def GetChild_def)
  have d1: "\<forall>p. index ex_state (parentKey ev_delete_sub) = Some p \<longrightarrow>
      Path ?ep 0 (heap ex_state) p \<noteq> None \<and> nextAddr ex_state \<notin> ancestors 0 (heap ex_state) p"
    using d(2,3) by (simp add: d(1) del: Path.simps)
  have d2: "\<forall>x. index ex_state (fileKey ev_delete_sub) = Some x \<longrightarrow>
      entryKey (heap ex_state x) = fileKey ev_delete_sub \<and>
      Path ?ep (Suc 0) (heap ex_state) x \<noteq> None"
    by (simp add: d(7))
  have d3: "\<forall>p x. index ex_state (parentKey ev_delete_sub) = Some p \<longrightarrow>
      GetChild (heap ex_state) p (FileName ev_delete_sub) = Some x \<longrightarrow>
      Path ?ep (Suc 0) (heap ex_state) x \<noteq> None \<and> descend (Suc 0) (heap ex_state) 0 x \<noteq> None"
  proof (intro allI impI)
    fix p x
    assume "index ex_state (parentKey ev_delete_sub) = Some p"
      and "GetChild (heap ex_state) p (FileName ev_delete_sub) = Some x"
    with d(1,4) have "x = 2" by simp
    then show "Path ?ep (Suc 0) (heap ex_state) x \<noteq> None \<and>
        descend (Suc 0) (heap ex_state) 0 x \<noteq> None"
      unfolding \<open>x = 2\<close> d(5,6) by simp
  qed
  have d4: "\<forall>y. moveCache ex_state (ucast (Meta_TID ev_delete_sub)) = Some y \<longrightarrow>
      descend (Suc 0) (heap ex_state) 0 y \<noteq> None \<and>
      (\<forall>p. index ex_state (parentKey ev_delete_sub) = Some p \<longrightarrow>
         p \<notin> subtree (Suc 0) (heap ex_state) y \<and> y \<notin> ancestors 0 (heap ex_state) p)"
    by (simp add: d(8))
  from probe_event_released_once [OF d1 d2 d3 d4]
  have delete: "\<exists>r s'. process ?ep (Suc 0) ex_state ev_delete_sub = Some (r, s') \<and>
            pool s' = pool ex_state @ [ev_delete_sub]"
    by blast
  have t: "index ex_staged (parentKey ev_moveTo_b) = Some 0"
    "moveCache ex_staged (ucast (Meta_TID ev_moveTo_b)) = Some 1"
    "descend (Suc 0) (heap ex_staged) 0 1 = Some [(1, 0)]"
    "1 \<notin> ancestors 0 (heap ex_staged) 0"
    "Path ?ep 0 (heap ex_staged) 0 = Some ''/m''"
    "nextAddr ex_staged \<notin> ancestors 0 (heap ex_staged) 0"
    "index ex_staged (fileKey ev_moveTo_b) = None"
    "GetChild (heap ex_staged) 0 (FileName ev_moveTo_b) = None"
    by (simp_all add: ev_moveTo_b_def blankEvent_def ex_staged_def ex_state_def ex_heap_def
        fileKey_def parentKey_def detach_def ancestors_def GetChild_def ex_proc_def)
  have t': "0 \<notin> subtree (Suc 0) (heap ex_staged) 1"
    unfolding subtree_def t(3) by simp
  have t1: "\<forall>p. index ex_staged (parentKey ev_moveTo_b) = Some p \<longrightarrow>
      Path ?ep 0 (heap ex_staged) p \<noteq> None \<and> nextAddr ex_staged \<notin> ancestors 0 (heap ex_staged) p"
    using t(5,6) by (simp add: t(1) del: Path.simps)
  have t2: "\<forall>x. index ex_staged (fileKey ev_moveTo_b) = Some x \<longrightarrow>
      entryKey (heap ex_staged x) = fileKey ev_moveTo_b \<and>
      Path ?ep (Suc 0) (heap ex_staged) x \<noteq> None"
    by (simp add: t(7))
  have t3: "\<forall>p x. index ex_staged (parentKey ev_moveTo_b) = Some p \<longrightarrow>
      GetChild (heap ex_staged) p (FileName ev_moveTo_b) = Some x \<longrightarrow>
      Path ?ep (Suc 0) (heap ex_staged) x \<noteq> None \<and> descend (Suc 0) (heap ex_staged) 0 x \<noteq> None"
    by (simp add: t(1,8))
  have t4: "\<forall>y. moveCache ex_staged (ucast (Meta_TID ev_moveTo_b)) = Some y \<longrightarrow>
      descend (Suc 0) (heap ex_staged) 0 y \<noteq> None \<and>
      (\<forall>p. index ex_staged (parentKey ev_moveTo_b) = Some p \<longrightarrow>
         p \<notin> subtree (Suc 0) (heap ex_staged) y \<and> y \<notin> ancestors 0 (heap ex_staged) p)"
  proof (intro allI impI)
    fix y
    assume "moveCache ex_staged (ucast (Meta_TID ev_moveTo_b)) = Some y"
    with t(2) have y: "y = 1" by simp
    have "descend (Suc 0) (heap ex_staged) 0 1 \<noteq> None" unfolding t(3) by simp
    with t' t(4) show "descend (Suc 0) (heap ex_staged) 0 y \<noteq> None \<and>
      (\<forall>p. index ex_staged (parentKey ev_moveTo_b) = Some p \<longrightarrow>
         p \<notin> subtree (Suc 0) (heap ex_staged) y \<and> y \<notin> ancestors 0 (heap ex_staged) p)"
      unfolding y t(1) by simp
  qed
  from probe_event_released_once [OF t1 t2 t3 t4]
  have moveTo: "\<exists>r s'. process ?ep (Suc 0) ex_staged ev_moveTo_b = Some (r, s') \<and>
            pool s' = pool ex_staged @ [ev_moveTo_b]"
    by blast
  from m(1-3) modify d(1-6) delete t(1-3) t' t(4) moveTo show ?thesis
    by (intro conjI)
qed

end
